(* ===== verification/Sync_Prelude.thy ===== *)
theory Sync_Prelude
  imports Main "HOL-Library.Finite_Map" "HOL-Library.Char_ord" "HOL-Library.List_Lexorder"
    "HOL-Library.Sublist" "HOL-Library.Multiset"
begin

text \<open>
  What every component of docker-dns-sync shares: the functions of Go's package
  \<^verbatim>\<open>strings\<close> that the code calls, Go maps as finite maps (with the "missing key is the
  nil slice" reading of a map of slices), the unspecified iteration order of
  \<^verbatim>\<open>range\<close> over a map, loops that stop at the first error, and the collections of
  rewrite rules the later theories extend.

  Strings are byte strings (\<^typ>\<open>string\<close>, a list of 8-bit characters), compared bytewise as
  Go compares them. Case folding and white space are those of ASCII: bytes from 128 up pass
  through unchanged, where Go would decode UTF-8 first.
\<close>

named_theorems text_simps \<open>normal forms of the Go string functions\<close>
named_theorems group_simps \<open>look-ups in the indexes that the planner builds\<close>
named_theorems wf_intros \<open>preservation of well-formedness by the operations\<close>

section \<open>Package strings\<close>

definition to_lower_char :: "char \<Rightarrow> char" where
  "to_lower_char c =
     (if 65 \<le> (of_char c :: nat) \<and> (of_char c :: nat) \<le> 90
      then char_of ((of_char c :: nat) + 32) else c)"

definition to_upper_char :: "char \<Rightarrow> char" where
  "to_upper_char c =
     (if 97 \<le> (of_char c :: nat) \<and> (of_char c :: nat) \<le> 122
      then char_of ((of_char c :: nat) - 32) else c)"

definition is_space :: "char \<Rightarrow> bool" where
  "is_space c \<longleftrightarrow> (9 \<le> (of_char c :: nat) \<and> (of_char c :: nat) \<le> 13) \<or> (of_char c :: nat) = 32"

text \<open>The same on the bits of the characters, for evaluation.\<close>

lemma to_lower_char_code [code]:
  "to_lower_char (Char b0 b1 b2 b3 b4 b5 b6 b7) =
     (if \<not> b7 \<and> b6 \<and> \<not> b5 \<and> (b4 \<and> (\<not> b3 \<or> \<not> b2 \<and> (\<not> b1 \<or> \<not> b0)) \<or> \<not> b4 \<and> (b3 \<or> b2 \<or> b1 \<or> b0))
      then Char b0 b1 b2 b3 b4 True b6 b7 else Char b0 b1 b2 b3 b4 b5 b6 b7)"
  by (cases b0; cases b1; cases b2; cases b3; cases b4; cases b5; cases b6; cases b7)
    (simp_all add: to_lower_char_def char_of_def bit_Suc_0_iff)

lemma is_space_code [code]:
  "is_space (Char b0 b1 b2 b3 b4 b5 b6 b7) \<longleftrightarrow>
     \<not> b7 \<and> \<not> b6 \<and> \<not> b4 \<and>
     (b5 \<and> \<not> b3 \<and> \<not> b2 \<and> \<not> b1 \<and> \<not> b0 \<or>
      \<not> b5 \<and> b3 \<and> (b2 \<and> \<not> b1 \<or> \<not> b2 \<and> (b1 \<or> b0)))"
  by (cases b0; cases b1; cases b2; cases b3; cases b4; cases b5; cases b6; cases b7)
    (simp_all add: is_space_def)

definition to_lower :: "string \<Rightarrow> string" where
  "to_lower s = map to_lower_char s"

definition to_upper :: "string \<Rightarrow> string" where
  "to_upper s = map to_upper_char s"

definition trim_left :: "string \<Rightarrow> string" where
  "trim_left s = dropWhile is_space s"

definition trim_space :: "string \<Rightarrow> string" where
  "trim_space s = rev (trim_left (rev (trim_left s)))"

definition has_prefix :: "string \<Rightarrow> string \<Rightarrow> bool" where
  "has_prefix s p \<longleftrightarrow> prefix p s"

definition has_suffix :: "string \<Rightarrow> string \<Rightarrow> bool" where
  "has_suffix s p \<longleftrightarrow> suffix p s"

definition contains :: "string \<Rightarrow> string \<Rightarrow> bool" where
  "contains s p \<longleftrightarrow> sublist p s"

definition trim_prefix :: "string \<Rightarrow> string \<Rightarrow> string" where
  "trim_prefix s p = (if has_prefix s p then drop (length p) s else s)"

definition trim_suffix :: "string \<Rightarrow> string \<Rightarrow> string" where
  "trim_suffix s p = (if has_suffix s p then take (length s - length p) s else s)"

text \<open>\<^verbatim>\<open>strings.Split(s, sep)\<close> for a separator of one byte: never the empty list.\<close>

fun split_on :: "char \<Rightarrow> string \<Rightarrow> string list" where
  "split_on c [] = [[]]"
| "split_on c (x # xs) =
     (if x = c then [] # split_on c xs
      else (case split_on c xs of [] \<Rightarrow> [[x]] | w # ws \<Rightarrow> (x # w) # ws))"

text \<open>\<^verbatim>\<open>strconv.Itoa\<close> of a natural number.\<close>

fun itoa :: "nat \<Rightarrow> string" where
  "itoa n = (if n < 10 then [char_of (48 + n)] else itoa (n div 10) @ [char_of (48 + n mod 10)])"

declare itoa.simps [simp del]

subsection \<open>Laws of the string functions\<close>

lemma to_lower_char_idem [simp]: "to_lower_char (to_lower_char c) = to_lower_char c"
  by (simp add: to_lower_char_def)

lemma is_space_to_lower_char [simp]: "is_space (to_lower_char c) = is_space c"
  by (auto simp: to_lower_char_def is_space_def)

lemma to_lower_char_eq_code [simp]:
  "to_lower_char c = CHR ''.'' \<longleftrightarrow> c = CHR ''.''"
proof (cases "65 \<le> (of_char c :: nat) \<and> (of_char c :: nat) \<le> 90")
  case True
  then have "(of_char (to_lower_char c) :: nat) \<ge> 97"
    by (simp add: to_lower_char_def)
  moreover have "(of_char (CHR ''.'') :: nat) = 46" by simp
  ultimately show ?thesis using True by force
next
  case False
  then show ?thesis unfolding to_lower_char_def by argo
qed

lemma to_lower_idem [simp, text_simps]: "to_lower (to_lower s) = to_lower s"
  by (simp add: to_lower_def)

lemma length_to_lower [simp]: "length (to_lower s) = length s"
  by (simp add: to_lower_def)

lemma to_lower_append [simp]: "to_lower (s @ t) = to_lower s @ to_lower t"
  by (simp add: to_lower_def)

lemma to_lower_rev: "to_lower (rev s) = rev (to_lower s)"
  by (simp add: to_lower_def rev_map)

lemma to_lower_take: "to_lower (take n s) = take n (to_lower s)"
  by (simp add: to_lower_def take_map)

lemma trim_left_to_lower: "trim_left (to_lower s) = to_lower (trim_left s)"
  by (simp add: trim_left_def to_lower_def dropWhile_map o_def)

lemma trim_space_to_lower [text_simps]: "trim_space (to_lower s) = to_lower (trim_space s)"
  by (simp add: trim_space_def trim_left_to_lower flip: to_lower_rev)

lemma trim_left_idem [simp]: "trim_left (trim_left s) = trim_left s"
  by (simp add: trim_left_def dropWhile_idem)

lemma trim_left_fixed_iff: "trim_left s = s \<longleftrightarrow> (s = [] \<or> \<not> is_space (hd s))"
proof (cases s)
  case (Cons c cs)
  have "trim_left cs \<noteq> c # cs"
    using length_dropWhile_le [of is_space cs] by (auto simp: trim_left_def)
  with Cons show ?thesis by (auto simp: trim_left_def)
qed (simp add: trim_left_def)

lemma trim_left_hd: "trim_left s \<noteq> [] \<Longrightarrow> \<not> is_space (hd (trim_left s))"
  unfolding trim_left_def by (rule hd_dropWhile)

lemma trim_left_append_keep:
  "trim_left s \<noteq> [] \<Longrightarrow> trim_left (s @ t) = trim_left s @ t"
  unfolding trim_left_def by (metis dropWhile_append1 dropWhile_eq_Nil_conv)

lemma trim_left_split: "\<exists>u. s = u @ trim_left s"
  unfolding trim_left_def by (metis takeWhile_dropWhile_id)

text \<open>Trimming on the right keeps a first character that is no white space.\<close>

lemma trim_right_fixed:
  assumes "trim_left s = s"
  shows "trim_left (rev (trim_left (rev s))) = rev (trim_left (rev s))"
proof (cases "trim_left (rev s)")
  case Nil
  then show ?thesis by (simp only:) (simp add: trim_left_def)
next
  case (Cons c cs)
  obtain u where "rev s = u @ trim_left (rev s)" using trim_left_split by blast
  then have s: "s = rev (trim_left (rev s)) @ rev u" by (metis rev_append rev_rev_ident)
  have ne: "rev (trim_left (rev s)) \<noteq> []" using Cons by simp
  then have "s \<noteq> []" using Cons by (auto simp: trim_left_def)
  with assms have "\<not> is_space (hd s)" by (simp add: trim_left_fixed_iff)
  moreover have "hd s = hd (rev (trim_left (rev s)))" using s ne by (metis hd_append2)
  ultimately show ?thesis by (simp add: trim_left_fixed_iff)
qed

lemma trim_space_idem [simp, text_simps]: "trim_space (trim_space s) = trim_space s"
  using trim_right_fixed [of "trim_left s"] by (simp add: trim_space_def)

lemma trim_space_Nil [simp]: "trim_space [] = []"
  by (simp add: trim_space_def trim_left_def)

lemma to_lower_Nil [simp]: "to_lower [] = []"
  by (simp add: to_lower_def)

lemma has_suffix_dot_iff: "has_suffix s ''.'' \<longleftrightarrow> s \<noteq> [] \<and> last s = CHR ''.''"
  unfolding has_suffix_def suffix_def by (metis append_butlast_last_id last_snoc snoc_eq_iff_butlast)

lemma trim_suffix_dot: "trim_suffix s ''.'' = (if s \<noteq> [] \<and> last s = CHR ''.'' then butlast s else s)"
  by (simp add: trim_suffix_def has_suffix_dot_iff butlast_conv_take)

lemma trim_suffix_dot_to_lower [text_simps]:
  "trim_suffix (to_lower s) ''.'' = to_lower (trim_suffix s ''.'')"
  by (auto simp: trim_suffix_dot to_lower_def last_map map_butlast)

lemma set_trim_left: "set (trim_left s) \<subseteq> set s"
  unfolding trim_left_def by (rule set_dropWhileD [THEN subsetI])

lemma set_trim_space: "set (trim_space s) \<subseteq> set s"
  using set_trim_left [of s] set_trim_left [of "rev (trim_left s)"] by (auto simp: trim_space_def)

lemma set_trim_suffix: "set (trim_suffix s p) \<subseteq> set s"
  by (auto simp: trim_suffix_def dest: in_set_takeD)

lemma split_on_nonempty [simp]: "split_on c s \<noteq> []"
  by (induction s) (auto split: list.splits)

lemma split_on_no_sep: "c \<notin> set s \<Longrightarrow> split_on c s = [s]"
  by (induction s) auto

lemma split_on_append: "c \<notin> set s \<Longrightarrow> split_on c (s @ c # t) = s # split_on c t"
  by (induction s) (auto split: list.splits)

lemma split_on_parts: "w \<in> set (split_on c s) \<Longrightarrow> c \<notin> set w"
proof (induction s arbitrary: w)
  case Nil
  then show ?case by simp
next
  case (Cons x xs)
  obtain v vs where "split_on c xs = v # vs" by (cases "split_on c xs") auto
  with Cons show ?case by (auto split: if_splits)
qed

text \<open>Decimal digits.\<close>

lemma itoa_digits: "c \<in> set (itoa n) \<Longrightarrow> \<exists>k < 10. c = char_of (48 + k :: nat)"
proof (induction n rule: itoa.induct)
  case (1 n)
  show ?case
  proof (cases "n < 10")
    case True
    then have "c = char_of (48 + n)" using 1(2) by (simp add: itoa.simps [of n])
    with True show ?thesis by blast
  next
    case False
    then consider "c \<in> set (itoa (n div 10))" | "c = char_of (48 + n mod 10)"
      using 1(2) by (auto simp: itoa.simps [of n])
    then show ?thesis
    proof cases
      case 2
      moreover have "n mod 10 < 10" by simp
      ultimately show ?thesis by blast
    qed (use 1(1) [OF False] in blast)
  qed
qed

lemma itoa_not_Nil: "itoa n \<noteq> []"
  by (subst itoa.simps) simp

text \<open>
  The text two user-supplied values have in common when they differ in case and padding only;
  every key of the program is built to ignore exactly such differences.
\<close>

definition same_text :: "string \<Rightarrow> string \<Rightarrow> bool" where
  "same_text s t \<longleftrightarrow> trim_space (to_lower s) = trim_space (to_lower t)"

text \<open>
  The contract of a normaliser: it reads its argument only up to case and surrounding white
  space, and answers in lower case. Every \<^verbatim>\<open>normalize...\<close> function of the repository meets it;
  note that none of those that cut a trailing dot is idempotent (\<open>a..\<close> loses one dot per
  call), so idempotence is not part of the contract.
\<close>

locale field_normalizer =
  fixes norm :: "string \<Rightarrow> string"
  assumes norm_lower: "norm (to_lower s) = norm s"
    and norm_trim: "norm (trim_space s) = norm s"
    and norm_is_lower: "to_lower (norm s) = norm s"
begin

lemma norm_same_text: "same_text s t \<Longrightarrow> norm s = norm t"
  unfolding same_text_def by (metis norm_lower norm_trim)

lemma norm_padding: "norm (trim_space (to_lower s)) = norm s"
  by (simp add: norm_lower norm_trim)

end

section \<open>Go maps and slices\<close>

text \<open>
  A \<^verbatim>\<open>map[string][]T\<close>: a missing key reads as the nil slice, and
  \<^verbatim>\<open>m[k] = append(m[k], v)\<close> extends the slice of a key.
\<close>

definition group_at :: "('k, 'v list) fmap \<Rightarrow> 'k \<Rightarrow> 'v list" where
  "group_at m k = (case fmlookup m k of None \<Rightarrow> [] | Some vs \<Rightarrow> vs)"

definition group_add :: "'k \<Rightarrow> 'v \<Rightarrow> ('k, 'v list) fmap \<Rightarrow> ('k, 'v list) fmap" where
  "group_add k v m = fmupd k (group_at m k @ [v]) m"

text \<open>The loop \<^verbatim>\<open>for _, v := range vs { m[key(v)] = append(m[key(v)], v) }\<close>.\<close>

definition group_by :: "('v \<Rightarrow> 'k) \<Rightarrow> 'v list \<Rightarrow> ('k, 'v list) fmap" where
  "group_by key vs = fold (\<lambda>v. group_add (key v) v) vs fmempty"

text \<open>The loop \<^verbatim>\<open>for _, v := range vs { m[key(v)] = v }\<close>: the last value of a key stays.\<close>

definition index_by :: "('v \<Rightarrow> 'k) \<Rightarrow> 'v list \<Rightarrow> ('k, 'v) fmap" where
  "index_by key vs = fold (\<lambda>v. fmupd (key v) v) vs fmempty"

lemma group_at_empty [simp]: "group_at fmempty k = []"
  by (simp add: group_at_def)

lemma group_at_add: "group_at (group_add k v m) k' = (if k' = k then group_at m k @ [v] else group_at m k')"
  by (simp add: group_at_def group_add_def)

lemma group_at_fold:
  "group_at (fold (\<lambda>v. group_add (key v) v) vs m) k = group_at m k @ filter (\<lambda>v. key v = k) vs"
  by (induction vs arbitrary: m) (auto simp: group_at_add)

lemma group_at_group_by [group_simps]: "group_at (group_by key vs) k = filter (\<lambda>v. key v = k) vs"
  by (simp add: group_by_def group_at_fold)

lemma fmdom_group_fold:
  "fset (fmdom (fold (\<lambda>v. group_add (key v) v) vs m)) = fset (fmdom m) \<union> key ` set vs"
  by (induction vs arbitrary: m) (auto simp: group_add_def)

lemma fmdom_group_by [group_simps]: "fset (fmdom (group_by key vs)) = key ` set vs"
  by (simp add: group_by_def fmdom_group_fold)

lemma fmlookup_index_fold:
  "fmlookup (fold (\<lambda>v. fmupd (key v) v) vs m) k =
     (case find (\<lambda>v. key v = k) (rev vs) of None \<Rightarrow> fmlookup m k | Some v \<Rightarrow> Some v)"
proof (induction vs arbitrary: m)
  case Nil
  then show ?case by simp
next
  case (Cons v vs)
  have "find P (ws @ [v]) = (case find P ws of None \<Rightarrow> (if P v then Some v else None) | Some w \<Rightarrow> Some w)"
    for P :: "'a \<Rightarrow> bool" and ws
    by (induction ws) auto
  then show ?case using Cons [of "fmupd (key v) v m"] by (auto split: option.splits)
qed

lemma fmlookup_index_by [group_simps]:
  "fmlookup (index_by key vs) k = find (\<lambda>v. key v = k) (rev vs)"
  by (simp add: index_by_def fmlookup_index_fold split: option.split)

lemma index_by_SomeD: "fmlookup (index_by key vs) k = Some v \<Longrightarrow> v \<in> set vs \<and> key v = k"
  unfolding fmlookup_index_by find_Some_iff by (metis nth_mem set_rev)

lemma index_by_NoneD: "fmlookup (index_by key vs) k = None \<Longrightarrow> v \<in> set vs \<Longrightarrow> key v \<noteq> k"
  by (auto simp: fmlookup_index_by find_None_iff)

lemma fmdom_index_by [group_simps]: "fset (fmdom (index_by key vs)) = key ` set vs"
proof (intro set_eqI iffI)
  fix k assume "k \<in> fset (fmdom (index_by key vs))"
  then obtain v where "fmlookup (index_by key vs) k = Some v"
    by (meson fmlookup_dom_iff)
  then show "k \<in> key ` set vs" by (auto dest: index_by_SomeD)
next
  fix k assume "k \<in> key ` set vs"
  then have "fmlookup (index_by key vs) k \<noteq> None" using index_by_NoneD by fastforce
  then show "k \<in> fset (fmdom (index_by key vs))" by (simp add: fmlookup_dom_iff)
qed

text \<open>When the key determines the value, the index finds each of its values.\<close>

lemma index_by_inj:
  "v \<in> set vs \<Longrightarrow> inj_on key (set vs) \<Longrightarrow> fmlookup (index_by key vs) (key v) = Some v"
proof -
  assume v: "v \<in> set vs" and inj: "inj_on key (set vs)"
  then obtain w where w: "fmlookup (index_by key vs) (key v) = Some w"
    by (metis index_by_NoneD not_None_eq)
  then have "w \<in> set vs" "key w = key v" by (auto dest: index_by_SomeD)
  with v inj have "w = v" by (auto dest: inj_onD)
  with w show ?thesis by simp
qed

subsection \<open>Iteration over a map\<close>

text \<open>
  Go does not specify the order in which \<^verbatim>\<open>range\<close> visits the keys of a map. An order is
  any function that lists the keys of each finite set without repetition; each loop of the
  program takes one as an argument, so a theorem about all orders is a theorem about every
  run. \<open>sorted_order\<close> and \<open>reverse_order\<close> are two orders that evaluate.
\<close>

typedef range_order = "{f :: string fset \<Rightarrow> string list. \<forall>A. distinct (f A) \<and> set (f A) = fset A}"
  by (rule exI [of _ sorted_list_of_fset]) (simp add: sorted_list_of_fset.rep_eq)

setup_lifting type_definition_range_order

lift_definition range_keys :: "range_order \<Rightarrow> string fset \<Rightarrow> string list" is "\<lambda>f. f" .

lift_definition sorted_order :: range_order is sorted_list_of_fset
  by (simp add: sorted_list_of_fset.rep_eq)

lift_definition reverse_order :: range_order is "\<lambda>A. rev (sorted_list_of_fset A)"
  by (simp add: sorted_list_of_fset.rep_eq)

lemma distinct_range_keys [simp]: "distinct (range_keys ord A)"
  by transfer simp

lemma set_range_keys [simp]: "set (range_keys ord A) = fset A"
  by transfer simp

lemma mset_range_keys: "mset (range_keys ord A) = mset (range_keys ord' A)"
  by (rule set_eq_iff_mset_eq_distinct [THEN iffD1]) auto

section \<open>Loops\<close>

text \<open>
  A loop over a slice whose body may return an error: the loop stops there, with the state
  the body left.
\<close>

fun each_until_error :: "('a \<Rightarrow> 's \<Rightarrow> 'e option \<times> 's) \<Rightarrow> 'a list \<Rightarrow> 's \<Rightarrow> 'e option \<times> 's" where
  "each_until_error f [] s = (None, s)"
| "each_until_error f (x # xs) s =
     (case f x s of (None, s') \<Rightarrow> each_until_error f xs s' | (Some e, s') \<Rightarrow> (Some e, s'))"

lemma each_until_error_append:
  "each_until_error f (xs @ ys) s =
     (case each_until_error f xs s of (None, s') \<Rightarrow> each_until_error f ys s' | r \<Rightarrow> r)"
  by (induction xs arbitrary: s) (auto split: prod.splits option.splits)

text \<open>A body that keeps an invariant, whether it fails or not, makes a loop that keeps it.\<close>

locale step_invariant =
  fixes body :: "'a \<Rightarrow> 's \<Rightarrow> 'e option \<times> 's"
    and ok :: "'a \<Rightarrow> bool"
    and I :: "'s \<Rightarrow> bool"
  assumes body_keeps: "ok x \<Longrightarrow> I s \<Longrightarrow> I (snd (body x s))"
begin

lemma loop_keeps: "list_all ok xs \<Longrightarrow> I s \<Longrightarrow> I (snd (each_until_error body xs s))"
proof (induction xs arbitrary: s)
  case Nil
  then show ?case by simp
next
  case (Cons x xs)
  then have "I (snd (body x s))" by (simp add: body_keeps)
  with Cons show ?case by (auto split: prod.splits option.splits)
qed

end

text \<open>
  A body that establishes a fact about its element, which the bodies of later elements keep
  when they are apart from it: a loop that ends without an error establishes all the facts.
\<close>

locale establishing_loop =
  fixes body :: "'a \<Rightarrow> 's \<Rightarrow> 'e option \<times> 's"
    and good :: "'a \<Rightarrow> 's \<Rightarrow> bool"
    and apart :: "'a \<Rightarrow> 'a \<Rightarrow> bool"
  assumes establishes: "body x s = (None, s') \<Longrightarrow> good x s'"
    and keeps: "apart x y \<Longrightarrow> good x s \<Longrightarrow> good x (snd (body y s))"
begin

lemma rest_keeps: "\<forall>y \<in> set ys. apart x y \<Longrightarrow> good x s \<Longrightarrow> good x (snd (each_until_error body ys s))"
proof (induction ys arbitrary: s)
  case Nil
  then show ?case by simp
next
  case (Cons y ys)
  then have "good x (snd (body y s))" by (simp add: keeps)
  with Cons show ?case by (auto split: prod.splits option.splits)
qed

lemma loop_establishes:
  "each_until_error body xs s = (None, s') \<Longrightarrow> sorted_wrt apart xs \<Longrightarrow> x \<in> set xs \<Longrightarrow> good x s'"
proof (induction xs arbitrary: s)
  case Nil
  then show ?case by simp
next
  case (Cons y ys)
  obtain t where y: "body y s = (None, t)" and ys: "each_until_error body ys t = (None, s')"
    using Cons.prems(1) by (auto split: prod.splits option.splits)
  show ?case
  proof (cases "x \<in> set ys")
    case True
    with Cons.IH [OF ys] Cons.prems show ?thesis by simp
  next
    case False
    with Cons.prems have "x = y" and "\<forall>z \<in> set ys. apart x z" by auto
    with rest_keeps [of ys x t] establishes [OF y] ys show ?thesis by simp
  qed
qed

end

end
