(* ===== verification/Contracts.thy ===== *)
theory Contracts
  imports Sync_Prelude
begin

text \<open>
  The data that the components exchange (\<^verbatim>\<open>internal/contracts\<close> and
  \<^verbatim>\<open>internal/state/model.go\<close>), the errors they return and the interfaces
  \<^verbatim>\<open>contracts.Output\<close> and \<^verbatim>\<open>contracts.Source\<close>. A pointer to an immutable struct
  is an option; a nil slice is the empty list; an instant of the running process is its number of nanoseconds.
\<close>

section \<open>Records\<close>

type_synonym time = int

text \<open>
  A \<^verbatim>\<open>time.Time\<close> that the program stores is read from the clock and converted with
  \<^verbatim>\<open>UTC()\<close>; the program never computes with it, so it is its calendar reading. The zero
  value is midnight of the first of January of the year 1.
\<close>

record utc_time =
  ut_year :: nat
  ut_month :: nat
  ut_day :: nat
  ut_hour :: nat
  ut_minute :: nat
  ut_second :: nat
  ut_nano :: nat

definition zero_time :: utc_time where
  "zero_time = \<lparr>ut_year = 1, ut_month = 1, ut_day = 1, ut_hour = 0, ut_minute = 0, ut_second = 0, ut_nano = 0\<rparr>"

record provider_ref =
  pr_type :: string
  pr_name :: string

record source_object_ref =
  so_provider :: provider_ref
  so_id :: string
  so_display_name :: string

record desired_record =
  d_hostname :: string
  d_answer :: string
  d_source :: source_object_ref
  d_output :: string

record record_provenance =
  rp_remote_id :: string

record visible_record =
  v_output :: provider_ref
  v_hostname :: string
  v_answer :: string
  v_provenance :: "record_provenance option"

record managed_record =
  m_output :: provider_ref
  m_source :: source_object_ref
  m_hostname :: string
  m_answer :: string
  m_provenance :: "record_provenance option"
  m_last_applied_at :: utc_time

record snapshot =
  sn_version :: int
  sn_managed_records :: "managed_record list"

definition snapshot_version :: int where
  "snapshot_version = 1"

definition empty_snapshot :: snapshot where
  "empty_snapshot = \<lparr>sn_version = snapshot_version, sn_managed_records = []\<rparr>"

section \<open>Errors\<close>

text \<open>
  Go errors as values. \<open>ErrWrap p e\<close> is \<^verbatim>\<open>fmt.Errorf("p%w", e)\<close> (every wrapping format of the
  repository ends in \<^verbatim>\<open>%w\<close>), \<open>ErrText\<close> an error with no cause, \<open>ErrJoin\<close> is
  \<^verbatim>\<open>errors.Join\<close>. \<open>ErrForeign\<close> is an error value of code outside the repository (the
  network, the file system, a client library), of which the program reads the message, whether
  it has a method \<^verbatim>\<open>Temporary()\<close> or \<^verbatim>\<open>Timeout()\<close>, and, for errors of the Cloudflare
  client, the HTTP status and the API's error items, each with its code and its raw JSON. The remaining constructors are the error
  structs of the repository.
\<close>

record foreign_error =
  fe_message :: string
  fe_temporary :: "bool option"
  fe_timeout :: "bool option"
  fe_status :: "nat option"
  fe_codes :: "(int \<times> string) list"

datatype go_error =
    ErrText string
  | ErrWrap string go_error
  | ErrJoin go_error go_error
  | ErrCanceled
  | ErrDeadlineExceeded
  | ErrForeign foreign_error
  | ErrTemporary go_error
  | ErrSanitized go_error string
  | ErrSourceList nat provider_ref go_error
  | ErrOutputList nat provider_ref go_error
  | ErrOutputMutation provider_ref go_error
  | ErrPartialProgress go_error
  | ErrVisibleRecordAmbiguous string string nat

text \<open>
  The errors that \<^verbatim>\<open>errors.Is\<close> and \<^verbatim>\<open>errors.As\<close> examine, in their order: the error
  itself, then depth first what its \<^verbatim>\<open>Unwrap\<close> returns.
\<close>

fun err_chain :: "go_error \<Rightarrow> go_error list" where
  "err_chain (ErrWrap p e) = ErrWrap p e # err_chain e"
| "err_chain (ErrJoin a b) = ErrJoin a b # err_chain a @ err_chain b"
| "err_chain (ErrTemporary e) = ErrTemporary e # err_chain e"
| "err_chain (ErrSanitized e m) = ErrSanitized e m # err_chain e"
| "err_chain (ErrSourceList i p e) = ErrSourceList i p e # err_chain e"
| "err_chain (ErrOutputList i p e) = ErrOutputList i p e # err_chain e"
| "err_chain (ErrOutputMutation p e) = ErrOutputMutation p e # err_chain e"
| "err_chain (ErrPartialProgress e) = ErrPartialProgress e # err_chain e"
| "err_chain e = [e]"

definition err_is :: "go_error \<Rightarrow> go_error \<Rightarrow> bool" where
  "err_is e target \<longleftrightarrow> target \<in> set (err_chain e)"

fun first_some :: "('a \<Rightarrow> 'b option) \<Rightarrow> 'a list \<Rightarrow> 'b option" where
  "first_some f [] = None"
| "first_some f (x # xs) = (case f x of None \<Rightarrow> first_some f xs | Some y \<Rightarrow> Some y)"

definition err_as :: "(go_error \<Rightarrow> 'b option) \<Rightarrow> go_error \<Rightarrow> 'b option" where
  "err_as f e = first_some f (err_chain e)"

text \<open>\<^verbatim>\<open>provider.Type + "/" + provider.Name\<close>.\<close>

definition provider_key :: "provider_ref \<Rightarrow> string" where
  "provider_key p = pr_type p @ ''/'' @ pr_name p"

text \<open>The method \<^verbatim>\<open>Error()\<close> of each error.\<close>

fun err_message :: "go_error \<Rightarrow> string" where
  "err_message (ErrText m) = m"
| "err_message (ErrWrap p e) = p @ err_message e"
| "err_message (ErrJoin a b) = err_message a @ ''\<newline>'' @ err_message b"
| "err_message ErrCanceled = ''context canceled''"
| "err_message ErrDeadlineExceeded = ''context deadline exceeded''"
| "err_message (ErrForeign f) = fe_message f"
| "err_message (ErrTemporary e) = err_message e"
| "err_message (ErrSanitized e m) = m"
| "err_message (ErrSourceList i p e) =
     ''list desired records from source '' @ itoa i @ '' ('' @ provider_key p @ ''): '' @ err_message e"
| "err_message (ErrOutputList i p e) =
     ''list visible records from output '' @ itoa i @ '' ('' @ provider_key p @ ''): '' @ err_message e"
| "err_message (ErrOutputMutation p e) = err_message e"
| "err_message (ErrPartialProgress e) = err_message e"
| "err_message (ErrVisibleRecordAmbiguous out k n) =
     ''visible record ambiguity for output '' @ out @ '' key '' @ k @ '': '' @ itoa n @ '' matches''"

definition is_context_cancellation_error :: "go_error \<Rightarrow> bool" where
  "is_context_cancellation_error e \<longleftrightarrow> err_is e ErrCanceled \<or> err_is e ErrDeadlineExceeded"

text \<open>
  Which errors have a method \<^verbatim>\<open>Temporary() bool\<close>, and what it answers. The deadline error of
  package \<^verbatim>\<open>context\<close> has one too.
\<close>

fun temporary_method :: "go_error \<Rightarrow> bool option" where
  "temporary_method (ErrTemporary e) = Some True"
| "temporary_method ErrDeadlineExceeded = Some True"
| "temporary_method (ErrForeign f) = fe_temporary f"
| "temporary_method e = None"

definition is_temporary_error :: "go_error \<Rightarrow> bool" where
  "is_temporary_error e \<longleftrightarrow>
     \<not> is_context_cancellation_error e \<and>
     (case err_as temporary_method e of None \<Rightarrow> False | Some b \<Rightarrow> b)"

fun as_source_list_error :: "go_error \<Rightarrow> (nat \<times> provider_ref) option" where
  "as_source_list_error (ErrSourceList i p e) = Some (i, p)"
| "as_source_list_error e = None"

fun as_output_list_error :: "go_error \<Rightarrow> (nat \<times> provider_ref) option" where
  "as_output_list_error (ErrOutputList i p e) = Some (i, p)"
| "as_output_list_error e = None"

fun as_output_mutation_error :: "go_error \<Rightarrow> provider_ref option" where
  "as_output_mutation_error (ErrOutputMutation p e) = Some p"
| "as_output_mutation_error e = None"

fun as_partial_progress_error :: "go_error \<Rightarrow> go_error option" where
  "as_partial_progress_error (ErrPartialProgress e) = Some e"
| "as_partial_progress_error e = None"

lemma first_some_append:
  "first_some f (xs @ ys) = (case first_some f xs of None \<Rightarrow> first_some f ys | Some y \<Rightarrow> Some y)"
  by (induction xs) (auto split: option.splits)

text \<open>
  Wrappers that carry no method of their own are transparent to the classification, so an
  error keeps its class on its way up through the runtime.
\<close>

lemma err_as_wrap: "f (ErrWrap p e) = None \<Longrightarrow> err_as f (ErrWrap p e) = err_as f e"
  by (simp add: err_as_def)

lemma is_temporary_transparent:
  "is_temporary_error (ErrWrap p e) = is_temporary_error e"
  "is_temporary_error (ErrSanitized e m) = is_temporary_error e"
  "is_temporary_error (ErrSourceList i pr e) = is_temporary_error e"
  "is_temporary_error (ErrOutputList i pr e) = is_temporary_error e"
  "is_temporary_error (ErrOutputMutation pr e) = is_temporary_error e"
  "is_temporary_error (ErrPartialProgress e) = is_temporary_error e"
  by (simp_all add: is_temporary_error_def is_context_cancellation_error_def err_is_def err_as_def)

lemma is_temporary_ErrTemporary:
  "is_temporary_error (ErrTemporary e) \<longleftrightarrow> \<not> is_context_cancellation_error e"
  by (simp add: is_temporary_error_def is_context_cancellation_error_def err_is_def err_as_def)

section \<open>Interfaces\<close>

text \<open>
  An operation that may change the world and may fail. The world \<open>'w\<close> is everything outside
  the process that the operation can reach (the DNS server, the Docker daemon, the clock that
  cancels contexts); the program sees it only through these operations.
\<close>

type_synonym ('w, 'a) io = "'w \<Rightarrow> (go_error + 'a) \<times> 'w"

record 'w output_port =
  out_provider :: provider_ref
  out_list_visible :: "('w, visible_record list) io"
  out_create :: "desired_record \<Rightarrow> ('w, record_provenance option) io"
  out_update :: "visible_record \<Rightarrow> desired_record \<Rightarrow> ('w, record_provenance option) io"
  out_delete :: "visible_record \<Rightarrow> ('w, unit) io"

record 'w source_port =
  src_provider :: provider_ref
  src_list_desired :: "('w, desired_record list) io"
  src_watchable :: bool

end
