(* ===== verification/Record_Keys.thy ===== *)
theory Record_Keys
  imports Contracts
begin

text \<open>
  The keys of \<^verbatim>\<open>internal/runtime/reconcile_keys.go\<close>: every comparison of hostnames, answers
  and lineages in the planner is an equality of these strings. The lemmas say which
  differences a key ignores (case and padding) and that, as long as no field holds the
  separator, it ignores nothing else.
\<close>

definition normalize_hostname :: "string \<Rightarrow> string" where
  "normalize_hostname hostname = trim_suffix (trim_space (to_lower hostname)) ''.''"

definition normalize_answer :: "string \<Rightarrow> string" where
  "normalize_answer answer = trim_space (to_lower answer)"

definition visible_record_key :: "string \<Rightarrow> string \<Rightarrow> string" where
  "visible_record_key hostname answer = normalize_hostname hostname @ ''|'' @ normalize_answer answer"

definition owned_lineage_key ::
  "string \<Rightarrow> string \<Rightarrow> string \<Rightarrow> string \<Rightarrow> string \<Rightarrow> string \<Rightarrow> string" where
  "owned_lineage_key providerType providerName sourceType sourceName sourceID hostname =
     trim_space (to_lower providerType) @ ''|'' @
     trim_space (to_lower providerName) @ ''|'' @
     trim_space (to_lower sourceType) @ ''|'' @
     trim_space (to_lower sourceName) @ ''|'' @
     trim_space (to_lower sourceID) @ ''|'' @
     normalize_hostname hostname"

definition owned_display_lineage_key :: "provider_ref \<Rightarrow> source_object_ref \<Rightarrow> string \<Rightarrow> string" where
  "owned_display_lineage_key output source hostname =
     trim_space (to_lower (pr_type output)) @ ''|'' @
     trim_space (to_lower (pr_name output)) @ ''|'' @
     trim_space (to_lower (pr_type (so_provider source))) @ ''|'' @
     trim_space (to_lower (pr_name (so_provider source))) @ ''|'' @
     trim_space (to_lower (so_display_name source)) @ ''|'' @
     normalize_hostname hostname"

text \<open>\<^verbatim>\<open>desiredRecordLineageKey\<close> and \<^verbatim>\<open>managedRecordLineageKey\<close> of reconcile_apply.go.\<close>

definition desired_record_lineage_key :: "provider_ref \<Rightarrow> desired_record \<Rightarrow> string" where
  "desired_record_lineage_key output desired =
     owned_lineage_key (pr_type output) (pr_name output)
       (pr_type (so_provider (d_source desired))) (pr_name (so_provider (d_source desired)))
       (so_id (d_source desired)) (d_hostname desired)"

definition managed_record_lineage_key :: "managed_record \<Rightarrow> string" where
  "managed_record_lineage_key record =
     owned_lineage_key (pr_type (m_output record)) (pr_name (m_output record))
       (pr_type (so_provider (m_source record))) (pr_name (so_provider (m_source record)))
       (so_id (m_source record)) (m_hostname record)"

section \<open>What the keys ignore\<close>

interpretation hostname_norm: field_normalizer normalize_hostname
  by unfold_locales (simp_all add: normalize_hostname_def trim_space_to_lower
      trim_suffix_dot_to_lower)

interpretation answer_norm: field_normalizer normalize_answer
  by unfold_locales (simp_all add: normalize_answer_def trim_space_to_lower)

interpretation lineage_field: field_normalizer "\<lambda>s. trim_space (to_lower s)"
  by unfold_locales (simp_all add: trim_space_to_lower)

lemma visible_record_key_same_text:
  "same_text h h' \<Longrightarrow> same_text a a' \<Longrightarrow> visible_record_key h a = visible_record_key h' a'"
  by (simp add: visible_record_key_def hostname_norm.norm_same_text answer_norm.norm_same_text)

lemma owned_lineage_key_same_text:
  assumes "same_text pt pt'" "same_text pn pn'" "same_text st st'" "same_text sn sn'"
    "same_text si si'" "same_text h h'"
  shows "owned_lineage_key pt pn st sn si h = owned_lineage_key pt' pn' st' sn' si' h'"
  using assms(1-5) hostname_norm.norm_same_text [OF assms(6)]
  by (simp add: owned_lineage_key_def same_text_def)

section \<open>What the keys determine\<close>

text \<open>A field that cannot be mistaken for two: it does not hold the separator.\<close>

definition plain :: "string \<Rightarrow> bool" where
  "plain s \<longleftrightarrow> CHR ''|'' \<notin> set s"

lemma to_lower_char_pipe: "to_lower_char c = CHR ''|'' \<longleftrightarrow> c = CHR ''|''"
proof (cases "65 \<le> (of_char c :: nat) \<and> (of_char c :: nat) \<le> 90")
  case True
  then have "(of_char (to_lower_char c) :: nat) \<le> 122"
    by (simp add: to_lower_char_def)
  moreover have "(of_char (CHR ''|'') :: nat) = 124" by simp
  ultimately show ?thesis using True by force
next
  case False
  then show ?thesis unfolding to_lower_char_def by argo
qed

lemma plain_to_lower [simp]: "plain (to_lower s) = plain s"
  by (auto simp: plain_def to_lower_def to_lower_char_pipe image_iff eq_commute [of "CHR ''|''"])

lemma plain_trim_space: "plain s \<Longrightarrow> plain (trim_space s)"
  using set_trim_space [of s] by (auto simp: plain_def)

lemma plain_lineage_field [intro]: "plain s \<Longrightarrow> plain (trim_space (to_lower s))"
  by (rule plain_trim_space) simp

lemma plain_normalize_hostname [intro]: "plain s \<Longrightarrow> plain (normalize_hostname s)"
  using plain_lineage_field [of s] set_trim_suffix [of "trim_space (to_lower s)" "''.''"]
  by (auto simp: plain_def normalize_hostname_def)

lemma separator_inject:
  assumes "plain x" "plain x'"
  shows "x @ ''|'' @ y = x' @ ''|'' @ y' \<longleftrightarrow> x = x' \<and> y = y'"
  using assms
proof (induction x arbitrary: x')
  case Nil
  then show ?case by (cases x') (auto simp: plain_def)
next
  case (Cons c x)
  then show ?case by (cases x') (auto simp: plain_def)
qed

lemma visible_record_key_inject:
  assumes "plain h" "plain h'"
  shows "visible_record_key h a = visible_record_key h' a' \<longleftrightarrow>
    normalize_hostname h = normalize_hostname h' \<and> normalize_answer a = normalize_answer a'"
  unfolding visible_record_key_def
  using separator_inject plain_normalize_hostname assms by metis

lemma owned_lineage_key_inject:
  assumes "plain pt" "plain pn" "plain st" "plain sn" "plain si"
    and "plain pt'" "plain pn'" "plain st'" "plain sn'" "plain si'"
  shows "owned_lineage_key pt pn st sn si h = owned_lineage_key pt' pn' st' sn' si' h' \<longleftrightarrow>
    same_text pt pt' \<and> same_text pn pn' \<and> same_text st st' \<and> same_text sn sn' \<and>
    same_text si si' \<and> normalize_hostname h = normalize_hostname h'"
  unfolding owned_lineage_key_def same_text_def
  by (simp only: separator_inject plain_lineage_field assms)

text \<open>
  The hostname is the last field of both lineage keys, so records whose sources are plain can
  share a lineage only when they share the hostname.
\<close>

definition plain_source :: "source_object_ref \<Rightarrow> bool" where
  "plain_source s \<longleftrightarrow> plain (pr_type (so_provider s)) \<and> plain (pr_name (so_provider s)) \<and>
     plain (so_id s) \<and> plain (so_display_name s)"

definition plain_provider :: "provider_ref \<Rightarrow> bool" where
  "plain_provider p \<longleftrightarrow> plain (pr_type p) \<and> plain (pr_name p)"

lemma display_lineage_hostname:
  assumes "plain_provider p" "plain_source s" "plain_source s'"
    and "owned_display_lineage_key p s h = owned_display_lineage_key p s' h'"
  shows "normalize_hostname h = normalize_hostname h'"
  using assms unfolding owned_display_lineage_key_def plain_provider_def plain_source_def
  by (simp only: separator_inject plain_lineage_field)

lemma managed_lineage_hostname:
  assumes "plain_provider (m_output m)" "plain_source (m_source m)" "plain_source (d_source d)"
    and "desired_record_lineage_key (m_output m) d = managed_record_lineage_key m"
  shows "normalize_hostname (d_hostname d) = normalize_hostname (m_hostname m)"
  using assms unfolding desired_record_lineage_key_def managed_record_lineage_key_def
    plain_provider_def plain_source_def
  by (simp add: owned_lineage_key_inject)

end
