(* ===== verification/Plan_Decision.thy ===== *)
theory Plan_Decision
  imports Reconcile_Plan
begin

text \<open>
  The planner's loops against a decision table. \<open>decide\<close> assigns to each desired lineage one
  action, from the indexes alone; \<open>dispose\<close> assigns one to each owned lineage. The loops of
  \<open>build_reconcile_plan\<close> produce, for every iteration order, the actions of the table in the
  order in which the keys were visited.
\<close>

section \<open>The decision table\<close>

datatype desired_action =
    ACreate "managed_record option"
  | AUpdate managed_record visible_record
  | AKeep managed_record visible_record
  | AHold managed_record
  | ASkip

datatype owned_action = ODelete visible_record | ORetain | ODrop | OClaimed

definition host_matches :: "plan_index \<Rightarrow> desired_record \<Rightarrow> visible_record list" where
  "host_matches ix d = group_at (ix_visible_by_hostname ix) (normalize_hostname (d_hostname d))"

definition key_matches :: "plan_index \<Rightarrow> desired_record \<Rightarrow> visible_record list" where
  "key_matches ix d = group_at (ix_visible_by_key ix) (create_sort_key d)"

definition owned_key :: "managed_record \<Rightarrow> string" where
  "owned_key m = visible_record_key (m_hostname m) (m_answer m)"

definition decide_update :: "managed_record \<Rightarrow> visible_record \<Rightarrow> bool \<Rightarrow> desired_action" where
  "decide_update m v by_host =
     (if can_update_owned_visible_record m v by_host then AUpdate m v else AHold m)"

definition decide_owned :: "plan_index \<Rightarrow> desired_record \<Rightarrow> managed_record \<Rightarrow> bool \<Rightarrow> desired_action" where
  "decide_owned ix d m by_host =
     (case group_at (ix_visible_by_key ix) (owned_key m) of
        v # w # vs \<Rightarrow> AHold m
      | old \<Rightarrow>
         if old \<noteq> [] \<and> create_sort_key d \<noteq> owned_key m then decide_update m (hd old) by_host
         else (case (host_matches ix d, key_matches ix d) of
                 ([], []) \<Rightarrow> ACreate (Some m)
               | ([v], ks) \<Rightarrow>
                   if create_sort_key d \<noteq> visible_key v then decide_update m v by_host
                   else (case ks of [] \<Rightarrow> AHold m | k # _ \<Rightarrow> AKeep m k)
               | (_, []) \<Rightarrow> AHold m
               | (_, k # _) \<Rightarrow> AKeep m k))"

definition decide :: "plan_index \<Rightarrow> string \<Rightarrow> desired_record \<Rightarrow> desired_action" where
  "decide ix lineage d =
     (case match_owned ix lineage d of
        None \<Rightarrow> if key_matches ix d = [] \<and> host_matches ix d = [] then ACreate None else ASkip
      | Some (m, by_host) \<Rightarrow> decide_owned ix d m by_host)"

definition claimed :: "plan_index \<Rightarrow> string \<Rightarrow> desired_record \<Rightarrow> string fset" where
  "claimed ix lineage d =
     (case match_owned ix lineage d of
        None \<Rightarrow> {||} | Some (m, _) \<Rightarrow> {|managed_record_lineage_key m|})"

definition dispose :: "plan_index \<Rightarrow> string fset \<Rightarrow> string \<Rightarrow> managed_record \<Rightarrow> owned_action" where
  "dispose ix matched lineage m =
     (if lineage |\<in>| matched \<or> lineage |\<in>| fmdom (ix_desired_by_lineage ix) then OClaimed
      else (case stale_owned_delete_visible_record m (ix_visible_by_key ix) of
              Some v \<Rightarrow> ODelete v
            | None \<Rightarrow>
                if should_retain_managed_record_without_proof m (ix_visible_by_hostname ix)
                then ORetain else ODrop))"

text \<open>What an action adds to each part of the plan.\<close>

fun created_by :: "desired_action \<Rightarrow> desired_record \<Rightarrow> desired_record list" where
  "created_by (ACreate _) d = [d]"
| "created_by _ d = []"

fun updated_by :: "desired_action \<Rightarrow> desired_record \<Rightarrow> update_call list" where
  "updated_by (AUpdate m v) d = [\<lparr>u_from = v, u_to = d\<rparr>]"
| "updated_by _ d = []"

fun kept_by :: "provider_ref \<Rightarrow> desired_action \<Rightarrow> desired_record \<Rightarrow> managed_record list" where
  "kept_by output (AKeep m v) d = [kept_record output d m v]"
| "kept_by output _ d = []"

definition moved :: "string \<Rightarrow> managed_record \<Rightarrow> managed_record option" where
  "moved lineage m = (if managed_record_lineage_key m \<noteq> lineage then Some m else None)"

fun create_drop :: "string \<Rightarrow> desired_action \<Rightarrow> managed_record option" where
  "create_drop lineage (ACreate (Some m)) = moved lineage m"
| "create_drop lineage _ = None"

fun update_drop :: "string \<Rightarrow> desired_action \<Rightarrow> managed_record option" where
  "update_drop lineage (AUpdate m v) = moved lineage m"
| "update_drop lineage _ = None"

fun keep_drop :: "string \<Rightarrow> desired_action \<Rightarrow> managed_record option" where
  "keep_drop lineage (AKeep m v) = moved lineage m"
| "keep_drop lineage _ = None"

definition put_opt :: "'k \<Rightarrow> 'v option \<Rightarrow> ('k, 'v) fmap \<Rightarrow> ('k, 'v) fmap" where
  "put_opt k x m = (case x of None \<Rightarrow> m | Some v \<Rightarrow> fmupd k v m)"

lemma fmlookup_put_opt:
  "fmlookup (put_opt k x m) k' = (if k' = k \<and> x \<noteq> None then x else fmlookup m k')"
  by (auto simp: put_opt_def split: option.splits)

definition perform :: "provider_ref \<Rightarrow> string \<Rightarrow> desired_action \<Rightarrow> desired_record \<Rightarrow> reconcile_plan \<Rightarrow> reconcile_plan" where
  "perform output lineage a d pl =
     pl\<lparr>pl_creates := pl_creates pl @ created_by a d,
        pl_updates := pl_updates pl @ updated_by a d,
        pl_next_managed := pl_next_managed pl @ kept_by output a d,
        pl_create_drops := put_opt lineage (create_drop lineage a) (pl_create_drops pl),
        pl_update_drops := put_opt lineage (update_drop lineage a) (pl_update_drops pl),
        pl_keep_drops := put_opt lineage (keep_drop lineage a) (pl_keep_drops pl)\<rparr>"

section \<open>Refinement of one iteration\<close>

lemma perform_decide_update:
  "perform output l (decide_update m v b) d pl =
     (if can_update_owned_visible_record m v b
      then add_update l (managed_record_lineage_key m) m v d pl else pl)"
  by (simp add: perform_def decide_update_def add_update_def put_opt_def moved_def)

lemma perform_idle:
  "perform output l (AHold m) d pl = pl" "perform output l ASkip d pl = pl"
  by (simp_all add: perform_def put_opt_def)

lemma perform_create:
  "perform output l (ACreate (Some m)) d pl = add_owned_create l (managed_record_lineage_key m) m d pl"
  "perform output l (ACreate None) d pl = pl\<lparr>pl_creates := pl_creates pl @ [d]\<rparr>"
  by (simp_all add: perform_def put_opt_def moved_def add_owned_create_def)

lemma perform_keep:
  "perform output l (AKeep m v) d pl =
     add_keep l (managed_record_lineage_key m) m (kept_record output d m v) pl"
  by (simp add: perform_def put_opt_def moved_def add_keep_def)

lemmas perform_actions = perform_decide_update perform_idle perform_create perform_keep

lemma plan_desired_decide:
  "plan_desired ix l d (pl, ms) =
     (perform (ix_output ix) l (decide ix l d) d pl, ms |\<union>| claimed ix l d)"
proof (cases "match_owned ix l d")
  case None
  then show ?thesis
    by (simp add: plan_desired_def decide_def claimed_def perform_actions key_matches_def
        host_matches_def create_sort_key_def)
next
  case (Some p)
  obtain m b where p: "p = (m, b)" by (cases p)
  let ?old = "group_at (ix_visible_by_key ix) (owned_key m)"
  have step: "plan_desired ix l d (pl, ms) =
     (perform (ix_output ix) l (decide_owned ix d m b) d pl, ms |\<union>| {|managed_record_lineage_key m|})"
    unfolding plan_desired_def case_prod_conv Some p option.case Let_def
      owned_key_def [symmetric] create_sort_key_def [symmetric] key_matches_def [symmetric]
      host_matches_def [symmetric] decide_owned_def
    by (cases ?old; cases "tl ?old"; cases "host_matches ix d"; cases "tl (host_matches ix d)";
        cases "key_matches ix d") (simp_all add: perform_actions, (metis list.sel(1))+)
  then show ?thesis using Some p by (simp add: decide_def claimed_def)
qed

section \<open>Refinement of the loops\<close>

abbreviation desired_keys :: "range_order \<Rightarrow> plan_index \<Rightarrow> string list" where
  "desired_keys ord ix \<equiv> range_keys ord (fmdom (ix_desired_by_lineage ix))"

abbreviation owned_keys :: "range_order \<Rightarrow> plan_index \<Rightarrow> string list" where
  "owned_keys ord ix \<equiv> range_keys ord (fmdom (ix_owned_by_lineage ix))"

definition desired_at :: "plan_index \<Rightarrow> string \<Rightarrow> desired_record" where
  "desired_at ix l = the (fmlookup (ix_desired_by_lineage ix) l)"

definition owned_at :: "plan_index \<Rightarrow> string \<Rightarrow> managed_record" where
  "owned_at ix l = the (fmlookup (ix_owned_by_lineage ix) l)"

definition action_at :: "plan_index \<Rightarrow> string \<Rightarrow> desired_action" where
  "action_at ix l = decide ix l (desired_at ix l)"

definition all_claimed :: "plan_index \<Rightarrow> string set" where
  "all_claimed ix =
     {managed_record_lineage_key m | m b l. l |\<in>| fmdom (ix_desired_by_lineage ix) \<and>
        match_owned ix l (desired_at ix l) = Some (m, b)}"

definition perform_at :: "plan_index \<Rightarrow> string \<Rightarrow> reconcile_plan \<Rightarrow> reconcile_plan" where
  "perform_at ix l = perform (ix_output ix) l (action_at ix l) (desired_at ix l)"

lemma desired_loop_fold:
  "fold (\<lambda>l. plan_desired ix l (the (fmlookup (ix_desired_by_lineage ix) l))) ls (pl, ms) =
     (fold (perform_at ix) ls pl, fold (\<lambda>l acc. acc |\<union>| claimed ix l (desired_at ix l)) ls ms)"
  by (induction ls arbitrary: pl ms)
    (auto simp: plan_desired_decide perform_at_def action_at_def desired_at_def)

lemma fset_claimed_fold:
  "fset (fold (\<lambda>l acc. acc |\<union>| claimed ix l (desired_at ix l)) ls ms) =
     fset ms \<union> {managed_record_lineage_key m | m b l. l \<in> set ls \<and>
        match_owned ix l (desired_at ix l) = Some (m, b)}"
  by (induction ls arbitrary: ms) (auto simp: claimed_def split: option.splits)

lemma perform_at_lists:
  "pl_creates (fold (perform_at ix) ls pl) =
     pl_creates pl @ concat (map (\<lambda>l. created_by (action_at ix l) (desired_at ix l)) ls)"
  "pl_updates (fold (perform_at ix) ls pl) =
     pl_updates pl @ concat (map (\<lambda>l. updated_by (action_at ix l) (desired_at ix l)) ls)"
  "pl_next_managed (fold (perform_at ix) ls pl) =
     pl_next_managed pl @ concat (map (\<lambda>l. kept_by (ix_output ix) (action_at ix l) (desired_at ix l)) ls)"
  "pl_deletes (fold (perform_at ix) ls pl) = pl_deletes pl"
  "pl_drops (fold (perform_at ix) ls pl) = pl_drops pl"
  "pl_ambiguities (fold (perform_at ix) ls pl) = pl_ambiguities pl"
  by (induction ls arbitrary: pl) (auto simp: perform_at_def perform_def)

lemma perform_at_drops:
  "fmlookup (pl_create_drops (fold (perform_at ix) ls pl)) l =
     (if l \<in> set ls \<and> create_drop l (action_at ix l) \<noteq> None then create_drop l (action_at ix l)
      else fmlookup (pl_create_drops pl) l)"
  "fmlookup (pl_update_drops (fold (perform_at ix) ls pl)) l =
     (if l \<in> set ls \<and> update_drop l (action_at ix l) \<noteq> None then update_drop l (action_at ix l)
      else fmlookup (pl_update_drops pl) l)"
  "fmlookup (pl_keep_drops (fold (perform_at ix) ls pl)) l =
     (if l \<in> set ls \<and> keep_drop l (action_at ix l) \<noteq> None then keep_drop l (action_at ix l)
      else fmlookup (pl_keep_drops pl) l)"
  by (induction ls arbitrary: pl) (auto simp: perform_at_def perform_def fmlookup_put_opt)

definition disposal_at :: "plan_index \<Rightarrow> string fset \<Rightarrow> string \<Rightarrow> owned_action" where
  "disposal_at ix ms l = dispose ix ms l (owned_at ix l)"

fun deleted_by :: "owned_action \<Rightarrow> managed_record \<Rightarrow> delete_call list" where
  "deleted_by (ODelete v) m = [\<lparr>del_visible = v, del_managed = m\<rparr>]"
| "deleted_by _ m = []"

fun retained_by :: "owned_action \<Rightarrow> managed_record \<Rightarrow> managed_record list" where
  "retained_by ORetain m = [m]"
| "retained_by _ m = []"

fun dropped_by :: "owned_action \<Rightarrow> managed_record \<Rightarrow> managed_record list" where
  "dropped_by ODrop m = [m]"
| "dropped_by _ m = []"

lemma plan_owned_dispose:
  "plan_owned ix ms l m pl =
     pl\<lparr>pl_deletes := pl_deletes pl @ deleted_by (dispose ix ms l m) m,
        pl_next_managed := pl_next_managed pl @ retained_by (dispose ix ms l m) m,
        pl_drops := pl_drops pl @ dropped_by (dispose ix ms l m) m\<rparr>"
  by (auto simp: plan_owned_def dispose_def split: option.split)

lemma owned_loop_lists:
  fixes ix ls ms pl
  defines "r \<equiv> fold (\<lambda>l. plan_owned ix ms l (the (fmlookup (ix_owned_by_lineage ix) l))) ls pl"
  shows
  "pl_deletes r = pl_deletes pl @ concat (map (\<lambda>l. deleted_by (disposal_at ix ms l) (owned_at ix l)) ls)"
  "pl_next_managed r = pl_next_managed pl @ concat (map (\<lambda>l. retained_by (disposal_at ix ms l) (owned_at ix l)) ls)"
  "pl_drops r = pl_drops pl @ concat (map (\<lambda>l. dropped_by (disposal_at ix ms l) (owned_at ix l)) ls)"
  "pl_creates r = pl_creates pl" "pl_updates r = pl_updates pl"
  "pl_create_drops r = pl_create_drops pl" "pl_update_drops r = pl_update_drops pl"
  "pl_keep_drops r = pl_keep_drops pl" "pl_ambiguities r = pl_ambiguities pl"
  unfolding r_def
  by (induction ls arbitrary: pl) (auto simp: plan_owned_dispose disposal_at_def owned_at_def)

text \<open>The lineages that the first loop has matched, as the second loop sees them.\<close>

definition claimed_lineages :: "plan_index \<Rightarrow> string fset" where
  "claimed_lineages ix =
     fold (\<lambda>l acc. acc |\<union>| claimed ix l (desired_at ix l)) (desired_keys sorted_order ix) {||}"

lemma fset_claimed_lineages: "fset (claimed_lineages ix) = all_claimed ix"
  by (simp add: claimed_lineages_def fset_claimed_fold all_claimed_def)

lemma claimed_fold_order:
  "fold (\<lambda>l acc. acc |\<union>| claimed ix l (desired_at ix l)) (desired_keys ord ix) {||} = claimed_lineages ix"
  unfolding fset_inject [symmetric] fset_claimed_lineages by (simp add: fset_claimed_fold all_claimed_def)

section \<open>Refinement of buildReconcilePlan\<close>

lemma build_index_output [simp]: "ix_output (build_index output desired visible owned) = output"
  by (simp add: build_index_def Let_def)

lemma build_plan_lists:
  fixes ords out desired visible owned
  defines "ix \<equiv> build_index out desired visible owned"
  defines "ls \<equiv> desired_keys (po_desired ords) ix"
  defines "os \<equiv> owned_keys (po_owned ords) ix"
  defines "r \<equiv> build_reconcile_plan ords out desired visible owned"
  shows
  "pl_creates r = sort_key create_sort_key
     (concat (map (\<lambda>l. created_by (action_at ix l) (desired_at ix l)) ls))"
  "pl_updates r = sort_key (\<lambda>u. create_sort_key (u_to u))
     (concat (map (\<lambda>l. updated_by (action_at ix l) (desired_at ix l)) ls))"
  "pl_deletes r = sort_key (\<lambda>x. visible_key (del_visible x))
     (concat (map (\<lambda>l. deleted_by (disposal_at ix (claimed_lineages ix) l) (owned_at ix l)) os))"
  "pl_next_managed r =
     concat (map (\<lambda>l. kept_by out (action_at ix l) (desired_at ix l)) ls) @
     concat (map (\<lambda>l. retained_by (disposal_at ix (claimed_lineages ix) l) (owned_at ix l)) os)"
  "pl_drops r = concat (map (\<lambda>l. dropped_by (disposal_at ix (claimed_lineages ix) l) (owned_at ix l)) os)"
  "pl_ambiguities r = find_ambiguities (po_visible ords) ix"
  unfolding r_def build_reconcile_plan_def Let_def ix_def [symmetric] plan_desired_loop_def
    desired_loop_fold claimed_fold_order case_prod_conv plan_owned_loop_def sort_plan_def
    ls_def os_def
  by (simp_all add: owned_loop_lists perform_at_lists new_plan_def ix_def)

lemma build_plan_drop_maps:
  fixes ords out desired visible owned
  defines "ix \<equiv> build_index out desired visible owned"
  defines "r \<equiv> build_reconcile_plan ords out desired visible owned"
  assumes l: "l |\<in>| fmdom (ix_desired_by_lineage ix)"
  shows
  "fmlookup (pl_create_drops r) l = create_drop l (action_at ix l)"
  "fmlookup (pl_update_drops r) l = update_drop l (action_at ix l)"
  "fmlookup (pl_keep_drops r) l = keep_drop l (action_at ix l)"
  using l
  unfolding r_def build_reconcile_plan_def Let_def ix_def [symmetric] plan_desired_loop_def
    desired_loop_fold claimed_fold_order case_prod_conv plan_owned_loop_def sort_plan_def
  by (simp_all add: owned_loop_lists perform_at_drops new_plan_def)

lemma build_plan_drop_maps_dom:
  fixes ords out desired visible owned
  defines "ix \<equiv> build_index out desired visible owned"
  defines "r \<equiv> build_reconcile_plan ords out desired visible owned"
  assumes l: "l |\<notin>| fmdom (ix_desired_by_lineage ix)"
  shows
  "fmlookup (pl_create_drops r) l = None"
  "fmlookup (pl_update_drops r) l = None"
  "fmlookup (pl_keep_drops r) l = None"
  using l
  unfolding r_def build_reconcile_plan_def Let_def ix_def [symmetric] plan_desired_loop_def
    desired_loop_fold claimed_fold_order case_prod_conv plan_owned_loop_def sort_plan_def
  by (simp_all add: owned_loop_lists perform_at_drops new_plan_def)

end
