(* ===== verification/Plan_Safety.thy ===== *)
theory Plan_Safety
  imports Plan_Decision
begin

text \<open>
  What the plan promises, for every iteration order: it creates only where the hostname is
  free, it updates and deletes only records whose ownership the output can prove, it loses no
  owned record without cause, it does not depend on the iteration order, and it is empty when
  the output already shows what is desired.
\<close>

section \<open>Views of the input\<close>

definition visible_with_key :: "provider_ref \<Rightarrow> visible_record list \<Rightarrow> string \<Rightarrow> visible_record list" where
  "visible_with_key out visible k = filter (\<lambda>v. v_output v = out \<and> visible_key v = k) visible"

definition visible_with_host :: "provider_ref \<Rightarrow> visible_record list \<Rightarrow> string \<Rightarrow> visible_record list" where
  "visible_with_host out visible h =
     filter (\<lambda>v. v_output v = out \<and> normalize_hostname (v_hostname v) = normalize_hostname h) visible"

definition owned_of :: "provider_ref \<Rightarrow> snapshot \<Rightarrow> managed_record list" where
  "owned_of out owned = filter (\<lambda>m. m_output m = out) (sn_managed_records owned)"

lemma index_visible_key [group_simps]:
  "group_at (ix_visible_by_key (build_index out desired visible owned)) k = visible_with_key out visible k"
  by (simp add: build_index_def Let_def group_simps visible_with_key_def conj_commute)

lemma index_visible_host [group_simps]:
  "host_matches (build_index out desired visible owned) d = visible_with_host out visible (d_hostname d)"
  by (simp add: host_matches_def build_index_def Let_def group_simps visible_with_host_def conj_commute)

lemma index_visible_host_at [group_simps]:
  "group_at (ix_visible_by_hostname (build_index out desired visible owned)) (normalize_hostname h) =
     visible_with_host out visible h"
  by (simp add: build_index_def Let_def group_simps visible_with_host_def conj_commute)

lemma index_key_matches [group_simps]:
  "key_matches (build_index out desired visible owned) d = visible_with_key out visible (create_sort_key d)"
  by (simp add: key_matches_def group_simps)

lemma index_desired:
  "ix_desired_by_lineage (build_index out desired visible owned) =
     index_by (desired_record_lineage_key out) desired"
  by (simp add: build_index_def Let_def)

lemma index_owned:
  "ix_owned_by_lineage (build_index out desired visible owned) =
     index_by managed_record_lineage_key (owned_of out owned)"
  by (simp add: build_index_def Let_def owned_of_def)

lemma index_owned_display [group_simps]:
  "group_at (ix_owned_by_display_lineage (build_index out desired visible owned)) k =
     filter (\<lambda>m. owned_display_lineage_key out (m_source m) (m_hostname m) = k) (owned_of out owned)"
  by (simp add: build_index_def Let_def group_simps owned_of_def)

lemma index_owned_host [group_simps]:
  "group_at (ix_owned_by_hostname (build_index out desired visible owned)) k =
     filter (\<lambda>m. normalize_hostname (m_hostname m) = k) (owned_of out owned)"
  by (simp add: build_index_def Let_def group_simps owned_of_def)

text \<open>Only an output that shows a key twice is ambiguous.\<close>

lemma find_ambiguities_iff:
  "find_ambiguities ord (build_index out desired visible owned) = [] \<longleftrightarrow>
     (\<forall>k. length (visible_with_key out visible k) \<le> 1)"
proof -
  have dom: "k |\<in>| fmdom (ix_visible_by_key (build_index out desired visible owned))"
    if "visible_with_key out visible k \<noteq> []" for k
  proof -
    have "group_at (ix_visible_by_key (build_index out desired visible owned)) k \<noteq> []"
      using that by (simp add: group_simps)
    then show ?thesis by (auto simp: group_at_def fmlookup_dom_iff split: option.splits)
  qed
  show ?thesis
  proof
    assume none: "find_ambiguities ord (build_index out desired visible owned) = []"
    show "\<forall>k. length (visible_with_key out visible k) \<le> 1"
    proof (rule allI, rule ccontr)
      fix k assume many: "\<not> length (visible_with_key out visible k) \<le> 1"
      then have "visible_with_key out visible k \<noteq> []" by auto
      from dom [OF this]
      have "k |\<in>| fmdom (ix_visible_by_key (build_index out desired visible owned))" .
      then have "ErrVisibleRecordAmbiguous (provider_key out) k (length (visible_with_key out visible k)) \<in>
          set (find_ambiguities ord (build_index out desired visible owned))"
        using many by (auto simp: find_ambiguities_def Let_def group_simps intro!: bexI [of _ k])
      with none show False by simp
    qed
  next
    assume "\<forall>k. length (visible_with_key out visible k) \<le> 1"
    then show "find_ambiguities ord (build_index out desired visible owned) = []"
      by (auto simp: find_ambiguities_def Let_def group_simps not_less [symmetric])
  qed
qed

lemma desired_at_mem:
  assumes "l |\<in>| fmdom (ix_desired_by_lineage (build_index out desired visible owned))"
  shows "desired_at (build_index out desired visible owned) l \<in> set desired \<and>
    desired_record_lineage_key out (desired_at (build_index out desired visible owned) l) = l"
proof -
  obtain d where "fmlookup (index_by (desired_record_lineage_key out) desired) l = Some d"
    using assms by (auto simp: index_desired fmlookup_dom_iff)
  then show ?thesis by (auto simp: desired_at_def index_desired dest: index_by_SomeD)
qed

lemma owned_at_mem:
  assumes "l |\<in>| fmdom (ix_owned_by_lineage (build_index out desired visible owned))"
  shows "owned_at (build_index out desired visible owned) l \<in> set (owned_of out owned) \<and>
    managed_record_lineage_key (owned_at (build_index out desired visible owned) l) = l"
proof -
  obtain m where "fmlookup (index_by managed_record_lineage_key (owned_of out owned)) l = Some m"
    using assms by (auto simp: index_owned fmlookup_dom_iff)
  then show ?thesis by (auto simp: owned_at_def index_owned dest: index_by_SomeD)
qed

section \<open>Inversion of the decision table\<close>

text \<open>How a desired record and an owned record can belong together.\<close>

definition same_lineage :: "provider_ref \<Rightarrow> desired_record \<Rightarrow> managed_record \<Rightarrow> bool" where
  "same_lineage out d m \<longleftrightarrow>
     managed_record_lineage_key m = desired_record_lineage_key out d \<or>
     owned_display_lineage_key out (m_source m) (m_hostname m) =
       owned_display_lineage_key out (d_source d) (d_hostname d)"

definition same_host :: "desired_record \<Rightarrow> managed_record \<Rightarrow> bool" where
  "same_host d m \<longleftrightarrow> normalize_hostname (m_hostname m) = normalize_hostname (d_hostname d)"

lemma singleton_filterD: "filter P xs = [x] \<Longrightarrow> x \<in> set xs \<and> P x"
proof -
  assume "filter P xs = [x]"
  then have "x \<in> set (filter P xs)" by simp
  then show ?thesis by simp
qed

lemma match_ownedD:
  assumes "match_owned (build_index out desired visible owned) l d = Some (m, b)"
    and l: "l = desired_record_lineage_key out d"
  shows "m \<in> set (owned_of out owned) \<and> (if b then same_host d m else same_lineage out d m)"
proof -
  let ?ix = "build_index out desired visible owned"
  consider (exact) "fmlookup (ix_owned_by_lineage ?ix) l = Some m" "\<not> b"
    | (display) "group_at (ix_owned_by_display_lineage ?ix)
        (owned_display_lineage_key out (d_source d) (d_hostname d)) = [m]" "\<not> b"
    | (host) "group_at (ix_owned_by_hostname ?ix) (normalize_hostname (d_hostname d)) = [m]" "b"
    using assms(1) unfolding match_owned_def by (auto split: option.splits list.splits)
  then show ?thesis
  proof cases
    case exact
    then have "m \<in> set (owned_of out owned)" "managed_record_lineage_key m = l"
      by (auto simp: index_owned dest: index_by_SomeD)
    with exact l show ?thesis by (simp add: same_lineage_def)
  next
    case display
    then show ?thesis
      using singleton_filterD by (fastforce simp: index_owned_display same_lineage_def)
  next
    case host
    then show ?thesis
      using singleton_filterD by (fastforce simp: index_owned_host same_host_def)
  qed
qed

lemma decide_createD:
  assumes "decide ix l d = ACreate mo"
  shows "host_matches ix d = [] \<and> key_matches ix d = []"
proof (cases "match_owned ix l d")
  case None
  with assms show ?thesis by (auto simp: decide_def split: if_splits)
next
  case (Some p)
  obtain m b where p: "p = (m, b)" by (cases p)
  have "decide_owned ix d m b = ACreate mo" using assms Some p by (simp add: decide_def)
  then show ?thesis
    by (auto simp: decide_owned_def decide_update_def split: list.splits if_splits)
qed

lemma decide_updateD:
  assumes "decide ix l d = AUpdate m v"
  shows "\<exists>b. match_owned ix l d = Some (m, b) \<and> can_update_owned_visible_record m v b \<and>
    (group_at (ix_visible_by_key ix) (owned_key m) = [v] \<and> create_sort_key d \<noteq> owned_key m \<or>
     host_matches ix d = [v] \<and> create_sort_key d \<noteq> visible_key v)"
proof (cases "match_owned ix l d")
  case None
  with assms show ?thesis by (auto simp: decide_def split: if_splits)
next
  case (Some p)
  obtain m' b where p: "p = (m', b)" by (cases p)
  have "decide_owned ix d m' b = AUpdate m v" using assms Some p by (simp add: decide_def)
  then have "m' = m \<and> can_update_owned_visible_record m v b \<and>
    (group_at (ix_visible_by_key ix) (owned_key m) = [v] \<and> create_sort_key d \<noteq> owned_key m \<or>
     host_matches ix d = [v] \<and> create_sort_key d \<noteq> visible_key v)"
    by (auto simp: decide_owned_def decide_update_def split: list.splits if_splits)
  with Some p show ?thesis by auto
qed

lemma decide_keepD:
  assumes "decide ix l d = AKeep m v"
  shows "\<exists>b ks. match_owned ix l d = Some (m, b) \<and> key_matches ix d = v # ks"
proof (cases "match_owned ix l d")
  case None
  with assms show ?thesis by (auto simp: decide_def split: if_splits)
next
  case (Some p)
  obtain m' b where p: "p = (m', b)" by (cases p)
  have "decide_owned ix d m' b = AKeep m v" using assms Some p by (simp add: decide_def)
  then have "m' = m \<and> (\<exists>ks. key_matches ix d = v # ks)"
    by (auto simp: decide_owned_def decide_update_def split: list.splits if_splits)
  with Some p show ?thesis by auto
qed

lemma same_record_provenanceD:
  "same_record_provenance p q \<Longrightarrow>
     \<exists>a b. p = Some a \<and> q = Some b \<and> rp_remote_id a = rp_remote_id b \<and> rp_remote_id a \<noteq> ''''"
  by (auto simp: same_record_provenance_def split: option.splits if_splits)

lemma stale_deleteD:
  "stale_owned_delete_visible_record m vk = Some v \<Longrightarrow>
     group_at vk (owned_key m) = [v] \<and> same_record_provenance (m_provenance m) (v_provenance v)"
  by (auto simp: stale_owned_delete_visible_record_def owned_key_def split: list.splits if_splits)

section \<open>Membership in the plan\<close>

lemma created_by_iff: "x \<in> set (created_by a d) \<longleftrightarrow> x = d \<and> (\<exists>mo. a = ACreate mo)"
  by (cases a) auto

lemma updated_by_iff: "x \<in> set (updated_by a d) \<longleftrightarrow> (\<exists>m v. a = AUpdate m v \<and> x = \<lparr>u_from = v, u_to = d\<rparr>)"
  by (cases a) auto

lemma deleted_by_iff: "x \<in> set (deleted_by a m) \<longleftrightarrow> (\<exists>v. a = ODelete v \<and> x = \<lparr>del_visible = v, del_managed = m\<rparr>)"
  by (cases a) auto

lemma dropped_by_iff: "x \<in> set (dropped_by a m) \<longleftrightarrow> a = ODrop \<and> x = m"
  by (cases a) auto

lemma retained_by_iff: "x \<in> set (retained_by a m) \<longleftrightarrow> a = ORetain \<and> x = m"
  by (cases a) auto

lemma kept_by_iff: "x \<in> set (kept_by out a d) \<longleftrightarrow> (\<exists>m v. a = AKeep m v \<and> x = kept_record out d m v)"
  by (cases a) auto

lemma create_memD:
  assumes "d \<in> set (pl_creates (build_reconcile_plan ords out desired visible owned))"
  obtains l mo where "l |\<in>| fmdom (ix_desired_by_lineage (build_index out desired visible owned))"
    "d = desired_at (build_index out desired visible owned) l"
    "decide (build_index out desired visible owned) l d = ACreate mo"
  using assms by (auto simp: build_plan_lists created_by_iff action_at_def)

lemma update_memD:
  assumes "u \<in> set (pl_updates (build_reconcile_plan ords out desired visible owned))"
  obtains l m where "l |\<in>| fmdom (ix_desired_by_lineage (build_index out desired visible owned))"
    "u_to u = desired_at (build_index out desired visible owned) l"
    "decide (build_index out desired visible owned) l (u_to u) = AUpdate m (u_from u)"
  using assms by (auto simp: build_plan_lists updated_by_iff action_at_def)

lemma delete_memD:
  assumes "x \<in> set (pl_deletes (build_reconcile_plan ords out desired visible owned))"
  obtains l where "l |\<in>| fmdom (ix_owned_by_lineage (build_index out desired visible owned))"
    "del_managed x = owned_at (build_index out desired visible owned) l"
    "disposal_at (build_index out desired visible owned)
       (claimed_lineages (build_index out desired visible owned)) l = ODelete (del_visible x)"
  using assms by (auto simp: build_plan_lists deleted_by_iff)

section \<open>Safety\<close>

lemma plan_create_free:
  assumes "d \<in> set (pl_creates (build_reconcile_plan ords out desired visible owned))"
  shows "d \<in> set desired \<and> visible_with_host out visible (d_hostname d) = []"
proof -
  obtain l mo where l: "l |\<in>| fmdom (ix_desired_by_lineage (build_index out desired visible owned))"
    and d: "d = desired_at (build_index out desired visible owned) l"
    and c: "decide (build_index out desired visible owned) l d = ACreate mo"
    using create_memD [OF assms] by blast
  show ?thesis using desired_at_mem [OF l] d decide_createD [OF c] by (simp add: group_simps)
qed

text \<open>
  C1: A record is created only for a desired record whose hostname has no record at all on the
  output: a create never adds a second answer beside a record someone else made.
\<close>

theorem create_only_where_free:
  assumes "d \<in> set (pl_creates (build_reconcile_plan ords out desired visible owned))"
  shows "d \<in> set desired \<and> visible_with_host out visible (d_hostname d) = []"
  using assms by (rule plan_create_free)

lemma plan_update_proof:
  assumes "u \<in> set (pl_updates (build_reconcile_plan ords out desired visible owned))"
  shows "u_to u \<in> set desired \<and> u_from u \<in> set visible \<and> v_output (u_from u) = out \<and>
    create_sort_key (u_to u) \<noteq> visible_key (u_from u) \<and>
    (\<exists>m \<in> set (owned_of out owned).
       if has_record_provenance (v_provenance (u_from u))
       then same_record_provenance (m_provenance m) (v_provenance (u_from u))
       else same_lineage out (u_to u) m)"
proof -
  let ?ix = "build_index out desired visible owned"
  obtain l m where l: "l |\<in>| fmdom (ix_desired_by_lineage ?ix)" and d: "u_to u = desired_at ?ix l"
    and c: "decide ?ix l (u_to u) = AUpdate m (u_from u)"
    using update_memD [OF assms] by blast
  have key: "l = desired_record_lineage_key out (u_to u)" and mem: "u_to u \<in> set desired"
    using desired_at_mem [OF l] d by auto
  obtain b where b: "match_owned ?ix l (u_to u) = Some (m, b)"
    and can: "can_update_owned_visible_record m (u_from u) b"
    and at: "visible_with_key out visible (owned_key m) = [u_from u] \<and> create_sort_key (u_to u) \<noteq> owned_key m \<or>
      visible_with_host out visible (d_hostname (u_to u)) = [u_from u] \<and>
      create_sort_key (u_to u) \<noteq> visible_key (u_from u)"
    using decide_updateD [OF c] by (auto simp: group_simps)
  have vis: "u_from u \<in> set visible \<and> v_output (u_from u) = out \<and>
      create_sort_key (u_to u) \<noteq> visible_key (u_from u)"
    using at singleton_filterD unfolding visible_with_key_def visible_with_host_def by fastforce
  show ?thesis
    using vis mem match_ownedD [OF b key] can
    by (auto simp: can_update_owned_visible_record_def split: if_splits)
qed

text \<open>
  C2: An update rewrites a record that the output shows, towards a desired record that differs
  from it, and only with proof of ownership: where the visible record carries a remote id,
  some owned record of this output has the same id; where it carries none, some owned record
  shares the lineage (by id or by display name) of the desired record.
\<close>

theorem update_only_with_proof:
  assumes "u \<in> set (pl_updates (build_reconcile_plan ords out desired visible owned))"
  shows "u_to u \<in> set desired \<and> u_from u \<in> set visible \<and> v_output (u_from u) = out \<and>
    create_sort_key (u_to u) \<noteq> visible_key (u_from u) \<and>
    (\<exists>m \<in> set (owned_of out owned).
       if has_record_provenance (v_provenance (u_from u))
       then same_record_provenance (m_provenance m) (v_provenance (u_from u))
       else same_lineage out (u_to u) m)"
  using assms by (rule plan_update_proof)

lemma plan_delete_proof:
  assumes "x \<in> set (pl_deletes (build_reconcile_plan ords out desired visible owned))"
  shows "visible_with_key out visible (visible_key (del_visible x)) = [del_visible x] \<and>
    del_managed x \<in> set (owned_of out owned) \<and>
    owned_key (del_managed x) = visible_key (del_visible x) \<and>
    same_record_provenance (m_provenance (del_managed x)) (v_provenance (del_visible x)) \<and>
    (\<forall>d \<in> set desired. desired_record_lineage_key out d \<noteq> managed_record_lineage_key (del_managed x))"
proof -
  let ?ix = "build_index out desired visible owned"
  obtain l where l: "l |\<in>| fmdom (ix_owned_by_lineage ?ix)" and m: "del_managed x = owned_at ?ix l"
    and o: "disposal_at ?ix (claimed_lineages ?ix) l = ODelete (del_visible x)"
    using delete_memD [OF assms] by blast
  have stale: "stale_owned_delete_visible_record (owned_at ?ix l) (ix_visible_by_key ?ix) = Some (del_visible x)"
    and undesired: "l |\<notin>| fmdom (ix_desired_by_lineage ?ix)"
    using o by (auto simp: disposal_at_def dispose_def split: option.splits if_splits)
  have uniq: "visible_with_key out visible (owned_key (del_managed x)) = [del_visible x]"
    and same: "same_record_provenance (m_provenance (del_managed x)) (v_provenance (del_visible x))"
    using stale_deleteD [OF stale] m by (auto simp: group_simps)
  have "owned_key (del_managed x) = visible_key (del_visible x)"
    using uniq singleton_filterD unfolding visible_with_key_def by fastforce
  moreover have "l \<notin> desired_record_lineage_key out ` set desired"
    using undesired unfolding index_desired fmdom_index_by .
  ultimately show ?thesis
    using uniq same owned_at_mem [OF l] m by auto
qed

text \<open>
  C3: A delete removes a record that is the only one the output shows under its key, that an
  owned record claims with the same hostname, answer and remote id, and whose lineage nothing
  desires any more.
\<close>

theorem delete_only_with_unique_proof:
  assumes "x \<in> set (pl_deletes (build_reconcile_plan ords out desired visible owned))"
  shows "visible_with_key out visible (visible_key (del_visible x)) = [del_visible x] \<and>
    del_managed x \<in> set (owned_of out owned) \<and>
    owned_key (del_managed x) = visible_key (del_visible x) \<and>
    same_record_provenance (m_provenance (del_managed x)) (v_provenance (del_visible x)) \<and>
    (\<forall>d \<in> set desired. desired_record_lineage_key out d \<noteq> managed_record_lineage_key (del_managed x))"
  using assms by (rule plan_delete_proof)

section \<open>Independence of the iteration order\<close>

lemma mset_concat_map_cong:
  "mset xs = mset ys \<Longrightarrow> mset (concat (map f xs)) = mset (concat (map f ys))"
proof -
  assume eq: "mset xs = mset ys"
  have "mset (concat (map f zs)) = (\<Sum>\<^sub># (image_mset (\<lambda>z. mset (f z)) (mset zs)))" for zs
    by (induction zs) auto
  then show ?thesis by (simp only: eq)
qed

lemmas keys_order_cong = mset_concat_map_cong [OF mset_range_keys]

lemma sorted_keys_unique:
  "mset xs = mset ys \<Longrightarrow> map f (sort_key f xs) = map f (sort_key f ys)"
proof -
  assume eq: "mset xs = mset ys"
  have "sort (map f xs) = map f (sort_key f xs)" by (rule properties_for_sort) simp_all
  moreover have "sort (map f xs) = map f (sort_key f ys)"
    by (rule properties_for_sort) (simp_all add: eq)
  ultimately show ?thesis by simp
qed

lemma drop_maps_order:
  "pl_create_drops (build_reconcile_plan ords out desired visible owned) =
     pl_create_drops (build_reconcile_plan ords' out desired visible owned)"
  "pl_update_drops (build_reconcile_plan ords out desired visible owned) =
     pl_update_drops (build_reconcile_plan ords' out desired visible owned)"
  "pl_keep_drops (build_reconcile_plan ords out desired visible owned) =
     pl_keep_drops (build_reconcile_plan ords' out desired visible owned)"
  by (rule fmap_ext, metis build_plan_drop_maps build_plan_drop_maps_dom)+

text \<open>
  C11: The iteration order of the maps does not show in the calls of the plan: two runs on the
  same input have the same creates, updates and deletes, and list them in the same order up to
  entries with equal sort keys; they have the same keeps, drops and ambiguities up to order,
  and the same maps of moved lineages.
\<close>

theorem plan_order_independent:
  fixes ords ords' out desired visible owned
  defines "p \<equiv> build_reconcile_plan ords out desired visible owned"
    and "q \<equiv> build_reconcile_plan ords' out desired visible owned"
  shows "map create_sort_key (pl_creates p) = map create_sort_key (pl_creates q) \<and>
    map (\<lambda>u. create_sort_key (u_to u)) (pl_updates p) = map (\<lambda>u. create_sort_key (u_to u)) (pl_updates q) \<and>
    map (\<lambda>x. visible_key (del_visible x)) (pl_deletes p) = map (\<lambda>x. visible_key (del_visible x)) (pl_deletes q) \<and>
    mset (pl_creates p) = mset (pl_creates q) \<and>
    mset (pl_updates p) = mset (pl_updates q) \<and>
    mset (pl_deletes p) = mset (pl_deletes q) \<and>
    mset (pl_next_managed p) = mset (pl_next_managed q) \<and>
    mset (pl_drops p) = mset (pl_drops q) \<and>
    mset (pl_ambiguities p) = mset (pl_ambiguities q) \<and>
    pl_create_drops p = pl_create_drops q \<and> pl_update_drops p = pl_update_drops q \<and>
    pl_keep_drops p = pl_keep_drops q"
proof (intro conjI)
  show "map create_sort_key (pl_creates p) = map create_sort_key (pl_creates q)"
    "map (\<lambda>u. create_sort_key (u_to u)) (pl_updates p) = map (\<lambda>u. create_sort_key (u_to u)) (pl_updates q)"
    "map (\<lambda>x. visible_key (del_visible x)) (pl_deletes p) = map (\<lambda>x. visible_key (del_visible x)) (pl_deletes q)"
    unfolding p_def q_def build_plan_lists by (rule sorted_keys_unique, rule keys_order_cong)+
  show "mset (pl_next_managed p) = mset (pl_next_managed q)"
    unfolding p_def q_def build_plan_lists mset_append
    by (intro arg_cong2 [where f = "(+)"] keys_order_cong)
  show "mset (pl_ambiguities p) = mset (pl_ambiguities q)"
    unfolding p_def q_def build_plan_lists find_ambiguities_def by (rule keys_order_cong)
qed (simp_all only: p_def q_def drop_maps_order build_plan_lists mset_sort keys_order_cong)

section \<open>One treatment per lineage\<close>

lemma distinct_concat_keyed:
  assumes "distinct ls" and "\<And>l. l \<in> set ls \<Longrightarrow> length (f l) \<le> 1 \<and> (\<forall>x \<in> set (f l). key x = l)"
  shows "distinct (map key (concat (map f ls)))"
  using assms
proof (induction ls)
  case Nil
  then show ?case by simp
next
  case (Cons l ls)
  have "length (f l) \<le> 1" using Cons.prems(2) [of l] by simp
  then have "distinct (map key (f l))" by (cases "f l") auto
  moreover have "distinct (map key (concat (map f ls)))" using Cons.prems by (intro Cons.IH) simp_all
  moreover have "set (map key (f l)) \<subseteq> {l}" using Cons.prems(2) [of l] by auto
  moreover have "set (map key (concat (map f ls))) \<subseteq> set ls"
  proof
    fix k assume "k \<in> set (map key (concat (map f ls)))"
    then obtain l' x where "l' \<in> set ls" "x \<in> set (f l')" "k = key x" by auto
    then show "k \<in> set ls" using Cons.prems(2) [of l'] by simp
  qed
  moreover have "l \<notin> set ls" using Cons.prems(1) by simp
  ultimately show ?case unfolding list.map concat.simps map_append distinct_append by blast
qed

lemma mset_concat_append:
  "mset (concat (map f xs)) + mset (concat (map g xs)) = mset (concat (map (\<lambda>x. f x @ g x) xs))"
  by (induction xs) auto

lemma image_mset_concat:
  "image_mset g (mset (concat (map f xs))) = mset (concat (map (\<lambda>x. map g (f x)) xs))"
  by (induction xs) auto

lemma distinct_mset_cong: "mset xs = mset ys \<Longrightarrow> distinct ys \<Longrightarrow> distinct xs"
  by (metis mset_eq_imp_distinct_iff)

lemma plan_lineage_distinct:
  fixes ords out desired visible owned
  defines "r \<equiv> build_reconcile_plan ords out desired visible owned"
  shows "distinct (map (desired_record_lineage_key out) (pl_creates r @ map u_to (pl_updates r))) \<and>
    distinct (map managed_record_lineage_key (map del_managed (pl_deletes r) @ pl_drops r))"
proof
  let ?ix = "build_index out desired visible owned"
  let ?c = "\<lambda>l. created_by (action_at ?ix l) (desired_at ?ix l)"
  let ?u = "\<lambda>l. map u_to (updated_by (action_at ?ix l) (desired_at ?ix l))"
  let ?ls = "desired_keys (po_desired ords) ?ix"
  have "mset (pl_creates r @ map u_to (pl_updates r)) = mset (concat (map (\<lambda>l. ?c l @ ?u l) ?ls))"
    unfolding r_def build_plan_lists mset_append mset_map mset_sort image_mset_concat mset_concat_append ..
  then have "mset (map (desired_record_lineage_key out) (pl_creates r @ map u_to (pl_updates r))) =
      mset (map (desired_record_lineage_key out) (concat (map (\<lambda>l. ?c l @ ?u l) ?ls)))"
    unfolding mset_map [of "desired_record_lineage_key out"] mset_map [of managed_record_lineage_key] by (rule arg_cong)
  moreover have "distinct (map (desired_record_lineage_key out) (concat (map (\<lambda>l. ?c l @ ?u l) ?ls)))"
  proof (rule distinct_concat_keyed, simp)
    fix l assume "l \<in> set ?ls"
    then show "length (?c l @ ?u l) \<le> 1 \<and> (\<forall>x \<in> set (?c l @ ?u l). desired_record_lineage_key out x = l)"
      using desired_at_mem [of l out desired visible owned] by (cases "action_at ?ix l") auto
  qed
  ultimately show "distinct (map (desired_record_lineage_key out) (pl_creates r @ map u_to (pl_updates r)))"
    by (rule distinct_mset_cong)
next
  let ?ix = "build_index out desired visible owned"
  let ?a = "disposal_at ?ix (claimed_lineages ?ix)"
  let ?d = "\<lambda>l. map del_managed (deleted_by (?a l) (owned_at ?ix l))"
  let ?p = "\<lambda>l. dropped_by (?a l) (owned_at ?ix l)"
  let ?os = "owned_keys (po_owned ords) ?ix"
  have "mset (map del_managed (pl_deletes r) @ pl_drops r) = mset (concat (map (\<lambda>l. ?d l @ ?p l) ?os))"
    unfolding r_def build_plan_lists mset_append mset_map mset_sort image_mset_concat mset_concat_append ..
  then have "mset (map managed_record_lineage_key (map del_managed (pl_deletes r) @ pl_drops r)) =
      mset (map managed_record_lineage_key (concat (map (\<lambda>l. ?d l @ ?p l) ?os)))"
    unfolding mset_map [of "desired_record_lineage_key out"] mset_map [of managed_record_lineage_key] by (rule arg_cong)
  moreover have "distinct (map managed_record_lineage_key (concat (map (\<lambda>l. ?d l @ ?p l) ?os)))"
  proof (rule distinct_concat_keyed, simp)
    fix l assume "l \<in> set ?os"
    then show "length (?d l @ ?p l) \<le> 1 \<and> (\<forall>x \<in> set (?d l @ ?p l). managed_record_lineage_key x = l)"
      using owned_at_mem [of l out desired visible owned] by (cases "?a l") auto
  qed
  ultimately show "distinct (map managed_record_lineage_key (map del_managed (pl_deletes r) @ pl_drops r))"
    by (rule distinct_mset_cong)
qed

text \<open>
  C36: A plan creates or updates at most one record per desired lineage, and deletes or
  forgets each owned lineage at most once.
\<close>

theorem one_mutation_per_lineage:
  fixes ords out desired visible owned
  defines "r \<equiv> build_reconcile_plan ords out desired visible owned"
  shows "distinct (map (desired_record_lineage_key out) (pl_creates r @ map u_to (pl_updates r))) \<and>
    distinct (map managed_record_lineage_key (map del_managed (pl_deletes r) @ pl_drops r))"
  unfolding r_def by (rule plan_lineage_distinct)

section \<open>Stale and settled records\<close>

text \<open>
  The records of the two sides, and a provider, whose fields cannot be mistaken for a
  neighbouring field of a key.
\<close>

definition plain_input :: "provider_ref \<Rightarrow> desired_record list \<Rightarrow> snapshot \<Rightarrow> bool" where
  "plain_input out desired owned \<longleftrightarrow> plain_provider out \<and>
     (\<forall>d \<in> set desired. plain_source (d_source d)) \<and>
     (\<forall>m \<in> set (owned_of out owned). plain_source (m_source m))"

lemma owned_of_output: "m \<in> set (owned_of out owned) \<Longrightarrow> m_output m = out"
  by (simp add: owned_of_def)

lemma same_lineage_host:
  assumes "plain_input out desired owned" "d \<in> set desired" "m \<in> set (owned_of out owned)"
    and "same_lineage out d m"
  shows "same_host d m"
  using assms managed_lineage_hostname [of m d] display_lineage_hostname [of out "m_source m" "d_source d"]
  by (auto simp: plain_input_def same_lineage_def same_host_def owned_of_output)

lemma same_managed_lineage_host:
  assumes "plain_input out desired owned" "m \<in> set (owned_of out owned)" "m' \<in> set (owned_of out owned)"
    and "managed_record_lineage_key m = managed_record_lineage_key m'"
  shows "normalize_hostname (m_hostname m) = normalize_hostname (m_hostname m')"
  using assms unfolding managed_record_lineage_key_def plain_input_def plain_source_def plain_provider_def
  by (simp add: owned_lineage_key_inject owned_of_output)

lemma claimed_hostD:
  assumes plain: "plain_input out desired owned" and m: "m \<in> set (owned_of out owned)"
    and "managed_record_lineage_key m \<in> all_claimed (build_index out desired visible owned)"
  shows "\<exists>d \<in> set desired. same_host d m"
proof -
  let ?ix = "build_index out desired visible owned"
  obtain l m' b where l: "l |\<in>| fmdom (ix_desired_by_lineage ?ix)"
    and match: "match_owned ?ix l (desired_at ?ix l) = Some (m', b)"
    and eq: "managed_record_lineage_key m = managed_record_lineage_key m'"
    using assms(3) by (auto simp: all_claimed_def)
  let ?d = "desired_at ?ix l"
  have d: "?d \<in> set desired" "l = desired_record_lineage_key out ?d"
    using desired_at_mem [OF l] by auto
  have m': "m' \<in> set (owned_of out owned)" "if b then same_host ?d m' else same_lineage out ?d m'"
    using match_ownedD [OF match d(2)] by auto
  then have "same_host ?d m'"
    using same_lineage_host [OF plain d(1)] by (auto split: if_splits)
  then have "same_host ?d m"
    using same_managed_lineage_host [OF plain m m'(1) eq] by (simp add: same_host_def)
  with d(1) show ?thesis by blast
qed

text \<open>
  C12: What happens to an owned record whose hostname nothing desires, on every branch: it is
  deleted when exactly one visible record has its hostname and answer and carries its remote
  id, it stays on the books when the output shows some other record at its hostname, and it is
  forgotten otherwise.
\<close>

theorem stale_record_disposition:
  assumes plain: "plain_input out desired owned" and m: "m \<in> set (owned_of out owned)"
    and inj: "inj_on managed_record_lineage_key (set (owned_of out owned))"
    and stale: "\<forall>d \<in> set desired. \<not> same_host d m"
  shows "let r = build_reconcile_plan ords out desired visible owned in
    (if \<exists>v. visible_with_key out visible (owned_key m) = [v] \<and>
          same_record_provenance (m_provenance m) (v_provenance v)
     then m \<in> del_managed ` set (pl_deletes r)
     else if visible_with_host out visible (m_hostname m) \<noteq> [] then m \<in> set (pl_next_managed r)
     else m \<in> set (pl_drops r))"
proof -
  let ?ix = "build_index out desired visible owned"
  let ?l = "managed_record_lineage_key m"
  have lookup: "fmlookup (ix_owned_by_lineage ?ix) ?l = Some m"
    unfolding index_owned by (rule index_by_inj [OF m inj])
  then have dom: "?l |\<in>| fmdom (ix_owned_by_lineage ?ix)" and at: "owned_at ?ix ?l = m"
    by (auto simp: fmlookup_dom_iff owned_at_def)
  have "?l |\<notin>| claimed_lineages ?ix"
    using claimed_hostD [OF plain m] stale by (auto simp: fset_claimed_lineages)
  moreover have "?l |\<notin>| fmdom (ix_desired_by_lineage ?ix)"
  proof
    assume "?l |\<in>| fmdom (ix_desired_by_lineage ?ix)"
    then have "desired_at ?ix ?l \<in> set desired" "same_lineage out (desired_at ?ix ?l) m"
      using desired_at_mem by (auto simp: same_lineage_def)
    then show False using same_lineage_host [OF plain _ m] stale by blast
  qed
  ultimately have disp: "disposal_at ?ix (claimed_lineages ?ix) ?l =
      (case stale_owned_delete_visible_record m (ix_visible_by_key ?ix) of
         Some v \<Rightarrow> ODelete v
       | None \<Rightarrow> if visible_with_host out visible (m_hostname m) \<noteq> [] then ORetain else ODrop)"
    by (simp add: disposal_at_def at dispose_def should_retain_managed_record_without_proof_def group_simps
        split: option.split)
  show ?thesis
  proof (cases "stale_owned_delete_visible_record m (ix_visible_by_key ?ix)")
    case None
    then have "\<not> (\<exists>v. visible_with_key out visible (owned_key m) = [v] \<and>
        same_record_provenance (m_provenance m) (v_provenance v))"
      by (auto simp: stale_owned_delete_visible_record_def group_simps owned_key_def)
    with None disp dom at show ?thesis
      by (auto simp: build_plan_lists retained_by_iff dropped_by_iff Let_def intro!: bexI [of _ ?l])
  next
    case (Some v)
    then have "visible_with_key out visible (owned_key m) = [v] \<and>
        same_record_provenance (m_provenance m) (v_provenance v)"
      using stale_deleteD [OF Some] by (simp add: group_simps)
    moreover have "\<lparr>del_visible = v, del_managed = m\<rparr>
        \<in> set (pl_deletes (build_reconcile_plan ords out desired visible owned))"
      using Some disp dom at by (auto simp: build_plan_lists deleted_by_iff intro!: bexI [of _ ?l])
    ultimately show ?thesis by (force simp: Let_def)
  qed
qed

text \<open>
  The settled state: every desired record is owned under its lineage with its hostname and
  answer, the output shows it exactly once and shows nothing else at its hostname, and there
  is no other owned record.
\<close>

definition settled :: "provider_ref \<Rightarrow> desired_record list \<Rightarrow> visible_record list \<Rightarrow> snapshot \<Rightarrow> bool" where
  "settled out desired visible owned \<longleftrightarrow>
     (\<forall>d \<in> set desired.
        (\<exists>m. fmlookup (index_by managed_record_lineage_key (owned_of out owned))
               (desired_record_lineage_key out d) = Some m \<and> owned_key m = create_sort_key d) \<and>
        (\<exists>v. visible_with_key out visible (create_sort_key d) = [v] \<and>
             visible_with_host out visible (d_hostname d) = [v])) \<and>
     (\<forall>m \<in> set (owned_of out owned). managed_record_lineage_key m \<in> desired_record_lineage_key out ` set desired)"

lemma kept_record_lineage:
  "managed_record_lineage_key (kept_record out d m v) = desired_record_lineage_key out d"
  by (simp add: managed_record_lineage_key_def kept_record_def desired_record_lineage_key_def)

lemma settled_decide:
  assumes settled: "settled out desired visible owned" and d: "d \<in> set desired"
    and l: "l = desired_record_lineage_key out d"
  shows "\<exists>m v. decide (build_index out desired visible owned) l d = AKeep m v \<and>
    managed_record_lineage_key m = l"
proof -
  let ?ix = "build_index out desired visible owned"
  obtain m v where m: "fmlookup (index_by managed_record_lineage_key (owned_of out owned)) l = Some m"
      "owned_key m = create_sort_key d"
    and v: "visible_with_key out visible (create_sort_key d) = [v]"
      "visible_with_host out visible (d_hostname d) = [v]"
    using settled d l by (auto simp: settled_def)
  have "match_owned ?ix l d = Some (m, False)"
    using m by (simp add: match_owned_def index_owned)
  moreover have "visible_key v = create_sort_key d"
    using v(1) singleton_filterD unfolding visible_with_key_def by fastforce
  ultimately have "decide ?ix l d = AKeep m v"
    using m v by (simp add: decide_def decide_owned_def group_simps)
  then show ?thesis using index_by_SomeD [OF m(1)] by blast
qed

lemma concat_map_Nil: "(\<And>x. x \<in> set xs \<Longrightarrow> f x = []) \<Longrightarrow> concat (map f xs) = []"
  by (induction xs) auto

text \<open>
  C24: Reconciliation is idempotent at its goal: when every desired record is owned and shown
  exactly once, and nothing else is owned, the plan calls nothing, drops nothing, moves
  nothing and keeps exactly the desired lineages.
\<close>

theorem settled_plan_is_idle:
  assumes "settled out desired visible owned"
  shows "let r = build_reconcile_plan ords out desired visible owned in
    pl_creates r = [] \<and> pl_updates r = [] \<and> pl_deletes r = [] \<and> pl_drops r = [] \<and>
    managed_record_lineage_key ` set (pl_next_managed r) = desired_record_lineage_key out ` set desired \<and>
    (\<forall>l. fmlookup (pl_keep_drops r) l = None)"
proof -
  let ?ix = "build_index out desired visible owned"
  have act: "\<exists>m v. action_at ?ix l = AKeep m v \<and> managed_record_lineage_key m = l"
    if "l |\<in>| fmdom (ix_desired_by_lineage ?ix)" for l
    using settled_decide [OF assms, of "desired_at ?ix l" l] desired_at_mem [OF that]
    by (simp add: action_at_def)
  then have idle: "created_by (action_at ?ix l) d = []" "updated_by (action_at ?ix l) d = []"
      "keep_drop l (action_at ?ix l) = None"
      "\<exists>m v. kept_by out (action_at ?ix l) d = [kept_record out d m v]"
    if "l |\<in>| fmdom (ix_desired_by_lineage ?ix)" for l d
    using that by (force simp: moved_def)+
  have quiet: "disposal_at ?ix (claimed_lineages ?ix) l = OClaimed"
    if "l |\<in>| fmdom (ix_owned_by_lineage ?ix)" for l
  proof -
    have "l \<in> desired_record_lineage_key out ` set desired"
      using owned_at_mem [OF that] assms unfolding settled_def by metis
    then have "l |\<in>| fmdom (ix_desired_by_lineage ?ix)"
      unfolding index_desired fmdom_index_by .
    then show ?thesis by (simp add: disposal_at_def dispose_def)
  qed
  let ?r = "build_reconcile_plan ords out desired visible owned"
  have lists: "pl_creates ?r = [] \<and> pl_updates ?r = [] \<and> pl_deletes ?r = [] \<and> pl_drops ?r = []"
  proof (intro conjI)
    have none: "concat (map (\<lambda>l. created_by (action_at ?ix l) (desired_at ?ix l)) ls) = []"
        "concat (map (\<lambda>l. updated_by (action_at ?ix l) (desired_at ?ix l)) ls) = []"
      if "set ls = fset (fmdom (ix_desired_by_lineage ?ix))" for ls
      by (rule concat_map_Nil, simp only: that idle)+
    show "pl_creates ?r = []" "pl_updates ?r = []" unfolding build_plan_lists by (simp_all add: none)
    have none: "concat (map (\<lambda>l. deleted_by (disposal_at ?ix (claimed_lineages ?ix) l) (owned_at ?ix l)) ls) = []"
        "concat (map (\<lambda>l. dropped_by (disposal_at ?ix (claimed_lineages ?ix) l) (owned_at ?ix l)) ls) = []"
      if "set ls = fset (fmdom (ix_owned_by_lineage ?ix))" for ls
      by (rule concat_map_Nil, simp only: that quiet deleted_by.simps dropped_by.simps)+
    show "pl_deletes ?r = []" "pl_drops ?r = []" unfolding build_plan_lists by (simp_all add: none)
  qed
  have next_managed: "set (pl_next_managed ?r) =
      (\<Union>l \<in> fset (fmdom (ix_desired_by_lineage ?ix)). set (kept_by out (action_at ?ix l) (desired_at ?ix l)))"
    by (auto simp: build_plan_lists quiet)
  have "managed_record_lineage_key ` set (kept_by out (action_at ?ix l) (desired_at ?ix l)) = {l}"
    if "l |\<in>| fmdom (ix_desired_by_lineage ?ix)" for l
    using idle(4) [OF that, of "desired_at ?ix l"] desired_at_mem [OF that]
    by (auto simp: kept_record_lineage)
  then have "managed_record_lineage_key ` set (pl_next_managed ?r) = fset (fmdom (ix_desired_by_lineage ?ix))"
    unfolding next_managed image_UN by simp
  also have "\<dots> = desired_record_lineage_key out ` set desired"
    by (simp add: index_desired fmdom_index_by)
  finally have keys: "managed_record_lineage_key ` set (pl_next_managed ?r) =
      desired_record_lineage_key out ` set desired" .
  have "fmlookup (pl_keep_drops ?r) l = None" for l
    using build_plan_drop_maps(3) [of l out desired visible owned ords] idle(3) [of l]
      build_plan_drop_maps_dom(3) [of l out desired visible owned ords] by metis
  with lists keys show ?thesis by (simp add: Let_def)
qed

end
