(* ===== verification/Plan_Witness.thy ===== *)
theory Plan_Witness
  imports Plan_Safety
begin

text \<open>
  One concrete planning problem that exercises every branch of the plan, the plan evaluated on
  it, and the safety theorems applied to it.
\<close>

section \<open>The example\<close>

definition ex_output :: provider_ref where
  "ex_output = \<lparr>pr_type = ''adguard'', pr_name = ''home''\<rparr>"

definition ex_source :: "string \<Rightarrow> string \<Rightarrow> source_object_ref" where
  "ex_source i n = \<lparr>so_provider = \<lparr>pr_type = ''docker'', pr_name = ''local''\<rparr>, so_id = i, so_display_name = n\<rparr>"

definition ex_wanted :: "string \<Rightarrow> string \<Rightarrow> string \<Rightarrow> string \<Rightarrow> desired_record" where
  "ex_wanted i n h a = \<lparr>d_hostname = h, d_answer = a, d_source = ex_source i n, d_output = ''home''\<rparr>"

definition ex_shown :: "string \<Rightarrow> string \<Rightarrow> string \<Rightarrow> visible_record" where
  "ex_shown h a r = \<lparr>v_output = ex_output, v_hostname = h, v_answer = a, v_provenance = Some \<lparr>rp_remote_id = r\<rparr>\<rparr>"

definition ex_managed :: "string \<Rightarrow> string \<Rightarrow> string \<Rightarrow> string \<Rightarrow> string \<Rightarrow> managed_record" where
  "ex_managed i n h a r = \<lparr>m_output = ex_output, m_source = ex_source i n, m_hostname = h, m_answer = a,
     m_provenance = Some \<lparr>rp_remote_id = r\<rparr>, m_last_applied_at = zero_time\<rparr>"

text \<open>
  The web server has moved, the API is new, the old service is gone; the record of the NAS was
  made by hand.
\<close>

definition ex_desired :: "desired_record list" where
  "ex_desired = [ex_wanted ''c1'' ''web'' ''web.lan'' ''10.0.0.1'', ex_wanted ''c2'' ''api'' ''api.lan'' ''10.0.0.2'']"

definition ex_visible :: "visible_record list" where
  "ex_visible = [ex_shown ''web.lan'' ''10.0.0.9'' ''r1'', ex_shown ''old.lan'' ''10.0.0.3'' ''r3'',
     ex_shown ''nas.lan'' ''10.0.0.7'' ''r7'']"

definition ex_snapshot :: snapshot where
  "ex_snapshot = \<lparr>sn_version = 1, sn_managed_records =
     [ex_managed ''c1'' ''web'' ''web.lan'' ''10.0.0.9'' ''r1'', ex_managed ''c3'' ''old'' ''old.lan'' ''10.0.0.3'' ''r3'']\<rparr>"

definition ex_orders :: plan_orders where
  "ex_orders = \<lparr>po_visible = sorted_order, po_desired = reverse_order, po_owned = sorted_order\<rparr>"

definition ex_plan :: reconcile_plan where
  "ex_plan = build_reconcile_plan ex_orders ex_output ex_desired ex_visible ex_snapshot"

definition plan_calls :: "reconcile_plan \<Rightarrow> desired_record list \<times> update_call list \<times> delete_call list" where
  "plan_calls r = (pl_creates r, pl_updates r, pl_deletes r)"

lemma ex_plan_calls:
  "plan_calls ex_plan =
     ([ex_wanted ''c2'' ''api'' ''api.lan'' ''10.0.0.2''],
      [\<lparr>u_from = ex_shown ''web.lan'' ''10.0.0.9'' ''r1'', u_to = ex_wanted ''c1'' ''web'' ''web.lan'' ''10.0.0.1''\<rparr>],
      [\<lparr>del_visible = ex_shown ''old.lan'' ''10.0.0.3'' ''r3'',
        del_managed = ex_managed ''c3'' ''old'' ''old.lan'' ''10.0.0.3'' ''r3''\<rparr>])"
  by code_simp

lemmas ex_calls = ex_plan_calls [unfolded plan_calls_def prod.inject, unfolded ex_plan_def]

lemma ex_create_mem:
  "ex_wanted ''c2'' ''api'' ''api.lan'' ''10.0.0.2'' \<in>
     set (pl_creates (build_reconcile_plan ex_orders ex_output ex_desired ex_visible ex_snapshot))"
  using ex_calls by simp

lemma ex_update_mem:
  "\<lparr>u_from = ex_shown ''web.lan'' ''10.0.0.9'' ''r1'', u_to = ex_wanted ''c1'' ''web'' ''web.lan'' ''10.0.0.1''\<rparr> \<in>
     set (pl_updates (build_reconcile_plan ex_orders ex_output ex_desired ex_visible ex_snapshot))"
  using ex_calls by simp

lemma ex_delete_mem:
  "\<lparr>del_visible = ex_shown ''old.lan'' ''10.0.0.3'' ''r3'',
    del_managed = ex_managed ''c3'' ''old'' ''old.lan'' ''10.0.0.3'' ''r3''\<rparr> \<in>
     set (pl_deletes (build_reconcile_plan ex_orders ex_output ex_desired ex_visible ex_snapshot))"
  using ex_calls by simp

section \<open>The theorems on the example\<close>

theorem create_only_where_free_witness:
  "visible_with_host ex_output ex_visible ''api.lan'' = []"
  using create_only_where_free [OF ex_create_mem] by (simp add: ex_wanted_def)

theorem update_only_with_proof_witness:
  "\<exists>m \<in> set (owned_of ex_output ex_snapshot). same_record_provenance (m_provenance m) (Some \<lparr>rp_remote_id = ''r1''\<rparr>)"
  using update_only_with_proof [OF ex_update_mem] by (auto simp: ex_shown_def has_record_provenance_def)

theorem delete_only_with_unique_proof_witness:
  "visible_with_key ex_output ex_visible ''old.lan|10.0.0.3'' = [ex_shown ''old.lan'' ''10.0.0.3'' ''r3'']"
proof -
  have "visible_key (ex_shown ''old.lan'' ''10.0.0.3'' ''r3'') = ''old.lan|10.0.0.3''" by code_simp
  then show ?thesis using delete_only_with_unique_proof [OF ex_delete_mem] by simp
qed

theorem stale_record_disposition_witness:
  "ex_managed ''c3'' ''old'' ''old.lan'' ''10.0.0.3'' ''r3'' \<in> del_managed `
     set (pl_deletes (build_reconcile_plan ex_orders ex_output ex_desired ex_visible ex_snapshot))"
proof -
  let ?m = "ex_managed ''c3'' ''old'' ''old.lan'' ''10.0.0.3'' ''r3''"
  have own: "owned_of ex_output ex_snapshot = [ex_managed ''c1'' ''web'' ''web.lan'' ''10.0.0.9'' ''r1'', ?m]"
    by code_simp
  have plain: "plain_input ex_output ex_desired ex_snapshot" by code_simp
  have mem: "?m \<in> set (owned_of ex_output ex_snapshot)" unfolding own by simp
  have "distinct (map managed_record_lineage_key (owned_of ex_output ex_snapshot))" by code_simp
  then have inj: "inj_on managed_record_lineage_key (set (owned_of ex_output ex_snapshot))"
    unfolding distinct_map by (rule conjunct2)
  have stale: "\<forall>d \<in> set ex_desired. \<not> same_host d ?m" by code_simp
  have "visible_with_key ex_output ex_visible (owned_key ?m) = [ex_shown ''old.lan'' ''10.0.0.3'' ''r3'']"
    by code_simp
  moreover have "same_record_provenance (m_provenance ?m) (v_provenance (ex_shown ''old.lan'' ''10.0.0.3'' ''r3''))"
    by code_simp
  ultimately show ?thesis
    using stale_record_disposition [OF plain mem inj stale, of ex_orders ex_visible] by (simp add: Let_def)
qed

definition ex_settled_visible :: "visible_record list" where
  "ex_settled_visible = [ex_shown ''WEB.lan.'' ''10.0.0.1'' ''r1'', ex_shown ''nas.lan'' ''10.0.0.7'' ''r7'']"

definition ex_settled_snapshot :: snapshot where
  "ex_settled_snapshot =
     \<lparr>sn_version = 1, sn_managed_records = [ex_managed ''c1'' ''web'' ''web.lan'' ''10.0.0.1'' ''r1'']\<rparr>"

theorem settled_plan_is_idle_witness:
  "pl_creates (build_reconcile_plan ex_orders ex_output [ex_wanted ''c1'' ''web'' ''web.lan'' ''10.0.0.1'']
     ex_settled_visible ex_settled_snapshot) = []"
proof -
  let ?d = "ex_wanted ''c1'' ''web'' ''web.lan'' ''10.0.0.1''"
  let ?m = "ex_managed ''c1'' ''web'' ''web.lan'' ''10.0.0.1'' ''r1''"
  have "fmlookup (index_by managed_record_lineage_key (owned_of ex_output ex_settled_snapshot))
      (desired_record_lineage_key ex_output ?d) = Some ?m" "owned_key ?m = create_sort_key ?d"
    "visible_with_key ex_output ex_settled_visible (create_sort_key ?d) = [ex_shown ''WEB.lan.'' ''10.0.0.1'' ''r1'']"
    "visible_with_host ex_output ex_settled_visible (d_hostname ?d) = [ex_shown ''WEB.lan.'' ''10.0.0.1'' ''r1'']"
    "\<forall>m \<in> set (owned_of ex_output ex_settled_snapshot).
       managed_record_lineage_key m \<in> desired_record_lineage_key ex_output ` set [?d]"
    by code_simp+
  then have "settled ex_output [?d] ex_settled_visible ex_settled_snapshot" by (simp add: settled_def)
  from settled_plan_is_idle [OF this] show ?thesis by (simp add: Let_def)
qed

end
