(* ===== verification/Reconcile_Apply.thy ===== *)
theory Reconcile_Apply
  imports Plan_Safety
begin

text \<open>
  The apply phase, \<^verbatim>\<open>internal/runtime/reconcile_apply.go\<close>: it edits the map
  \<^verbatim>\<open>recordsByLineage\<close> and calls the output, and stops at the first call that fails with the
  snapshot of what it has done so far. The three loops that call the output are bodies for
  \<open>each_until_error\<close>; their invariants come from the contract \<open>step_invariant\<close>.
\<close>

section \<open>Operations\<close>

record 'w apply_state =
  ap_world :: 'w
  ap_records :: "(string, managed_record) fmap"
  ap_progressed :: bool

definition snapshot_with_output_records ::
  "managed_record list \<Rightarrow> (string, managed_record) fmap \<Rightarrow> snapshot" where
  "snapshot_with_output_records otherRecords recordsByLineage =
     empty_snapshot\<lparr>sn_managed_records :=
       otherRecords @
       map (\<lambda>lineage. the (fmlookup recordsByLineage lineage))
         (sorted_list_of_fset (fmdom recordsByLineage))\<rparr>"

text \<open>\<^verbatim>\<open>if drop, ok := plan.XDrops[lineage]; ok { delete(recordsByLineage, ...) }\<close>\<close>

definition drop_moved ::
  "(string, managed_record) fmap \<Rightarrow> string \<Rightarrow> (string, managed_record) fmap \<Rightarrow> (string, managed_record) fmap" where
  "drop_moved drops lineage recs =
     (case fmlookup drops lineage of
        None \<Rightarrow> recs | Some gone \<Rightarrow> fmdrop (managed_record_lineage_key gone) recs)"

definition apply_drops :: "reconcile_plan \<Rightarrow> (string, managed_record) fmap \<Rightarrow> (string, managed_record) fmap" where
  "apply_drops plan recs = fold (\<lambda>drop. fmdrop (managed_record_lineage_key drop)) (pl_drops plan) recs"

definition apply_keep ::
  "utc_time \<Rightarrow> reconcile_plan \<Rightarrow> managed_record \<Rightarrow> (string, managed_record) fmap \<Rightarrow> (string, managed_record) fmap" where
  "apply_keep now plan keep recs =
     (let keep' = keep\<lparr>m_last_applied_at := now\<rparr>;
          lineage = managed_record_lineage_key keep'
      in drop_moved (pl_keep_drops plan) lineage (fmupd lineage keep' recs))"

definition managed_of ::
  "provider_ref \<Rightarrow> desired_record \<Rightarrow> record_provenance option \<Rightarrow> utc_time \<Rightarrow> managed_record" where
  "managed_of provider d provenance now =
     \<lparr>m_output = provider, m_source = d_source d, m_hostname = d_hostname d, m_answer = d_answer d,
      m_provenance = provenance, m_last_applied_at = now\<rparr>"

definition apply_create ::
  "'w output_port \<Rightarrow> utc_time \<Rightarrow> reconcile_plan \<Rightarrow> desired_record \<Rightarrow> 'w apply_state \<Rightarrow>
     go_error option \<times> 'w apply_state" where
  "apply_create out now plan create st =
     (case out_create out create (ap_world st) of
        (Inl err, w) \<Rightarrow>
          (Some (ErrWrap (''create '' @ visible_record_key (d_hostname create) (d_answer create) @ '': '') err),
           st\<lparr>ap_world := w\<rparr>)
      | (Inr provenance, w) \<Rightarrow>
          (let lineage = desired_record_lineage_key (out_provider out) create
           in (None,
               st\<lparr>ap_world := w,
                  ap_records := drop_moved (pl_create_drops plan) lineage
                    (fmupd lineage
                      (managed_of (out_provider out) create (copy_record_provenance provenance) now)
                      (ap_records st)),
                  ap_progressed := True\<rparr>)))"

definition apply_update ::
  "'w output_port \<Rightarrow> utc_time \<Rightarrow> reconcile_plan \<Rightarrow> update_call \<Rightarrow> 'w apply_state \<Rightarrow>
     go_error option \<times> 'w apply_state" where
  "apply_update out now plan update st =
     (case out_update out (u_from update) (u_to update) (ap_world st) of
        (Inl err, w) \<Rightarrow>
          (Some (ErrWrap (''update '' @ visible_key (u_from update) @ '': '') err), st\<lparr>ap_world := w\<rparr>)
      | (Inr provenance, w) \<Rightarrow>
          (let lineage = desired_record_lineage_key (out_provider out) (u_to update)
           in (None,
               st\<lparr>ap_world := w,
                  ap_records := drop_moved (pl_update_drops plan) lineage
                    (fmupd lineage
                      (managed_of (out_provider out) (u_to update)
                        (next_managed_provenance provenance (v_provenance (u_from update))) now)
                      (ap_records st)),
                  ap_progressed := True\<rparr>)))"

definition apply_delete ::
  "'w output_port \<Rightarrow> delete_call \<Rightarrow> 'w apply_state \<Rightarrow> go_error option \<times> 'w apply_state" where
  "apply_delete out del st =
     (case out_delete out (del_visible del) (ap_world st) of
        (Inl err, w) \<Rightarrow>
          (Some (ErrWrap (''delete '' @ visible_key (del_visible del) @ '': '') err), st\<lparr>ap_world := w\<rparr>)
      | (Inr _, w) \<Rightarrow>
          (None,
           st\<lparr>ap_world := w,
              ap_records := fmdrop (managed_record_lineage_key (del_managed del)) (ap_records st),
              ap_progressed := True\<rparr>))"

definition apply_calls ::
  "'w output_port \<Rightarrow> utc_time \<Rightarrow> reconcile_plan \<Rightarrow> 'w apply_state \<Rightarrow> go_error option \<times> 'w apply_state" where
  "apply_calls out now plan st0 =
     (case each_until_error (apply_create out now plan) (pl_creates plan) st0 of
        (Some err, st) \<Rightarrow> (Some err, st)
      | (None, st1) \<Rightarrow>
          (case each_until_error (apply_update out now plan) (pl_updates plan) st1 of
             (Some err, st) \<Rightarrow> (Some err, st)
           | (None, st2) \<Rightarrow> each_until_error (apply_delete out) (pl_deletes plan) st2))"

text \<open>
  \<^verbatim>\<open>applyReconcilePlan\<close>: the snapshot, whether a mutation has succeeded, the error if one
  stopped the phase, and the world after the calls.
\<close>

definition apply_reconcile_plan ::
  "'w output_port \<Rightarrow> snapshot \<Rightarrow> reconcile_plan \<Rightarrow> utc_time \<Rightarrow> 'w \<Rightarrow>
     (snapshot \<times> bool \<times> go_error option) \<times> 'w" where
  "apply_reconcile_plan out owned plan now w =
     (let otherRecords = filter (\<lambda>m. m_output m \<noteq> out_provider out) (sn_managed_records owned);
          recs0 = index_by managed_record_lineage_key (owned_of (out_provider out) owned);
          recs1 = apply_drops plan recs0;
          recs2 = fold (apply_keep now plan) (pl_next_managed plan) recs1;
          (err, st) = apply_calls out now plan \<lparr>ap_world = w, ap_records = recs2, ap_progressed = False\<rparr>
      in ((snapshot_with_output_records otherRecords (ap_records st), ap_progressed st, err), ap_world st))"

section \<open>Lineage consistency\<close>

text \<open>Every entry of the map is filed under its own lineage and belongs to the output.\<close>

definition lineage_wf :: "provider_ref \<Rightarrow> (string, managed_record) fmap \<Rightarrow> bool" where
  "lineage_wf provider recs \<longleftrightarrow>
     (\<forall>l m. fmlookup recs l = Some m \<longrightarrow> managed_record_lineage_key m = l \<and> m_output m = provider)"

lemma lineage_wf_upd [wf_intros]:
  "lineage_wf p recs \<Longrightarrow> managed_record_lineage_key m = l \<Longrightarrow> m_output m = p \<Longrightarrow> lineage_wf p (fmupd l m recs)"
  by (auto simp: lineage_wf_def)

lemma lineage_wf_drop [wf_intros]: "lineage_wf p recs \<Longrightarrow> lineage_wf p (fmdrop l recs)"
  by (auto simp: lineage_wf_def)

lemma lineage_wf_drop_moved [wf_intros]: "lineage_wf p recs \<Longrightarrow> lineage_wf p (drop_moved drops l recs)"
  by (auto simp: drop_moved_def intro: wf_intros split: option.split)

lemma lineage_wf_apply_drops [wf_intros]: "lineage_wf p recs \<Longrightarrow> lineage_wf p (apply_drops plan recs)"
  unfolding apply_drops_def by (rule fold_invariant [where Q = "\<lambda>_. True"]) (auto intro: wf_intros)

lemma lineage_stamp [simp]:
  "managed_record_lineage_key (m\<lparr>m_last_applied_at := now\<rparr>) = managed_record_lineage_key m"
  by (simp add: managed_record_lineage_key_def)

lemma lineage_managed_of [simp]:
  "managed_record_lineage_key (managed_of p d prov now) = desired_record_lineage_key p d"
  by (simp add: managed_record_lineage_key_def managed_of_def desired_record_lineage_key_def)

lemma output_managed_of [simp]: "m_output (managed_of p d prov now) = p"
  by (simp add: managed_of_def)

lemma lineage_wf_keep [wf_intros]:
  "lineage_wf p recs \<Longrightarrow> m_output keep = p \<Longrightarrow> lineage_wf p (apply_keep now plan keep recs)"
  by (auto simp: apply_keep_def Let_def intro!: wf_intros)

lemma lineage_wf_keeps:
  "lineage_wf p recs \<Longrightarrow> \<forall>m \<in> set keeps. m_output m = p \<Longrightarrow> lineage_wf p (fold (apply_keep now plan) keeps recs)"
  by (rule fold_invariant [where Q = "\<lambda>m. m_output m = p"]) (auto intro: wf_intros)

lemma lineage_wf_index: "lineage_wf p (index_by managed_record_lineage_key (owned_of p owned))"
  by (auto simp: lineage_wf_def owned_of_def dest: index_by_SomeD)

interpretation create_wf: step_invariant "apply_create out now plan" "\<lambda>_. True"
  "\<lambda>st. lineage_wf (out_provider out) (ap_records st)" for out now plan
  by unfold_locales (auto simp: apply_create_def Let_def intro!: wf_intros split: prod.split sum.split)

interpretation update_wf: step_invariant "apply_update out now plan" "\<lambda>_. True"
  "\<lambda>st. lineage_wf (out_provider out) (ap_records st)" for out now plan
  by unfold_locales (auto simp: apply_update_def Let_def intro!: wf_intros split: prod.split sum.split)

interpretation delete_wf: step_invariant "apply_delete out" "\<lambda>_. True"
  "\<lambda>st. lineage_wf (out_provider out) (ap_records st)" for out
  by unfold_locales (auto simp: apply_delete_def intro!: wf_intros split: prod.split sum.split)

lemma apply_calls_wf:
  assumes "lineage_wf (out_provider out) (ap_records st)"
  shows "lineage_wf (out_provider out) (ap_records (snd (apply_calls out now plan st)))"
proof -
  let ?c = "each_until_error (apply_create out now plan) (pl_creates plan) st"
  let ?u = "each_until_error (apply_update out now plan) (pl_updates plan) (snd ?c)"
  have c: "lineage_wf (out_provider out) (ap_records (snd ?c))"
    by (rule create_wf.loop_keeps) (simp_all add: assms list_all_def)
  have u: "lineage_wf (out_provider out) (ap_records (snd ?u))"
    by (rule update_wf.loop_keeps) (simp_all add: c list_all_def)
  have d: "lineage_wf (out_provider out)
      (ap_records (snd (each_until_error (apply_delete out) (pl_deletes plan) (snd ?u))))"
    by (rule delete_wf.loop_keeps) (simp_all add: u list_all_def)
  show ?thesis using c u d unfolding apply_calls_def by (auto split: prod.split option.split)
qed

end
