(* ===== verification/Runtime_Env.thy ===== *)
theory Runtime_Env
  imports Contracts
begin

text \<open>
  What the runtime reads of its surroundings beside the outputs: the clock, the context it
  was given (cancelled by a signal, or with a deadline), and the log of applied mutations;
  and the wrappers of \<^verbatim>\<open>internal/runtime/app.go\<close> that put a deadline and a log line around
  every operation of a source or an output, with what they promise.
\<close>

section \<open>Durations\<close>

text \<open>\<^verbatim>\<open>time.Duration\<close> is a signed 64-bit count of nanoseconds, whose arithmetic wraps around.\<close>

type_synonym duration = int

definition wrap64 :: "int \<Rightarrow> duration" where
  "wrap64 x = (x + 2 ^ 63) mod 2 ^ 64 - 2 ^ 63"

definition is_int64 :: "int \<Rightarrow> bool" where
  "is_int64 x \<longleftrightarrow> - (2 ^ 63) \<le> x \<and> x < 2 ^ 63"

lemma wrap64_id [simp]: "is_int64 x \<Longrightarrow> wrap64 x = x"
  by (simp add: is_int64_def wrap64_def)

lemma is_int64_wrap64 [simp]: "is_int64 (wrap64 x)"
  by (simp add: is_int64_def wrap64_def)

section \<open>The environment\<close>

record log_entry =
  le_operation :: string
  le_provider :: string
  le_hostname :: string

text \<open>
  The world \<open>'w\<close> outside, the clock, the context in force (its deadline and whether it has been
  cancelled) and the log lines \<^verbatim>\<open>output mutation applied\<close>.
\<close>

record 'w env =
  env_world :: 'w
  env_clock :: time
  env_deadline :: "time option"
  env_canceled :: bool
  env_log :: "log_entry list"

text \<open>\<^verbatim>\<open>ctx.Err()\<close>.\<close>

definition ctx_err :: "'w env \<Rightarrow> go_error option" where
  "ctx_err e =
     (if env_canceled e then Some ErrCanceled
      else (case env_deadline e of
              None \<Rightarrow> None
            | Some t \<Rightarrow> if t \<le> env_clock e then Some ErrDeadlineExceeded else None))"

text \<open>
  \<^verbatim>\<open>context.WithTimeout\<close>: a child context ends at the parent's deadline or after the timeout,
  whichever is first; the deferred \<^verbatim>\<open>cancel()\<close> gives the parent back.
\<close>

definition with_operation_timeout ::
  "duration \<Rightarrow> ('w env, 'a) io \<Rightarrow> ('w env, 'a) io" where
  "with_operation_timeout timeout op e =
     (let limit = env_clock e + timeout;
          child = e\<lparr>env_deadline :=
             Some (case env_deadline e of None \<Rightarrow> limit | Some t \<Rightarrow> min t limit)\<rparr>;
          (r, e') = op child
      in (r, e'\<lparr>env_deadline := env_deadline e\<rparr>))"

section \<open>Wrappers\<close>

definition timeout_output :: "duration \<Rightarrow> 'w env output_port \<Rightarrow> 'w env output_port" where
  "timeout_output timeout base =
     \<lparr>out_provider = out_provider base,
      out_list_visible = with_operation_timeout timeout (out_list_visible base),
      out_create = (\<lambda>d. with_operation_timeout timeout (out_create base d)),
      out_update = (\<lambda>v d. with_operation_timeout timeout (out_update base v d)),
      out_delete = (\<lambda>v. with_operation_timeout timeout (out_delete base v))\<rparr>"

definition timeout_source :: "duration \<Rightarrow> 'w env source_port \<Rightarrow> 'w env source_port" where
  "timeout_source timeout base =
     \<lparr>src_provider = src_provider base,
      src_list_desired = with_operation_timeout timeout (src_list_desired base),
      src_watchable = src_watchable base\<rparr>"

definition log_mutation :: "string \<Rightarrow> provider_ref \<Rightarrow> string \<Rightarrow> 'w env \<Rightarrow> 'w env" where
  "log_mutation operation provider hostname e =
     e\<lparr>env_log := env_log e @
        [\<lparr>le_operation = operation, le_provider = provider_key provider, le_hostname = hostname\<rparr>]\<rparr>"

definition logged :: "('w env \<Rightarrow> 'w env) \<Rightarrow> ('w env, 'a) io \<Rightarrow> ('w env, 'a) io" where
  "logged log op e =
     (case op e of (Inl err, e') \<Rightarrow> (Inl err, e') | (Inr x, e') \<Rightarrow> (Inr x, log e'))"

definition logging_output :: "'w env output_port \<Rightarrow> 'w env output_port" where
  "logging_output base =
     \<lparr>out_provider = out_provider base,
      out_list_visible = out_list_visible base,
      out_create = (\<lambda>d. logged (log_mutation ''create'' (out_provider base) (d_hostname d)) (out_create base d)),
      out_update = (\<lambda>v d. logged (log_mutation ''update'' (out_provider base) (d_hostname d)) (out_update base v d)),
      out_delete = (\<lambda>v. logged (log_mutation ''delete'' (out_provider base) (v_hostname v)) (out_delete base v))\<rparr>"

definition wrap_sources :: "'w env source_port list \<Rightarrow> duration \<Rightarrow> 'w env source_port list" where
  "wrap_sources sources timeout = map (timeout_source timeout) sources"

definition wrap_outputs :: "'w env output_port list \<Rightarrow> duration \<Rightarrow> 'w env output_port list" where
  "wrap_outputs outputs timeout = map (\<lambda>o'. logging_output (timeout_output timeout o')) outputs"

lemma provider_wrapped [simp]:
  "out_provider (logging_output base) = out_provider base"
  "out_provider (timeout_output t base) = out_provider base"
  by (simp_all add: logging_output_def timeout_output_def)

text \<open>
  What the runtime relies on of a provider: its operations do not write the runtime's own log.
\<close>

definition quiet_op :: "('w env, 'a) io \<Rightarrow> bool" where
  "quiet_op op \<longleftrightarrow> (\<forall>e. env_log (snd (op e)) = env_log e)"

definition quiet_output :: "'w env output_port \<Rightarrow> bool" where
  "quiet_output out \<longleftrightarrow> quiet_op (out_list_visible out) \<and> (\<forall>d. quiet_op (out_create out d)) \<and>
     (\<forall>v d. quiet_op (out_update out v d)) \<and> (\<forall>v. quiet_op (out_delete out v))"

lemma quiet_timeout: "quiet_op op \<Longrightarrow> quiet_op (with_operation_timeout t op)"
  unfolding quiet_op_def
proof
  fix e
  assume quiet: "\<forall>e. env_log (snd (op e)) = env_log e"
  obtain r e' where "op (e\<lparr>env_deadline :=
      Some (case env_deadline e of None \<Rightarrow> env_clock e + t | Some t' \<Rightarrow> min t' (env_clock e + t))\<rparr>) = (r, e')"
    by fastforce
  with quiet [rule_format, of "e\<lparr>env_deadline :=
      Some (case env_deadline e of None \<Rightarrow> env_clock e + t | Some t' \<Rightarrow> min t' (env_clock e + t))\<rparr>"]
  show "env_log (snd (with_operation_timeout t op e)) = env_log e"
    by (simp add: with_operation_timeout_def Let_def)
qed

lemma quiet_timeout_output: "quiet_output base \<Longrightarrow> quiet_output (timeout_output t base)"
  by (simp add: quiet_output_def timeout_output_def quiet_timeout)

section \<open>What a timeout promises\<close>

text \<open>
  \<open>op\<close> does what \<open>raw\<close> does under a deadline that the timeout or the caller has set, whichever
  is earlier, and hands the caller's deadline back; only its log lines may be more.
\<close>

definition ends_within :: "duration \<Rightarrow> ('w env, 'a) io \<Rightarrow> ('w env, 'a) io \<Rightarrow> bool" where
  "ends_within t raw op \<longleftrightarrow>
     (\<forall>e. \<exists>limit. (limit = env_clock e + t \<or> env_deadline e = Some limit) \<and> limit \<le> env_clock e + t \<and>
        (\<forall>d. env_deadline e = Some d \<longrightarrow> limit \<le> d) \<and>
        fst (op e) = fst (raw (e\<lparr>env_deadline := Some limit\<rparr>)) \<and>
        snd (op e) = (snd (raw (e\<lparr>env_deadline := Some limit\<rparr>)))\<lparr>env_deadline := env_deadline e, env_log := env_log (snd (op e))\<rparr>)"

definition limited_source :: "duration \<Rightarrow> 'w env source_port \<Rightarrow> 'w env source_port \<Rightarrow> bool" where
  "limited_source t raw src \<longleftrightarrow> src_provider src = src_provider raw \<and> src_watchable src = src_watchable raw \<and>
     ends_within t (src_list_desired raw) (src_list_desired src)"

definition limited_output :: "duration \<Rightarrow> 'w env output_port \<Rightarrow> 'w env output_port \<Rightarrow> bool" where
  "limited_output t raw out \<longleftrightarrow> out_provider out = out_provider raw \<and>
     ends_within t (out_list_visible raw) (out_list_visible out) \<and>
     (\<forall>d. ends_within t (out_create raw d) (out_create out d)) \<and>
     (\<forall>v d. ends_within t (out_update raw v d) (out_update out v d)) \<and>
     (\<forall>v. ends_within t (out_delete raw v) (out_delete out v))"

lemma timeout_ends_within: "ends_within t op (with_operation_timeout t op)"
  unfolding ends_within_def
proof
  fix e :: "'a env"
  define limit where "limit = (case env_deadline e of None \<Rightarrow> env_clock e + t | Some d \<Rightarrow> min d (env_clock e + t))"
  have "with_operation_timeout t op e = (fst (op (e\<lparr>env_deadline := Some limit\<rparr>)),
      (snd (op (e\<lparr>env_deadline := Some limit\<rparr>)))\<lparr>env_deadline := env_deadline e\<rparr>)"
    by (simp add: with_operation_timeout_def limit_def Let_def split: prod.split)
  moreover have "(limit = env_clock e + t \<or> env_deadline e = Some limit) \<and> limit \<le> env_clock e + t \<and>
      (\<forall>d. env_deadline e = Some d \<longrightarrow> limit \<le> d)"
    by (auto simp: limit_def min_def split: option.split)
  ultimately show "\<exists>limit. (limit = env_clock e + t \<or> env_deadline e = Some limit) \<and> limit \<le> env_clock e + t \<and>
      (\<forall>d. env_deadline e = Some d \<longrightarrow> limit \<le> d) \<and>
      fst (with_operation_timeout t op e) = fst (op (e\<lparr>env_deadline := Some limit\<rparr>)) \<and>
      snd (with_operation_timeout t op e) = (snd (op (e\<lparr>env_deadline := Some limit\<rparr>)))
        \<lparr>env_deadline := env_deadline e, env_log := env_log (snd (with_operation_timeout t op e))\<rparr>"
    by (intro exI [of _ limit]) simp
qed

lemma logged_ends_within:
  assumes "ends_within t raw op" "\<And>e. \<exists>l. log e = e\<lparr>env_log := l\<rparr>"
  shows "ends_within t raw (logged log op)"
  unfolding ends_within_def
proof
  fix e :: "'a env"
  obtain r e1 where op: "op e = (r, e1)" by fastforce
  obtain l where "log e1 = e1\<lparr>env_log := l\<rparr>" using assms(2) by blast
  then obtain m where logged: "fst (logged log op e) = fst (op e)" "snd (logged log op e) = (snd (op e))\<lparr>env_log := m\<rparr>"
    using op by (cases r) (auto simp: logged_def intro: that [of "env_log e1"] that [of l])
  obtain limit where limit: "(limit = env_clock e + t \<or> env_deadline e = Some limit) \<and> limit \<le> env_clock e + t \<and>
      (\<forall>d. env_deadline e = Some d \<longrightarrow> limit \<le> d)" "fst (op e) = fst (raw (e\<lparr>env_deadline := Some limit\<rparr>))"
    "snd (op e) = (snd (raw (e\<lparr>env_deadline := Some limit\<rparr>)))\<lparr>env_deadline := env_deadline e, env_log := env_log (snd (op e))\<rparr>"
    using assms(1) unfolding ends_within_def by blast
  have "snd (logged log op e) = (snd (raw (e\<lparr>env_deadline := Some limit\<rparr>)))\<lparr>env_deadline := env_deadline e, env_log := m\<rparr>"
    unfolding logged(2) by (subst limit(3)) simp
  then show "\<exists>limit. (limit = env_clock e + t \<or> env_deadline e = Some limit) \<and> limit \<le> env_clock e + t \<and>
      (\<forall>d. env_deadline e = Some d \<longrightarrow> limit \<le> d) \<and>
      fst (logged log op e) = fst (raw (e\<lparr>env_deadline := Some limit\<rparr>)) \<and>
      snd (logged log op e) = (snd (raw (e\<lparr>env_deadline := Some limit\<rparr>)))
        \<lparr>env_deadline := env_deadline e, env_log := env_log (snd (logged log op e))\<rparr>"
    using limit(1,2) logged(1) by (intro exI [of _ limit]) simp
qed

lemma log_mutation_only_logs: "\<exists>l. log_mutation operation provider hostname e = e\<lparr>env_log := l\<rparr>"
  by (auto simp: log_mutation_def)

lemma wrapped_limited:
  "list_all2 (limited_source t) sources (wrap_sources sources t)"
  "list_all2 (limited_output t) outputs (wrap_outputs outputs t)"
  by (auto simp: wrap_sources_def wrap_outputs_def limited_source_def limited_output_def timeout_source_def
      timeout_output_def logging_output_def list.rel_map
      intro!: list.rel_refl timeout_ends_within logged_ends_within log_mutation_only_logs)

end
