(* ===== verification/Apply_Correct.thy ===== *)
theory Apply_Correct
  imports Reconcile_Apply Runtime_Env
begin

text \<open>
  What the apply phase does to the ownership snapshot: other outputs are left alone, the
  records of this output come out sorted under their lineages and are read back as the same
  map, each mutation that succeeds is on record, and a record whose deletion fails stays
  owned.
\<close>

section \<open>The snapshot and the map\<close>

lemma sorted_list_of_fset_set [simp]: "set (sorted_list_of_fset A) = fset A"
  by simp

lemma snapshot_records:
  "sn_managed_records (snapshot_with_output_records other recs) =
     other @ map (\<lambda>l. the (fmlookup recs l)) (sorted_list_of_fset (fmdom recs))"
  by (simp add: snapshot_with_output_records_def empty_snapshot_def)

lemma lookup_in_dom: "l \<in> fset (fmdom recs) \<Longrightarrow> fmlookup recs l = Some (the (fmlookup recs l))"
  by (metis fmdom_notI option.collapse)

lemma lineage_wf_the:
  "lineage_wf p recs \<Longrightarrow> l \<in> fset (fmdom recs) \<Longrightarrow>
     managed_record_lineage_key (the (fmlookup recs l)) = l \<and> m_output (the (fmlookup recs l)) = p"
  unfolding lineage_wf_def using lookup_in_dom by metis

lemma snapshot_own:
  assumes "lineage_wf p recs" "\<forall>m \<in> set other. m_output m \<noteq> p"
  shows "owned_of p (snapshot_with_output_records other recs) =
    map (\<lambda>l. the (fmlookup recs l)) (sorted_list_of_fset (fmdom recs))"
proof -
  have "filter (\<lambda>m. m_output m = p) other = []" using assms(2) by (simp add: filter_empty_conv)
  moreover have "filter (\<lambda>m. m_output m = p) (map (\<lambda>l. the (fmlookup recs l)) (sorted_list_of_fset (fmdom recs))) =
      map (\<lambda>l. the (fmlookup recs l)) (sorted_list_of_fset (fmdom recs))"
    using lineage_wf_the [OF assms(1)] by (simp add: filter_id_conv)
  ultimately show ?thesis unfolding owned_of_def snapshot_records filter_append by simp
qed

lemma snapshot_lineages:
  assumes "lineage_wf p recs"
  shows "map managed_record_lineage_key (map (\<lambda>l. the (fmlookup recs l)) (sorted_list_of_fset (fmdom recs))) =
    sorted_list_of_fset (fmdom recs)"
  unfolding map_map by (rule map_idI) (use lineage_wf_the [OF assms] in simp)

lemma snapshot_index:
  assumes wf: "lineage_wf p recs" and other: "\<forall>m \<in> set other. m_output m \<noteq> p"
  shows "index_by managed_record_lineage_key (owned_of p (snapshot_with_output_records other recs)) = recs"
proof (rule fmap_ext)
  fix l
  let ?vs = "map (\<lambda>l. the (fmlookup recs l)) (sorted_list_of_fset (fmdom recs))"
  have keys: "map managed_record_lineage_key ?vs = sorted_list_of_fset (fmdom recs)"
    by (rule snapshot_lineages [OF wf])
  have "distinct (map managed_record_lineage_key ?vs)"
    unfolding keys by (simp add: sorted_list_of_fset.rep_eq)
  then have inj: "inj_on managed_record_lineage_key (set ?vs)" by (simp only: distinct_map)
  have "fmlookup (index_by managed_record_lineage_key ?vs) l = fmlookup recs l"
  proof (cases "fmlookup recs l")
    case None
    have "managed_record_lineage_key ` set ?vs = fset (fmdom recs)"
      using arg_cong [OF keys, where f = set] by (simp only: list.set_map sorted_list_of_fset_set)
    then have "l \<notin> managed_record_lineage_key ` set ?vs"
      by (simp only:) (rule fmdom_notI [OF None])
    then have "l \<notin> fset (fmdom (index_by managed_record_lineage_key ?vs))" by (simp only: fmdom_index_by not_False_eq_True)
    with None show ?thesis by (simp add: fmdom_notD)
  next
    case (Some m)
    then have "l \<in> fset (fmdom recs)" by (simp add: fmlookup_dom_iff)
    then have "m \<in> set ?vs" using Some by force
    moreover have "managed_record_lineage_key m = l" using wf Some by (simp add: lineage_wf_def)
    ultimately show ?thesis using index_by_inj [OF _ inj] Some by metis
  qed
  then show "fmlookup (index_by managed_record_lineage_key (owned_of p (snapshot_with_output_records other recs))) l =
      fmlookup recs l"
    by (simp only: snapshot_own [OF wf other])
qed

text \<open>The records that the planner passes on belong to its output.\<close>

lemma plan_next_output:
  assumes "m \<in> set (pl_next_managed (build_reconcile_plan ords out desired visible owned))"
  shows "m_output m = out"
proof -
  let ?ix = "build_index out desired visible owned"
  from assms consider
      (kept) l where "m \<in> set (kept_by out (action_at ?ix l) (desired_at ?ix l))"
    | (retained) l where "l |\<in>| fmdom (ix_owned_by_lineage ?ix)" "m = owned_at ?ix l"
    by (auto simp: build_plan_lists retained_by_iff)
  then show ?thesis
  proof cases
    case kept
    then show ?thesis by (auto simp: kept_by_iff kept_record_def)
  next
    case retained
    then show ?thesis using owned_at_mem owned_of_output by blast
  qed
qed

text \<open>
  The map that the phase ends with, whatever the outcome: consistent, and the snapshot is its
  sorted listing after the records of the other outputs.
\<close>

lemma apply_result:
  assumes "\<forall>m \<in> set (pl_next_managed plan). m_output m = out_provider out"
    and "apply_reconcile_plan out owned plan now w = ((next, progressed, err), w')"
  obtains recs where "lineage_wf (out_provider out) recs"
    and "next = snapshot_with_output_records
      (filter (\<lambda>m. m_output m \<noteq> out_provider out) (sn_managed_records owned)) recs"
    and "apply_calls out now plan
        \<lparr>ap_world = w,
         ap_records = fold (apply_keep now plan) (pl_next_managed plan)
           (apply_drops plan (index_by managed_record_lineage_key (owned_of (out_provider out) owned))),
         ap_progressed = False\<rparr> =
      (err, \<lparr>ap_world = w', ap_records = recs, ap_progressed = progressed\<rparr>)"
proof -
  let ?recs = "fold (apply_keep now plan) (pl_next_managed plan)
    (apply_drops plan (index_by managed_record_lineage_key (owned_of (out_provider out) owned)))"
  let ?st0 = "\<lparr>ap_world = w, ap_records = ?recs, ap_progressed = False\<rparr>"
  obtain e st where r: "apply_calls out now plan ?st0 = (e, st)" by fastforce
  have "lineage_wf (out_provider out) ?recs"
    by (intro lineage_wf_keeps lineage_wf_apply_drops lineage_wf_index assms(1))
  then have "lineage_wf (out_provider out) (ap_records st)"
    using apply_calls_wf [of out ?st0 now plan] r by simp
  then show thesis
    using that [of "ap_records st"] assms(2) r by (auto simp: apply_reconcile_plan_def Let_def)
qed

text \<open>
  C35: Whatever the outcome of the calls, the snapshot that the apply phase returns has the
  current version, leaves the records of other outputs as they were, and lists the records of
  this output sorted by lineage with no lineage twice.
\<close>

theorem apply_snapshot_wf:
  assumes plan: "plan = build_reconcile_plan ords (out_provider out) desired visible owned"
    and run: "apply_reconcile_plan out owned plan now w = ((next, progressed, err), w')"
  shows "sn_version next = snapshot_version \<and>
    filter (\<lambda>m. m_output m \<noteq> out_provider out) (sn_managed_records next) =
      filter (\<lambda>m. m_output m \<noteq> out_provider out) (sn_managed_records owned) \<and>
    sorted (map managed_record_lineage_key (owned_of (out_provider out) next)) \<and>
    distinct (map managed_record_lineage_key (owned_of (out_provider out) next))"
proof -
  let ?p = "out_provider out"
  let ?other = "filter (\<lambda>m. m_output m \<noteq> ?p) (sn_managed_records owned)"
  obtain recs where wf: "lineage_wf ?p recs" and nxt: "next = snapshot_with_output_records ?other recs"
    using apply_result [OF _ run] plan plan_next_output by metis
  have own: "owned_of ?p next = map (\<lambda>l. the (fmlookup recs l)) (sorted_list_of_fset (fmdom recs))"
    unfolding nxt by (rule snapshot_own [OF wf]) simp
  have "filter (\<lambda>m. m_output m \<noteq> ?p) (map (\<lambda>l. the (fmlookup recs l)) (sorted_list_of_fset (fmdom recs))) = []"
    using lineage_wf_the [OF wf] by (auto simp: filter_empty_conv)
  then have "filter (\<lambda>m. m_output m \<noteq> ?p) (sn_managed_records next) = ?other"
    unfolding nxt snapshot_records by simp
  moreover have "sn_version next = snapshot_version"
    unfolding nxt by (simp add: snapshot_with_output_records_def empty_snapshot_def)
  ultimately show ?thesis
    unfolding own snapshot_lineages [OF wf] by (simp add: sorted_list_of_fset.rep_eq)
qed

section \<open>The calls that were made\<close>

text \<open>The log lines that the whole plan would write, in the order of its calls.\<close>

definition entry :: "string \<Rightarrow> provider_ref \<Rightarrow> string \<Rightarrow> log_entry" where
  "entry operation provider hostname =
     \<lparr>le_operation = operation, le_provider = provider_key provider, le_hostname = hostname\<rparr>"

definition planned_entries :: "provider_ref \<Rightarrow> reconcile_plan \<Rightarrow> log_entry list" where
  "planned_entries p plan =
     map (\<lambda>d. entry ''create'' p (d_hostname d)) (pl_creates plan) @
     map (\<lambda>u. entry ''update'' p (d_hostname (u_to u))) (pl_updates plan) @
     map (\<lambda>x. entry ''delete'' p (v_hostname (del_visible x))) (pl_deletes plan)"

text \<open>A call that succeeds logs its entry and sets the flag; one that fails does neither.\<close>

definition logs_entry ::
  "('a \<Rightarrow> 'w env apply_state \<Rightarrow> go_error option \<times> 'w env apply_state) \<Rightarrow> ('a \<Rightarrow> log_entry) \<Rightarrow> bool" where
  "logs_entry body entry_of \<longleftrightarrow>
     (\<forall>x st. case body x st of
        (None, st') \<Rightarrow> env_log (ap_world st') = env_log (ap_world st) @ [entry_of x] \<and> ap_progressed st'
      | (Some e, st') \<Rightarrow> env_log (ap_world st') = env_log (ap_world st) \<and> ap_progressed st' = ap_progressed st)"

lemma logged_loop:
  assumes "logs_entry body entry_of" and "each_until_error body xs st = (err, st')"
  shows "\<exists>n \<le> length xs. env_log (ap_world st') = env_log (ap_world st) @ take n (map entry_of xs) \<and>
    (err = None \<longleftrightarrow> n = length xs) \<and> ap_progressed st' = (ap_progressed st \<or> 0 < n)"
  using assms(2)
proof (induction xs arbitrary: st)
  case Nil
  then show ?case by simp
next
  case (Cons x xs)
  obtain e t where x: "body x st = (e, t)" by fastforce
  show ?case
  proof (cases e)
    case None
    with x assms(1) have t: "env_log (ap_world t) = env_log (ap_world st) @ [entry_of x]" "ap_progressed t"
      unfolding logs_entry_def by (metis (mono_tags, lifting) case_prod_conv option.case(1))+
    from x None Cons.prems have "each_until_error body xs t = (err, st')" by simp
    then obtain n where "n \<le> length xs" "env_log (ap_world st') = env_log (ap_world t) @ take n (map entry_of xs)"
        "err = None \<longleftrightarrow> n = length xs" "ap_progressed st' = (ap_progressed t \<or> 0 < n)"
      using Cons.IH by blast
    with t show ?thesis by (intro exI [of _ "Suc n"]) simp
  next
    case (Some e')
    with x assms(1) have "env_log (ap_world t) = env_log (ap_world st)" "ap_progressed t = ap_progressed st"
      unfolding logs_entry_def by (metis (mono_tags, lifting) case_prod_conv option.case(2))+
    with x Some Cons.prems show ?thesis by (intro exI [of _ 0]) auto
  qed
qed

lemma logs_create:
  "quiet_output base \<Longrightarrow>
     logs_entry (apply_create (logging_output base) now plan) (\<lambda>d. entry ''create'' (out_provider base) (d_hostname d))"
  unfolding logs_entry_def quiet_output_def quiet_op_def
  by (auto simp: apply_create_def logging_output_def logged_def log_mutation_def entry_def Let_def
      split: prod.split sum.split dest: arg_cong [where f = snd])
    (metis snd_conv)+

lemma logs_update:
  "quiet_output base \<Longrightarrow>
     logs_entry (apply_update (logging_output base) now plan)
       (\<lambda>u. entry ''update'' (out_provider base) (d_hostname (u_to u)))"
  unfolding logs_entry_def quiet_output_def quiet_op_def
  by (auto simp: apply_update_def logging_output_def logged_def log_mutation_def entry_def Let_def
      split: prod.split sum.split)
    (metis snd_conv)+

lemma logs_delete:
  "quiet_output base \<Longrightarrow>
     logs_entry (apply_delete (logging_output base))
       (\<lambda>x. entry ''delete'' (out_provider base) (v_hostname (del_visible x)))"
  unfolding logs_entry_def quiet_output_def quiet_op_def
  by (auto simp: apply_delete_def logging_output_def logged_def log_mutation_def entry_def
      split: prod.split sum.split)
    (metis snd_conv)+

lemma take_append_full: "n = length xs \<Longrightarrow> xs @ take k ys = take (n + k) (xs @ ys)"
  by simp

lemma apply_calls_prefix:
  assumes quiet: "quiet_output base"
    and run: "apply_calls (logging_output base) now plan st = (err, st')"
  shows "\<exists>n \<le> length (planned_entries (out_provider base) plan).
    env_log (ap_world st') = env_log (ap_world st) @ take n (planned_entries (out_provider base) plan) \<and>
    (err = None \<longleftrightarrow> n = length (planned_entries (out_provider base) plan)) \<and>
    ap_progressed st' = (ap_progressed st \<or> 0 < n)"
proof -
  let ?out = "logging_output base"
  obtain e1 s1 where r1: "each_until_error (apply_create ?out now plan) (pl_creates plan) st = (e1, s1)" by fastforce
  obtain n1 where n1: "n1 \<le> length (pl_creates plan)" "(e1 = None) = (n1 = length (pl_creates plan))"
    "env_log (ap_world s1) = env_log (ap_world st) @
       take n1 (map (\<lambda>d. entry ''create'' (out_provider base) (d_hostname d)) (pl_creates plan))"
    "ap_progressed s1 = (ap_progressed st \<or> 0 < n1)"
    using logged_loop [OF logs_create [OF quiet] r1] by auto
  show ?thesis
  proof (cases e1)
    case (Some e)
    with r1 run have "err = Some e" "st' = s1" by (auto simp: apply_calls_def)
    with n1 Some show ?thesis by (intro exI [of _ n1]) (auto simp: planned_entries_def)
  next
    case None
    obtain e2 s2 where r2: "each_until_error (apply_update ?out now plan) (pl_updates plan) s1 = (e2, s2)" by fastforce
    obtain n2 where n2: "n2 \<le> length (pl_updates plan)" "(e2 = None) = (n2 = length (pl_updates plan))"
      "env_log (ap_world s2) = env_log (ap_world s1) @
         take n2 (map (\<lambda>u. entry ''update'' (out_provider base) (d_hostname (u_to u))) (pl_updates plan))"
      "ap_progressed s2 = (ap_progressed s1 \<or> 0 < n2)"
      using logged_loop [OF logs_update [OF quiet] r2] by auto
    show ?thesis
    proof (cases e2)
      case (Some e)
      with r1 r2 None run have "err = Some e" "st' = s2" by (auto simp: apply_calls_def)
      with n1 n2 None Some show ?thesis
        by (intro exI [of _ "n1 + n2"]) (auto simp: planned_entries_def)
    next
      case e2: None
      obtain n3 where "n3 \<le> length (pl_deletes plan)" "(err = None) = (n3 = length (pl_deletes plan))"
        "env_log (ap_world st') = env_log (ap_world s2) @
           take n3 (map (\<lambda>x. entry ''delete'' (out_provider base) (v_hostname (del_visible x))) (pl_deletes plan))"
        "ap_progressed st' = (ap_progressed s2 \<or> 0 < n3)"
        using logged_loop [OF logs_delete [OF quiet], of "pl_deletes plan" s2 err st'] r1 r2 None e2 run
        by (auto simp: apply_calls_def)
      with n1 n2 None e2 show ?thesis
        by (intro exI [of _ "n1 + n2 + n3"]) (auto simp: planned_entries_def)
    qed
  qed
qed

lemma apply_log_prefix:
  assumes "quiet_output base"
    and "apply_reconcile_plan (logging_output base) owned plan now e = ((next, progressed, err), e')"
  shows "\<exists>n \<le> length (planned_entries (out_provider base) plan).
    env_log e' = env_log e @ take n (planned_entries (out_provider base) plan) \<and>
    (err = None \<longleftrightarrow> n = length (planned_entries (out_provider base) plan)) \<and>
    (progressed \<longleftrightarrow> 0 < n)"
proof -
  let ?recs = "fold (apply_keep now plan) (pl_next_managed plan)
    (apply_drops plan (index_by managed_record_lineage_key (owned_of (out_provider base) owned)))"
  obtain st' where "apply_calls (logging_output base) now plan
      \<lparr>ap_world = e, ap_records = ?recs, ap_progressed = False\<rparr> = (err, st')"
    and "ap_world st' = e'" "ap_progressed st' = progressed"
    using assms(2) by (auto simp: apply_reconcile_plan_def Let_def split: prod.splits)
  then show ?thesis using apply_calls_prefix [OF assms(1)] by fastforce
qed

text \<open>
  C26: The apply phase makes the calls of the plan in the order creates, updates, deletes and
  stops at the first failure: the log lists a prefix of the planned calls, the whole list
  exactly when there is no error, and progress is reported exactly when the prefix is not
  empty.
\<close>

theorem apply_runs_prefix:
  assumes "quiet_output base"
    and "apply_reconcile_plan (logging_output base) owned plan now e = ((next, progressed, err), e')"
  shows "\<exists>n \<le> length (planned_entries (out_provider base) plan).
    env_log e' = env_log e @ take n (planned_entries (out_provider base) plan) \<and>
    (err = None \<longleftrightarrow> n = length (planned_entries (out_provider base) plan)) \<and>
    (progressed \<longleftrightarrow> 0 < n)"
  using assms by (rule apply_log_prefix)

end
