(* ===== verification/Apply_Ownership.thy ===== *)
theory Apply_Ownership
  imports Apply_Correct
begin

text \<open>
  Who owns what after a pass: a pass that succeeds has every record it created or updated on
  its books, and a pass, whether it succeeds or not, forgets a record only for a reason the
  plan or the log of calls shows.
\<close>

section \<open>Moved lineages\<close>

text \<open>The lineages that a create, an update or a keep of another lineage takes off the books.\<close>

definition moved_lineages :: "reconcile_plan \<Rightarrow> string set" where
  "moved_lineages plan =
     managed_record_lineage_key ` (fset (fmran (pl_create_drops plan)) \<union>
       fset (fmran (pl_update_drops plan)) \<union> fset (fmran (pl_keep_drops plan)))"

text \<open>No two desired records of different lineages ask for the same hostname.\<close>

definition distinct_hosts :: "provider_ref \<Rightarrow> desired_record list \<Rightarrow> bool" where
  "distinct_hosts out desired \<longleftrightarrow>
     (\<forall>d \<in> set desired. \<forall>d' \<in> set desired.
        normalize_hostname (d_hostname d) = normalize_hostname (d_hostname d') \<longrightarrow>
        desired_record_lineage_key out d = desired_record_lineage_key out d')"

lemma drop_moved_lookup:
  "fmlookup (drop_moved drops l recs) k =
     (if \<exists>g. fmlookup drops l = Some g \<and> managed_record_lineage_key g = k then None else fmlookup recs k)"
  by (auto simp: drop_moved_def split: option.split)

lemma drop_moved_other:
  assumes "k \<notin> managed_record_lineage_key ` fset (fmran drops)"
  shows "fmlookup (drop_moved drops l recs) k = fmlookup recs k"
  using assms by (auto simp: drop_moved_lookup fmranI)

lemma action_dropD:
  assumes "create_drop l (decide ix l d) = Some g \<or> update_drop l (decide ix l d) = Some g \<or>
    keep_drop l (decide ix l d) = Some g"
  shows "(\<exists>b. match_owned ix l d = Some (g, b)) \<and> managed_record_lineage_key g \<noteq> l"
proof (cases "match_owned ix l d")
  case None
  with assms show ?thesis by (auto simp: decide_def split: if_splits)
next
  case (Some p)
  obtain m b where p: "p = (m, b)" by (cases p)
  have owner: "decide_owned ix d m b = a \<Longrightarrow>
      a \<in> {ACreate (Some m), AHold m} \<union> range (AUpdate m) \<union> range (AKeep m)" for a
    by (auto simp: decide_owned_def decide_update_def split: list.splits if_splits)
  have "decide ix l d = decide_owned ix d m b" using Some p by (simp add: decide_def)
  with assms owner [OF refl] Some p show ?thesis by (auto simp: moved_def split: if_splits)
qed

lemma moved_atD:
  fixes ords out desired visible owned
  defines "r \<equiv> build_reconcile_plan ords out desired visible owned"
    and "ix \<equiv> build_index out desired visible owned"
  assumes "fmlookup (pl_create_drops r) l = Some g \<or> fmlookup (pl_update_drops r) l = Some g \<or>
    fmlookup (pl_keep_drops r) l = Some g"
  shows "desired_at ix l \<in> set desired \<and> desired_record_lineage_key out (desired_at ix l) = l \<and>
    g \<in> set (owned_of out owned) \<and> managed_record_lineage_key g \<noteq> l \<and>
    (same_host (desired_at ix l) g \<or> same_lineage out (desired_at ix l) g)"
proof -
  have l: "l |\<in>| fmdom (ix_desired_by_lineage ix)"
    using assms(3) build_plan_drop_maps_dom [of l out desired visible owned ords]
    unfolding r_def ix_def by fastforce
  then have d: "desired_at ix l \<in> set desired" "l = desired_record_lineage_key out (desired_at ix l)"
    using desired_at_mem unfolding ix_def by auto
  have "create_drop l (decide ix l (desired_at ix l)) = Some g \<or> update_drop l (decide ix l (desired_at ix l)) = Some g \<or>
      keep_drop l (decide ix l (desired_at ix l)) = Some g"
    using build_plan_drop_maps l assms(3) unfolding r_def ix_def by (simp add: action_at_def)
  then obtain b where "match_owned ix l (desired_at ix l) = Some (g, b)" "managed_record_lineage_key g \<noteq> l"
    using action_dropD by blast
  with match_ownedD [of out desired visible owned l "desired_at ix l" g b] d show ?thesis
    unfolding ix_def by (auto split: if_splits)
qed

lemma moved_lineageD:
  assumes "k \<in> moved_lineages (build_reconcile_plan ords out desired visible owned)"
  obtains d g where "d \<in> set desired" "managed_record_lineage_key g = k"
    "desired_record_lineage_key out d \<noteq> k" "g \<in> set (owned_of out owned)"
    "same_host d g \<or> same_lineage out d g"
proof -
  let ?r = "build_reconcile_plan ords out desired visible owned"
  obtain g l where g: "managed_record_lineage_key g = k" and
    "fmlookup (pl_create_drops ?r) l = Some g \<or> fmlookup (pl_update_drops ?r) l = Some g \<or>
      fmlookup (pl_keep_drops ?r) l = Some g"
    using assms by (auto simp: moved_lineages_def elim!: fmranE)
  from moved_atD [OF this(2)] g show thesis by (intro that [of _ g]) auto
qed

lemma desired_not_moved:
  assumes plain: "plain_input out desired owned" and hosts: "distinct_hosts out desired"
    and d: "d \<in> set desired"
  shows "desired_record_lineage_key out d \<notin>
    moved_lineages (build_reconcile_plan ords out desired visible owned)"
proof
  assume "desired_record_lineage_key out d \<in> moved_lineages (build_reconcile_plan ords out desired visible owned)"
  then obtain d' g where d': "d' \<in> set desired"
    and g: "managed_record_lineage_key g = desired_record_lineage_key out d" "g \<in> set (owned_of out owned)"
    and other: "desired_record_lineage_key out d' \<noteq> desired_record_lineage_key out d"
    and match: "same_host d' g \<or> same_lineage out d' g"
    by (rule moved_lineageD)
  have "same_host d' g" using match same_lineage_host [OF plain d' g(2)] by blast
  moreover have "same_host d g"
    using same_lineage_host [OF plain d g(2)] g(1) by (simp add: same_lineage_def)
  ultimately have "normalize_hostname (d_hostname d') = normalize_hostname (d_hostname d)"
    by (simp add: same_host_def)
  then show False using hosts d d' other unfolding distinct_hosts_def by blast
qed

section \<open>A successful pass owns what it did\<close>

definition on_books :: "provider_ref \<Rightarrow> utc_time \<Rightarrow> desired_record \<Rightarrow> (string, managed_record) fmap \<Rightarrow> bool" where
  "on_books p now d recs \<longleftrightarrow>
     (\<exists>prov. fmlookup recs (desired_record_lineage_key p d) = Some (managed_of p d prov now))"

text \<open>The edit of a call leaves the entry of another desired record alone.\<close>

definition apart_from :: "provider_ref \<Rightarrow> reconcile_plan \<Rightarrow> desired_record \<Rightarrow> desired_record \<Rightarrow> bool" where
  "apart_from p plan d d' \<longleftrightarrow>
     desired_record_lineage_key p d \<noteq> desired_record_lineage_key p d' \<and>
     desired_record_lineage_key p d \<notin> moved_lineages plan"

lemma books_edit:
  assumes "apart_from p plan d d'" "on_books p now d recs"
    and "drops \<in> {pl_create_drops plan, pl_update_drops plan, pl_keep_drops plan}"
  shows "on_books p now d (drop_moved drops (desired_record_lineage_key p d') (fmupd (desired_record_lineage_key p d') x recs))"
proof -
  have "desired_record_lineage_key p d \<notin> managed_record_lineage_key ` fset (fmran drops)"
    using assms(1,3) by (auto simp: apart_from_def moved_lineages_def)
  then show ?thesis using assms(1,2) by (auto simp: on_books_def drop_moved_other apart_from_def)
qed

lemma books_enter:
  assumes "desired_record_lineage_key p d \<notin> moved_lineages plan"
    and "drops \<in> {pl_create_drops plan, pl_update_drops plan, pl_keep_drops plan}"
  shows "on_books p now d (drop_moved drops (desired_record_lineage_key p d)
    (fmupd (desired_record_lineage_key p d) (managed_of p d prov now) recs))"
proof -
  have "desired_record_lineage_key p d \<notin> managed_record_lineage_key ` fset (fmran drops)"
    using assms by (auto simp: moved_lineages_def)
  then show ?thesis by (auto simp: on_books_def drop_moved_other)
qed

interpretation create_books: establishing_loop "apply_create out now plan"
  "\<lambda>d st. desired_record_lineage_key (out_provider out) d \<notin> moved_lineages plan \<longrightarrow>
     on_books (out_provider out) now d (ap_records st)"
  "apart_from (out_provider out) plan" for out now plan
proof (unfold_locales, goal_cases)
  case (1 x s s')
  then show ?case
    by (auto simp: apply_create_def Let_def intro!: books_enter split: prod.splits sum.splits)
next
  case (2 x y s)
  then show ?case
    by (auto simp: apply_create_def Let_def intro!: books_edit split: prod.split sum.split)
qed

interpretation update_books: establishing_loop "apply_update out now plan"
  "\<lambda>u st. desired_record_lineage_key (out_provider out) (u_to u) \<notin> moved_lineages plan \<longrightarrow>
     on_books (out_provider out) now (u_to u) (ap_records st)"
  "\<lambda>u u'. apart_from (out_provider out) plan (u_to u) (u_to u')" for out now plan
proof (unfold_locales, goal_cases)
  case (1 x s s')
  then show ?case
    by (auto simp: apply_update_def Let_def intro!: books_enter split: prod.splits sum.splits)
next
  case (2 x y s)
  then show ?case
    by (auto simp: apply_update_def Let_def intro!: books_edit split: prod.split sum.split)
qed

text \<open>The later loops keep an entry.\<close>

interpretation update_keeps: step_invariant "apply_update out now plan"
  "\<lambda>u. apart_from (out_provider out) plan d (u_to u)"
  "\<lambda>st. on_books (out_provider out) now d (ap_records st)" for out now plan d
  by unfold_locales
    (auto simp: apply_update_def Let_def intro!: books_edit split: prod.split sum.split)

interpretation delete_keeps: step_invariant "apply_delete out"
  "\<lambda>x. managed_record_lineage_key (del_managed x) \<noteq> desired_record_lineage_key (out_provider out) d"
  "\<lambda>st. on_books (out_provider out) now d (ap_records st)" for out now d
  by unfold_locales (auto simp: apply_delete_def on_books_def split: prod.split sum.split)

lemma sorted_wrt_distinct_key:
  "distinct (map key xs) \<Longrightarrow> (\<And>x y. x \<in> set xs \<Longrightarrow> y \<in> set xs \<Longrightarrow> key x \<noteq> key y \<Longrightarrow> R x y) \<Longrightarrow> sorted_wrt R xs"
  by (induction xs) (auto simp: image_iff)

lemma apply_calls_books:
  fixes p plan
  assumes p: "p = out_provider out"
    and run: "apply_calls out now plan st = (None, st')"
    and dist: "distinct (map (desired_record_lineage_key p) (pl_creates plan @ map u_to (pl_updates plan)))"
    and still: "\<forall>d \<in> set (pl_creates plan) \<union> u_to ` set (pl_updates plan).
      desired_record_lineage_key p d \<notin> moved_lineages plan \<and>
      (\<forall>x \<in> set (pl_deletes plan). managed_record_lineage_key (del_managed x) \<noteq> desired_record_lineage_key p d)"
    and d: "d \<in> set (pl_creates plan) \<union> u_to ` set (pl_updates plan)"
  shows "on_books p now d (ap_records st')"
proof -
  let ?key = "desired_record_lineage_key p"
  obtain s1 where r1: "each_until_error (apply_create out now plan) (pl_creates plan) st = (None, s1)"
    using run by (auto simp: apply_calls_def split: prod.splits option.splits)
  obtain s2 where r2: "each_until_error (apply_update out now plan) (pl_updates plan) s1 = (None, s2)"
    using run r1 by (auto simp: apply_calls_def split: prod.splits option.splits)
  have r3: "each_until_error (apply_delete out) (pl_deletes plan) s2 = (None, st')"
    using run r1 r2 by (simp add: apply_calls_def)
  have dm: "?key d \<notin> moved_lineages plan" using still d by blast
  have "on_books p now d (ap_records s2)"
  proof (cases "d \<in> set (pl_creates plan)")
    case True
    have "sorted_wrt (apart_from p plan) (pl_creates plan)"
      using dist still by (intro sorted_wrt_distinct_key [where key = ?key]) (auto simp: apart_from_def)
    then have "on_books p now d (ap_records s1)"
      using create_books.loop_establishes [OF r1 _ True] p dm by simp
    moreover have "list_all (\<lambda>u. apart_from p plan d (u_to u)) (pl_updates plan)"
      using dist dm True by (auto simp: list_all_def apart_from_def image_iff)
    ultimately show ?thesis
      using update_keeps.loop_keeps [of out plan d "pl_updates plan" now s1] r2 p by simp
  next
    case False
    then obtain u where u: "u \<in> set (pl_updates plan)" "d = u_to u" using d by auto
    have "sorted_wrt (\<lambda>u u'. apart_from p plan (u_to u) (u_to u')) (pl_updates plan)"
      using dist still
      by (intro sorted_wrt_distinct_key [where key = "\<lambda>u. ?key (u_to u)"]) (auto simp: apart_from_def o_def)
    then show ?thesis
      using update_books.loop_establishes [OF r2 _ u(1)] p dm u(2) by simp
  qed
  then show ?thesis
    using delete_keeps.loop_keeps [of out d "pl_deletes plan" now s2] r3 still d p
    by (auto simp: list_all_def)
qed

text \<open>
  C25: After a phase without an error every record that the plan created or updated is on the
  books under its own lineage, provided that no two lineages desire the same hostname.
\<close>

theorem success_owns_mutations:
  assumes plan: "plan = build_reconcile_plan ords (out_provider out) desired visible owned"
    and plain: "plain_input (out_provider out) desired owned"
    and hosts: "distinct_hosts (out_provider out) desired"
    and run: "apply_reconcile_plan out owned plan now w = ((next, progressed, None), w')"
    and d: "d \<in> set (pl_creates plan) \<union> u_to ` set (pl_updates plan)"
  shows "\<exists>prov. managed_of (out_provider out) d prov now \<in> set (owned_of (out_provider out) next)"
proof -
  let ?p = "out_provider out"
  have outs: "\<forall>m \<in> set (pl_next_managed plan). m_output m = ?p"
    using plan plan_next_output by blast
  obtain recs where wf: "lineage_wf ?p recs"
    and nxt: "next = snapshot_with_output_records (filter (\<lambda>m. m_output m \<noteq> ?p) (sn_managed_records owned)) recs"
    and calls: "apply_calls out now plan
        \<lparr>ap_world = w,
         ap_records = fold (apply_keep now plan) (pl_next_managed plan)
           (apply_drops plan (index_by managed_record_lineage_key (owned_of ?p owned))),
         ap_progressed = False\<rparr> = (None, \<lparr>ap_world = w', ap_records = recs, ap_progressed = progressed\<rparr>)"
    by (rule apply_result [OF outs run])
  have mem: "d' \<in> set desired" if "d' \<in> set (pl_creates plan) \<union> u_to ` set (pl_updates plan)" for d'
    using that plan_create_free plan_update_proof unfolding plan by fastforce
  have "on_books ?p now d (ap_records \<lparr>ap_world = w', ap_records = recs, ap_progressed = progressed\<rparr>)"
  proof (rule apply_calls_books [OF refl calls _ _ d])
    show "distinct (map (desired_record_lineage_key ?p) (pl_creates plan @ map u_to (pl_updates plan)))"
      using plan_lineage_distinct [of ?p ords desired visible owned] plan by simp
    show "\<forall>d \<in> set (pl_creates plan) \<union> u_to ` set (pl_updates plan).
      desired_record_lineage_key ?p d \<notin> moved_lineages plan \<and>
      (\<forall>x \<in> set (pl_deletes plan). managed_record_lineage_key (del_managed x) \<noteq> desired_record_lineage_key ?p d)"
      using mem desired_not_moved [OF plain hosts] plan_delete_proof unfolding plan
      by (metis (no_types, lifting))
  qed
  then obtain prov where look: "fmlookup recs (desired_record_lineage_key ?p d) = Some (managed_of ?p d prov now)"
    by (auto simp: on_books_def)
  have "desired_record_lineage_key ?p d \<in> fset (fmdom recs)" using look by (simp add: fmlookup_dom_iff)
  then have "managed_of ?p d prov now \<in> set (owned_of ?p next)"
    unfolding nxt using snapshot_own [OF wf] look by force
  then show ?thesis by blast
qed

section \<open>Nothing is forgotten without a reason\<close>

definition logged_since :: "nat \<Rightarrow> string \<Rightarrow> provider_ref \<Rightarrow> string \<Rightarrow> 'w env \<Rightarrow> bool" where
  "logged_since k tag p h e \<longleftrightarrow> entry tag p h \<in> set (drop k (env_log e))"

definition deletion_logged ::
  "provider_ref \<Rightarrow> reconcile_plan \<Rightarrow> string \<Rightarrow> nat \<Rightarrow> 'w env \<Rightarrow> bool" where
  "deletion_logged p plan l k e \<longleftrightarrow>
     (\<exists>x \<in> set (pl_deletes plan). managed_record_lineage_key (del_managed x) = l \<and>
        logged_since k ''delete'' p (v_hostname (del_visible x)) e)"

text \<open>
  Another desired record has taken over a record of lineage \<open>l\<close>: it asks for the hostname of
  that record, or for its lineage under the display name, and it has been created or updated,
  which the log shows since its first \<open>k\<close> lines, or the output shows it and it is kept.
\<close>

definition taken_over ::
  "provider_ref \<Rightarrow> desired_record list \<Rightarrow> snapshot \<Rightarrow> reconcile_plan \<Rightarrow> string \<Rightarrow> nat \<Rightarrow> 'w env \<Rightarrow> bool" where
  "taken_over p desired owned plan l k e \<longleftrightarrow>
     (\<exists>d \<in> set desired. \<exists>g \<in> set (owned_of p owned).
        managed_record_lineage_key g = l \<and> desired_record_lineage_key p d \<noteq> l \<and>
        (same_host d g \<or> same_lineage p d g) \<and>
        (d \<in> set (pl_creates plan) \<and> logged_since k ''create'' p (d_hostname d) e \<or>
         d \<in> u_to ` set (pl_updates plan) \<and> logged_since k ''update'' p (d_hostname d) e \<or>
         desired_record_lineage_key p d \<in> managed_record_lineage_key ` set (pl_next_managed plan)))"

text \<open>The drops that a call or a keep under a lineage makes.\<close>

definition moves :: "(string, managed_record) fmap \<Rightarrow> string \<Rightarrow> string \<Rightarrow> bool" where
  "moves drops l k \<longleftrightarrow> (\<exists>g. fmlookup drops k = Some g \<and> managed_record_lineage_key g = l)"

lemma drop_moved_dom:
  "l \<in> fset (fmdom recs) \<Longrightarrow> \<not> moves drops l k \<Longrightarrow> l \<in> fset (fmdom (drop_moved drops k recs))"
  using drop_moved_lookup [of drops k recs l] by (auto simp: fmlookup_dom_iff moves_def)

text \<open>
  Still owned, or the log shows since its first \<open>k\<close> lines the deletion or a call that moved the
  lineage.
\<close>

definition call_moved ::
  "provider_ref \<Rightarrow> reconcile_plan \<Rightarrow> string \<Rightarrow> nat \<Rightarrow> 'w env \<Rightarrow> bool" where
  "call_moved p plan l k e \<longleftrightarrow>
     (\<exists>d \<in> set (pl_creates plan). moves (pl_create_drops plan) l (desired_record_lineage_key p d) \<and>
        logged_since k ''create'' p (d_hostname d) e) \<or>
     (\<exists>u \<in> set (pl_updates plan). moves (pl_update_drops plan) l (desired_record_lineage_key p (u_to u)) \<and>
        logged_since k ''update'' p (d_hostname (u_to u)) e)"

definition accounted ::
  "provider_ref \<Rightarrow> reconcile_plan \<Rightarrow> string \<Rightarrow> nat \<Rightarrow> 'w env apply_state \<Rightarrow> bool" where
  "accounted p plan l k st \<longleftrightarrow> k \<le> length (env_log (ap_world st)) \<and>
     (l \<in> fset (fmdom (ap_records st)) \<or> deletion_logged p plan l k (ap_world st) \<or>
      call_moved p plan l k (ap_world st))"

lemma logged_since_append:
  assumes "env_log e' = env_log e @ [entry tag p h]" "k \<le> length (env_log e)"
  shows "logged_since k tag' p h' e' \<longleftrightarrow> logged_since k tag' p h' e \<or> entry tag' p h' = entry tag p h"
  using assms by (auto simp: logged_since_def)

lemma accounted_mono:
  assumes "accounted p plan l k s" "env_log w = env_log (ap_world s) @ [entry tag p h]"
    and "l \<in> fset (fmdom (ap_records s)) \<Longrightarrow>
      l \<in> fset (fmdom recs) \<or> deletion_logged p plan l k w \<or> call_moved p plan l k w"
  shows "accounted p plan l k (s\<lparr>ap_world := w, ap_records := recs, ap_progressed := q\<rparr>)"
proof -
  have k: "k \<le> length (env_log (ap_world s))" using assms(1) by (simp add: accounted_def)
  have "logged_since k t p x (ap_world s) \<Longrightarrow> logged_since k t p x w" for t x
    using logged_since_append [OF assms(2) k] by simp
  then have "deletion_logged p plan l k (ap_world s) \<Longrightarrow> deletion_logged p plan l k w"
    and "call_moved p plan l k (ap_world s) \<Longrightarrow> call_moved p plan l k w"
    unfolding deletion_logged_def call_moved_def by blast+
  then show ?thesis using assms k by (auto simp: accounted_def)
qed

lemma accounted_failed:
  assumes "accounted p plan l k s" "env_log w = env_log (ap_world s)"
  shows "accounted p plan l k (s\<lparr>ap_world := w\<rparr>)"
  using assms by (simp add: accounted_def deletion_logged_def call_moved_def logged_since_def)

lemma quiet_call_log:
  assumes "quiet_op op" "op e = (r, e')"
  shows "env_log e' = env_log e"
  using assms unfolding quiet_op_def by (metis snd_conv)

lemma accounted_create:
  assumes "quiet_output base" "p = out_provider base"
  shows "step_invariant (apply_create (logging_output base) now plan) (\<lambda>x. x \<in> set (pl_creates plan))
    (accounted p plan l k)"
proof
  fix x :: desired_record and s :: "'a env apply_state"
  assume x: "x \<in> set (pl_creates plan)" and acc: "accounted p plan l k s"
  obtain r w where op: "out_create base x (ap_world s) = (r, w)" by fastforce
  then have quiet: "env_log w = env_log (ap_world s)"
    using assms(1) unfolding quiet_output_def by (auto intro: quiet_call_log)
  show "accounted p plan l k (snd (apply_create (logging_output base) now plan x s))"
  proof (cases r)
    case (Inl e)
    then show ?thesis using op accounted_failed [OF acc quiet]
      by (simp add: apply_create_def logging_output_def logged_def)
  next
    case (Inr prov)
    let ?w = "log_mutation ''create'' p (d_hostname x) w"
    let ?key = "desired_record_lineage_key p x"
    let ?recs = "drop_moved (pl_create_drops plan) ?key
      (fmupd ?key (managed_of p x (copy_record_provenance prov) now) (ap_records s))"
    have log: "env_log ?w = env_log (ap_world s) @ [entry ''create'' p (d_hostname x)]"
      using quiet by (simp add: log_mutation_def entry_def)
    have "k \<le> length (env_log (ap_world s))" using acc by (simp add: accounted_def)
    then have "call_moved p plan l k ?w" if "moves (pl_create_drops plan) l ?key"
      using that x logged_since_append [OF log] unfolding call_moved_def by blast
    then have "accounted p plan l k (s\<lparr>ap_world := ?w, ap_records := ?recs, ap_progressed := True\<rparr>)"
      by (intro accounted_mono [OF acc log]) (auto intro!: drop_moved_dom)
    then show ?thesis using op Inr assms(2)
      by (simp add: apply_create_def logging_output_def logged_def Let_def)
  qed
qed

lemma accounted_update:
  assumes "quiet_output base" "p = out_provider base"
  shows "step_invariant (apply_update (logging_output base) now plan) (\<lambda>x. x \<in> set (pl_updates plan))
    (accounted p plan l k)"
proof
  fix x :: update_call and s :: "'a env apply_state"
  assume x: "x \<in> set (pl_updates plan)" and acc: "accounted p plan l k s"
  obtain r w where op: "out_update base (u_from x) (u_to x) (ap_world s) = (r, w)" by fastforce
  then have quiet: "env_log w = env_log (ap_world s)"
    using assms(1) unfolding quiet_output_def by (auto intro: quiet_call_log)
  show "accounted p plan l k (snd (apply_update (logging_output base) now plan x s))"
  proof (cases r)
    case (Inl e)
    then show ?thesis using op accounted_failed [OF acc quiet]
      by (simp add: apply_update_def logging_output_def logged_def)
  next
    case (Inr prov)
    let ?w = "log_mutation ''update'' p (d_hostname (u_to x)) w"
    let ?key = "desired_record_lineage_key p (u_to x)"
    let ?recs = "drop_moved (pl_update_drops plan) ?key
      (fmupd ?key (managed_of p (u_to x) (next_managed_provenance prov (v_provenance (u_from x))) now) (ap_records s))"
    have log: "env_log ?w = env_log (ap_world s) @ [entry ''update'' p (d_hostname (u_to x))]"
      using quiet by (simp add: log_mutation_def entry_def)
    have "k \<le> length (env_log (ap_world s))" using acc by (simp add: accounted_def)
    then have "call_moved p plan l k ?w" if "moves (pl_update_drops plan) l ?key"
      using that x logged_since_append [OF log] unfolding call_moved_def by blast
    then have "accounted p plan l k (s\<lparr>ap_world := ?w, ap_records := ?recs, ap_progressed := True\<rparr>)"
      by (intro accounted_mono [OF acc log]) (auto intro!: drop_moved_dom)
    then show ?thesis using op Inr assms(2)
      by (simp add: apply_update_def logging_output_def logged_def Let_def)
  qed
qed

lemma accounted_delete:
  assumes "quiet_output base" "p = out_provider base"
  shows "step_invariant (apply_delete (logging_output base)) (\<lambda>x. x \<in> set (pl_deletes plan)) (accounted p plan l k)"
proof
  fix x :: delete_call and s :: "'a env apply_state"
  assume x: "x \<in> set (pl_deletes plan)" and acc: "accounted p plan l k s"
  obtain r w where op: "out_delete base (del_visible x) (ap_world s) = (r, w)" by fastforce
  then have quiet: "env_log w = env_log (ap_world s)"
    using assms(1) unfolding quiet_output_def by (auto intro: quiet_call_log)
  show "accounted p plan l k (snd (apply_delete (logging_output base) x s))"
  proof (cases r)
    case (Inl e)
    then show ?thesis using op accounted_failed [OF acc quiet]
      by (simp add: apply_delete_def logging_output_def logged_def)
  next
    case (Inr u)
    let ?w = "log_mutation ''delete'' p (v_hostname (del_visible x)) w"
    let ?gone = "managed_record_lineage_key (del_managed x)"
    have log: "env_log ?w = env_log (ap_world s) @ [entry ''delete'' p (v_hostname (del_visible x))]"
      using quiet by (simp add: log_mutation_def entry_def)
    have "k \<le> length (env_log (ap_world s))" using acc by (simp add: accounted_def)
    then have "deletion_logged p plan l k ?w" if "?gone = l"
      using that x logged_since_append [OF log] unfolding deletion_logged_def by blast
    then have "accounted p plan l k
        (s\<lparr>ap_world := ?w, ap_records := fmdrop ?gone (ap_records s), ap_progressed := True\<rparr>)"
      by (intro accounted_mono [OF acc log]) auto
    then show ?thesis using op Inr assms(2)
      by (simp add: apply_delete_def logging_output_def logged_def)
  qed
qed

text \<open>The edits before the calls drop a lineage only when the plan drops it or a keep moves it.\<close>

lemma apply_drops_dom:
  assumes "l \<in> fset (fmdom recs)" "l \<notin> managed_record_lineage_key ` set (pl_drops plan)"
  shows "l \<in> fset (fmdom (apply_drops plan recs))"
  unfolding apply_drops_def
  by (rule fold_invariant [where Q = "\<lambda>x. managed_record_lineage_key x \<noteq> l"]) (use assms in auto)

lemma apply_keeps_dom:
  assumes "l \<in> fset (fmdom recs)"
    and "\<And>keep. keep \<in> set keeps \<Longrightarrow> \<not> moves (pl_keep_drops plan) l (managed_record_lineage_key keep)"
  shows "l \<in> fset (fmdom (fold (apply_keep now plan) keeps recs))"
proof (rule fold_invariant [where Q = "\<lambda>x. x \<in> set keeps"])
  show "l \<in> fset (fmdom (apply_keep now plan x s))" if "x \<in> set keeps" "l \<in> fset (fmdom s)" for x s
    using that assms(2) by (auto simp: apply_keep_def Let_def intro!: drop_moved_dom)
qed (use assms in simp_all)

lemma accounted_calls:
  assumes "quiet_output base" "accounted (out_provider base) plan l k st"
  shows "accounted (out_provider base) plan l k (snd (apply_calls (logging_output base) now plan st))"
proof -
  let ?out = "logging_output base" and ?acc = "accounted (out_provider base) plan l k"
  let ?c = "each_until_error (apply_create ?out now plan) (pl_creates plan) st"
  let ?u = "each_until_error (apply_update ?out now plan) (pl_updates plan) (snd ?c)"
  have c: "?acc (snd ?c)"
    by (rule step_invariant.loop_keeps [OF accounted_create [OF assms(1) refl]]) (simp_all add: assms(2) list_all_def)
  have u: "?acc (snd ?u)"
    by (rule step_invariant.loop_keeps [OF accounted_update [OF assms(1) refl]]) (simp_all add: c list_all_def)
  have d: "?acc (snd (each_until_error (apply_delete ?out) (pl_deletes plan) (snd ?u)))"
    by (rule step_invariant.loop_keeps [OF accounted_delete [OF assms(1) refl]]) (simp_all add: u list_all_def)
  show ?thesis using c u d unfolding apply_calls_def by (auto split: prod.split option.split)
qed

text \<open>What the plan knows about a lineage that it drops or moves.\<close>

lemma plan_dropD:
  assumes "m \<in> set (pl_drops (build_reconcile_plan ords out desired visible owned))"
  shows "m \<in> set (owned_of out owned) \<and> visible_with_host out visible (m_hostname m) = [] \<and>
    managed_record_lineage_key m \<notin> desired_record_lineage_key out ` set desired"
proof -
  let ?ix = "build_index out desired visible owned"
  obtain l where l: "l |\<in>| fmdom (ix_owned_by_lineage ?ix)" and m: "m = owned_at ?ix l"
    and a: "disposal_at ?ix (claimed_lineages ?ix) l = ODrop"
    using assms by (auto simp: build_plan_lists dropped_by_iff)
  have "visible_with_host out visible (m_hostname m) = []" "l |\<notin>| fmdom (ix_desired_by_lineage ?ix)"
    using a m by (auto simp: disposal_at_def dispose_def should_retain_managed_record_without_proof_def
        group_simps split: option.splits if_splits)
  then show ?thesis using owned_at_mem [OF l] m unfolding index_desired fmdom_index_by by simp
qed

lemma moved_by_call:
  assumes plan: "plan = build_reconcile_plan ords p desired visible owned"
    and "call_moved p plan l k e"
  shows "taken_over p desired owned plan l k e"
  using assms(2) unfolding call_moved_def
proof (elim disjE bexE conjE)
  fix d assume d: "d \<in> set (pl_creates plan)" "moves (pl_create_drops plan) l (desired_record_lineage_key p d)"
    and log: "logged_since k ''create'' p (d_hostname d) e"
  have at: "d = desired_at (build_index p desired visible owned) (desired_record_lineage_key p d)"
    using d(1) unfolding plan by (rule create_memD) (use desired_at_mem in metis)
  obtain g where "fmlookup (pl_create_drops plan) (desired_record_lineage_key p d) = Some g"
    "managed_record_lineage_key g = l" using d(2) by (auto simp: moves_def)
  then show ?thesis using moved_atD [of ords p desired visible owned] at d(1) log
    unfolding taken_over_def plan by metis
next
  fix u assume u: "u \<in> set (pl_updates plan)"
    "moves (pl_update_drops plan) l (desired_record_lineage_key p (u_to u))"
    and log: "logged_since k ''update'' p (d_hostname (u_to u)) e"
  have at: "u_to u = desired_at (build_index p desired visible owned) (desired_record_lineage_key p (u_to u))"
    using u(1) unfolding plan by (rule update_memD) (use desired_at_mem in metis)
  obtain g where "fmlookup (pl_update_drops plan) (desired_record_lineage_key p (u_to u)) = Some g"
    "managed_record_lineage_key g = l" using u(2) by (auto simp: moves_def)
  then show ?thesis using moved_atD [of ords p desired visible owned] at u(1) log
    unfolding taken_over_def plan by (metis imageI)
qed

lemma moved_by_keep:
  assumes plan: "plan = build_reconcile_plan ords p desired visible owned"
    and "keep \<in> set (pl_next_managed plan)" "moves (pl_keep_drops plan) l (managed_record_lineage_key keep)"
  shows "taken_over p desired owned plan l k e"
  using assms moved_atD [of ords p desired visible owned] unfolding taken_over_def moves_def
  by (metis imageI)

text \<open>
  C5: Ownership is not lost silently. After the apply phase, failed or not, a lineage that was
  owned is still owned, or its deletion is in the log, or nothing desires it and the listing
  shows no record at the hostname of an owned record of that lineage, or a desired record of
  the same hostname or the same source under another lineage has taken it over: one whose
  create or update is in the log, or one that the plan keeps. (The provider itself does not
  write the log of the runtime.)
\<close>

theorem nothing_forgotten_silently:
  assumes plan: "plan = build_reconcile_plan ords (out_provider base) desired visible owned"
    and quiet: "quiet_output base"
    and run: "apply_reconcile_plan (logging_output base) owned plan now e = ((next, progressed, err), e')"
    and m: "m \<in> set (owned_of (out_provider base) owned)"
  shows "managed_record_lineage_key m \<in> managed_record_lineage_key ` set (owned_of (out_provider base) next) \<or>
    managed_record_lineage_key m \<notin> desired_record_lineage_key (out_provider base) ` set desired \<and>
      (\<exists>g \<in> set (owned_of (out_provider base) owned).
         managed_record_lineage_key g = managed_record_lineage_key m \<and>
         visible_with_host (out_provider base) visible (m_hostname g) = []) \<or>
    taken_over (out_provider base) desired owned plan (managed_record_lineage_key m) (length (env_log e)) e' \<or>
    deletion_logged (out_provider base) plan (managed_record_lineage_key m) (length (env_log e)) e'"
proof -
  let ?p = "out_provider base" and ?l = "managed_record_lineage_key m" and ?k = "length (env_log e)"
  let ?recs0 = "index_by managed_record_lineage_key (owned_of ?p owned)"
  let ?recs2 = "fold (apply_keep now plan) (pl_next_managed plan) (apply_drops plan ?recs0)"
  have outs: "\<forall>m \<in> set (pl_next_managed plan). m_output m = out_provider (logging_output base)"
    using plan plan_next_output by simp
  obtain recs where wf: "lineage_wf ?p recs"
    and nxt: "next = snapshot_with_output_records (filter (\<lambda>m. m_output m \<noteq> ?p) (sn_managed_records owned)) recs"
    and calls: "apply_calls (logging_output base) now plan
        \<lparr>ap_world = e, ap_records = ?recs2, ap_progressed = False\<rparr> =
      (err, \<lparr>ap_world = e', ap_records = recs, ap_progressed = progressed\<rparr>)"
    by (rule apply_result [OF outs run]) simp
  have listed: "?l \<in> fset (fmdom ?recs0)" using m by (simp add: fmdom_index_by)
  consider (dropped) "?l \<in> managed_record_lineage_key ` set (pl_drops plan)"
    | (moved) keep where "keep \<in> set (pl_next_managed plan)" "moves (pl_keep_drops plan) ?l (managed_record_lineage_key keep)"
    | (carried) "?l \<in> fset (fmdom ?recs2)"
    using apply_keeps_dom [OF apply_drops_dom [OF listed]] by blast
  then show ?thesis
  proof cases
    case dropped
    then obtain g where g: "g \<in> set (pl_drops plan)" "managed_record_lineage_key g = ?l" by auto
    with plan_dropD [of g ords ?p desired visible owned] show ?thesis unfolding plan by metis
  next
    case moved
    then show ?thesis using moved_by_keep [OF plan] by blast
  next
    case carried
    then have "accounted ?p plan ?l ?k \<lparr>ap_world = e', ap_records = recs, ap_progressed = progressed\<rparr>"
      using accounted_calls [OF quiet, of plan ?l ?k _ now] calls
      by (metis accounted_def apply_state.select_convs(1,2) order_refl snd_conv)
    then consider "?l \<in> fset (fmdom recs)" | "deletion_logged ?p plan ?l ?k e'" | "call_moved ?p plan ?l ?k e'"
      by (auto simp: accounted_def)
    then show ?thesis
    proof cases
      case 1
      then have "the (fmlookup recs ?l) \<in> set (owned_of ?p next)"
        and "managed_record_lineage_key (the (fmlookup recs ?l)) = ?l"
        unfolding nxt using snapshot_own [OF wf] lineage_wf_the [OF wf] by force+
      then show ?thesis by (metis imageI)
    next
      case 3
      then show ?thesis using moved_by_call [OF plan] by blast
    qed blast
  qed
qed

section \<open>Every logged mutation is on the books\<close>

text \<open>A create or an update of \<open>d\<close> that the log shows since its first \<open>k\<close> lines has its entry.\<close>

definition booked ::
  "provider_ref \<Rightarrow> utc_time \<Rightarrow> string \<Rightarrow> nat \<Rightarrow> desired_record \<Rightarrow> 'w env apply_state \<Rightarrow> bool" where
  "booked p now tag k d st \<longleftrightarrow> k \<le> length (env_log (ap_world st)) \<and>
     (entry tag p (d_hostname d) \<in> set (drop k (env_log (ap_world st))) \<longrightarrow> on_books p now d (ap_records st))"

definition distinguishable :: "provider_ref \<Rightarrow> reconcile_plan \<Rightarrow> desired_record \<Rightarrow> desired_record \<Rightarrow> bool" where
  "distinguishable p plan d y \<longleftrightarrow> y = d \<or> apart_from p plan d y \<and> d_hostname y \<noteq> d_hostname d"

lemma log_mutation_entry:
  "log_mutation tag p h e = e\<lparr>env_log := env_log e @ [entry tag p h]\<rparr>"
  by (simp add: log_mutation_def entry_def)

lemma entry_eq_iff [simp]: "entry t p h = entry t' p h' \<longleftrightarrow> t = t' \<and> h = h'"
  by (simp add: entry_def)

lemma booked_step:
  assumes acc: "booked p now tag k d s" and quiet: "env_log w = env_log (ap_world s)"
    and same: "h = d_hostname d \<Longrightarrow> new"
    and books: "on_books p now d (ap_records s) \<or> new \<Longrightarrow> on_books p now d recs"
  shows "booked p now tag k d (s\<lparr>ap_world := log_mutation t p h w, ap_records := recs, ap_progressed := True\<rparr>)"
proof -
  have k: "k \<le> length (env_log w)" using acc quiet by (simp add: booked_def)
  have "on_books p now d recs" if "entry tag p (d_hostname d) \<in> set (drop k (env_log w @ [entry t p h]))"
  proof (cases "entry tag p (d_hostname d) \<in> set (drop k (env_log w))")
    case True
    then show ?thesis using acc quiet books by (simp add: booked_def)
  next
    case False
    then show ?thesis using that k same books by simp
  qed
  then show ?thesis using k by (simp add: booked_def log_mutation_entry)
qed

lemma books_after:
  assumes "distinguishable p plan d y" "desired_record_lineage_key p d \<notin> moved_lineages plan"
    and "on_books p now d recs \<or> y = d"
    and "drops \<in> {pl_create_drops plan, pl_update_drops plan, pl_keep_drops plan}"
  shows "on_books p now d (drop_moved drops (desired_record_lineage_key p y)
    (fmupd (desired_record_lineage_key p y) (managed_of p y prov now) recs))"
proof (cases "y = d")
  case True
  then show ?thesis using books_enter [OF assms(2,4)] by simp
next
  case False
  then have "apart_from p plan d y" "on_books p now d recs" using assms(1,3) by (auto simp: distinguishable_def)
  then show ?thesis using assms(4) by (rule books_edit)
qed

lemma booked_create:
  assumes "quiet_output base" "p = out_provider base" "desired_record_lineage_key p d \<notin> moved_lineages plan"
  shows "step_invariant (apply_create (logging_output base) now plan) (distinguishable p plan d) (booked p now tag k d)"
proof
  fix x :: desired_record and s :: "'a env apply_state"
  assume ok: "distinguishable p plan d x" and acc: "booked p now tag k d s"
  obtain r w where op: "out_create base x (ap_world s) = (r, w)" by fastforce
  then have quiet: "env_log w = env_log (ap_world s)"
    using assms(1) unfolding quiet_output_def quiet_op_def by (metis snd_conv)
  show "booked p now tag k d (snd (apply_create (logging_output base) now plan x s))"
  proof (cases r)
    case (Inl e)
    then show ?thesis using op quiet acc
      by (simp add: booked_def apply_create_def logging_output_def logged_def)
  next
    case (Inr prov)
    define recs where "recs = drop_moved (pl_create_drops plan) (desired_record_lineage_key p x)
      (fmupd (desired_record_lineage_key p x) (managed_of p x (copy_record_provenance prov) now) (ap_records s))"
    have "on_books p now d recs" if "on_books p now d (ap_records s) \<or> x = d"
      unfolding recs_def by (rule books_after [OF ok assms(3) that]) simp
    moreover have "x = d" if "d_hostname x = d_hostname d"
      using ok that by (auto simp: distinguishable_def)
    ultimately have "booked p now tag k d (s\<lparr>ap_world := log_mutation ''create'' p (d_hostname x) w,
        ap_records := recs, ap_progressed := True\<rparr>)"
      using booked_step [OF acc quiet] by blast
    then show ?thesis using op Inr assms(2)
      by (simp add: apply_create_def logging_output_def logged_def Let_def recs_def)
  qed
qed

lemma booked_update:
  assumes "quiet_output base" "p = out_provider base" "desired_record_lineage_key p d \<notin> moved_lineages plan"
  shows "step_invariant (apply_update (logging_output base) now plan) (\<lambda>u. distinguishable p plan d (u_to u))
    (booked p now tag k d)"
proof
  fix x :: update_call and s :: "'a env apply_state"
  assume ok: "distinguishable p plan d (u_to x)" and acc: "booked p now tag k d s"
  obtain r w where op: "out_update base (u_from x) (u_to x) (ap_world s) = (r, w)" by fastforce
  then have quiet: "env_log w = env_log (ap_world s)"
    using assms(1) unfolding quiet_output_def quiet_op_def by (metis snd_conv)
  show "booked p now tag k d (snd (apply_update (logging_output base) now plan x s))"
  proof (cases r)
    case (Inl e)
    then show ?thesis using op quiet acc
      by (simp add: booked_def apply_update_def logging_output_def logged_def)
  next
    case (Inr prov)
    define recs where "recs = drop_moved (pl_update_drops plan) (desired_record_lineage_key p (u_to x))
      (fmupd (desired_record_lineage_key p (u_to x)) (managed_of p (u_to x) (next_managed_provenance prov (v_provenance (u_from x))) now) (ap_records s))"
    have "on_books p now d recs" if "on_books p now d (ap_records s) \<or> u_to x = d"
      unfolding recs_def by (rule books_after [OF ok assms(3) that]) simp
    moreover have "u_to x = d" if "d_hostname (u_to x) = d_hostname d"
      using ok that by (auto simp: distinguishable_def)
    ultimately have "booked p now tag k d (s\<lparr>ap_world := log_mutation ''update'' p (d_hostname (u_to x)) w,
        ap_records := recs, ap_progressed := True\<rparr>)"
      using booked_step [OF acc quiet] by blast
    then show ?thesis using op Inr assms(2)
      by (simp add: apply_update_def logging_output_def logged_def Let_def recs_def)
  qed
qed

lemma booked_delete:
  assumes "quiet_output base" "p = out_provider base" "tag \<noteq> ''delete''"
  shows "step_invariant (apply_delete (logging_output base))
    (\<lambda>x. managed_record_lineage_key (del_managed x) \<noteq> desired_record_lineage_key p d) (booked p now tag k d)"
proof
  fix x :: delete_call and s :: "'a env apply_state"
  assume ok: "managed_record_lineage_key (del_managed x) \<noteq> desired_record_lineage_key p d"
    and acc: "booked p now tag k d s"
  obtain r w where op: "out_delete base (del_visible x) (ap_world s) = (r, w)" by fastforce
  then have quiet: "env_log w = env_log (ap_world s)"
    using assms(1) unfolding quiet_output_def quiet_op_def by (metis snd_conv)
  show "booked p now tag k d (snd (apply_delete (logging_output base) x s))"
  proof (cases r)
    case (Inl e)
    then show ?thesis using op quiet acc
      by (simp add: booked_def apply_delete_def logging_output_def logged_def)
  next
    case (Inr u)
    then show ?thesis using op quiet acc assms(2,3) ok
      by (auto simp: booked_def apply_delete_def logging_output_def logged_def log_mutation_entry on_books_def)
  qed
qed

lemma booked_calls:
  fixes d plan
  assumes "quiet_output base" "p = out_provider base" "desired_record_lineage_key p d \<notin> moved_lineages plan"
    and "\<forall>y \<in> set (pl_creates plan) \<union> u_to ` set (pl_updates plan). distinguishable p plan d y"
    and "\<forall>x \<in> set (pl_deletes plan). managed_record_lineage_key (del_managed x) \<noteq> desired_record_lineage_key p d"
    and "tag \<noteq> ''delete''" "booked p now tag k d st"
  shows "booked p now tag k d (snd (apply_calls (logging_output base) now plan st))"
proof -
  let ?out = "logging_output base" and ?ok = "booked p now tag k d"
  let ?c = "each_until_error (apply_create ?out now plan) (pl_creates plan) st"
  let ?u = "each_until_error (apply_update ?out now plan) (pl_updates plan) (snd ?c)"
  have c: "?ok (snd ?c)"
    by (rule step_invariant.loop_keeps [OF booked_create [OF assms(1-3)]]) (use assms(4,7) in \<open>auto simp: list_all_def\<close>)
  have u: "?ok (snd ?u)"
    by (rule step_invariant.loop_keeps [OF booked_update [OF assms(1-3)]]) (use c assms(4) in \<open>auto simp: list_all_def\<close>)
  have d: "?ok (snd (each_until_error (apply_delete ?out) (pl_deletes plan) (snd ?u)))"
    by (rule step_invariant.loop_keeps [OF booked_delete [OF assms(1,2,6)]]) (use u assms(5) in \<open>auto simp: list_all_def\<close>)
  show ?thesis using c u d unfolding apply_calls_def by (auto split: prod.split option.split)
qed

lemma distinct_key_eq:
  "distinct (map f xs) \<Longrightarrow> x \<in> set xs \<Longrightarrow> y \<in> set xs \<Longrightarrow> f x = f y \<Longrightarrow> x = y"
  by (metis distinct_map inj_onD)

lemma plan_distinguishable:
  assumes plan: "plan = build_reconcile_plan ords p desired visible owned"
    and plain: "plain_input p desired owned" and hosts: "distinct_hosts p desired"
    and d: "d \<in> set (pl_creates plan @ map u_to (pl_updates plan))"
    and y: "y \<in> set (pl_creates plan @ map u_to (pl_updates plan))"
  shows "distinguishable p plan d y"
proof (cases "y = d")
  case False
  have "desired_record_lineage_key p d \<noteq> desired_record_lineage_key p y"
    using False d y distinct_key_eq plan_lineage_distinct [of p ords desired visible owned] unfolding plan by metis
  moreover have "x \<in> set desired" if "x \<in> set (pl_creates plan @ map u_to (pl_updates plan))" for x
    using that plan_create_free plan_update_proof unfolding plan by fastforce
  ultimately have "d_hostname y \<noteq> d_hostname d" "apart_from p plan d y"
    using d y hosts desired_not_moved [OF plain hosts] unfolding plan distinct_hosts_def apart_from_def by metis+
  then show ?thesis by (simp add: distinguishable_def)
qed (simp add: distinguishable_def)

text \<open>
  C6: Whatever stops the apply phase, a create or update whose success has been logged is on
  the books: the snapshot that the phase returns holds a record for it under its lineage, with
  the hostname and answer that were sent. This is for plans in which no two lineages desire
  the same hostname, for providers and sources whose fields are free of the separator of the
  keys, and for a provider that does not write the log of the runtime itself.
\<close>

theorem logged_mutations_owned:
  assumes plan: "plan = build_reconcile_plan ords (out_provider base) desired visible owned"
    and plain: "plain_input (out_provider base) desired owned"
    and hosts: "distinct_hosts (out_provider base) desired"
    and quiet: "quiet_output base"
    and run: "apply_reconcile_plan (logging_output base) owned plan now e = ((next, progressed, err), e')"
    and d: "d \<in> set (pl_creates plan) \<and> tag = ''create'' \<or> d \<in> u_to ` set (pl_updates plan) \<and> tag = ''update''"
    and log: "entry tag (out_provider base) (d_hostname d) \<in> set (drop (length (env_log e)) (env_log e'))"
  shows "\<exists>prov. managed_of (out_provider base) d prov now \<in> set (owned_of (out_provider base) next)"
proof -
  let ?p = "out_provider base"
  let ?recs = "fold (apply_keep now plan) (pl_next_managed plan)
    (apply_drops plan (index_by managed_record_lineage_key (owned_of ?p owned)))"
  have mem: "d \<in> set (pl_creates plan @ map u_to (pl_updates plan))" using d by auto
  have desired: "d \<in> set desired" using d plan_create_free plan_update_proof unfolding plan by fastforce
  have outs: "\<forall>m \<in> set (pl_next_managed plan). m_output m = out_provider (logging_output base)"
    using plan plan_next_output by simp
  obtain recs where wf: "lineage_wf ?p recs"
    and nxt: "next = snapshot_with_output_records (filter (\<lambda>m. m_output m \<noteq> ?p) (sn_managed_records owned)) recs"
    and calls: "apply_calls (logging_output base) now plan
        \<lparr>ap_world = e, ap_records = ?recs, ap_progressed = False\<rparr> =
      (err, \<lparr>ap_world = e', ap_records = recs, ap_progressed = progressed\<rparr>)"
    by (rule apply_result [OF outs run]) simp
  have "booked ?p now tag (length (env_log e)) d (snd (apply_calls (logging_output base) now plan
      \<lparr>ap_world = e, ap_records = ?recs, ap_progressed = False\<rparr>))"
  proof (rule booked_calls [OF quiet refl])
    show "desired_record_lineage_key ?p d \<notin> moved_lineages plan"
      using desired_not_moved [OF plain hosts desired] unfolding plan .
    show "\<forall>y \<in> set (pl_creates plan) \<union> u_to ` set (pl_updates plan). distinguishable ?p plan d y"
      using plan_distinguishable [OF plan plain hosts mem] by auto
    show "\<forall>x \<in> set (pl_deletes plan). managed_record_lineage_key (del_managed x) \<noteq> desired_record_lineage_key ?p d"
      using plan_delete_proof desired unfolding plan by (metis (no_types, lifting))
    show "tag \<noteq> ''delete''" using d by auto
    show "booked ?p now tag (length (env_log e)) d \<lparr>ap_world = e, ap_records = ?recs, ap_progressed = False\<rparr>"
      by (simp add: booked_def)
  qed
  then obtain prov where look: "fmlookup recs (desired_record_lineage_key ?p d) = Some (managed_of ?p d prov now)"
    using calls log by (auto simp: booked_def on_books_def)
  then have "desired_record_lineage_key ?p d \<in> fset (fmdom recs)" by (simp add: fmlookup_dom_iff)
  then have "managed_of ?p d prov now \<in> set (owned_of ?p next)"
    unfolding nxt using snapshot_own [OF wf] look by force
  then show ?thesis by blast
qed

end
