(* ===== verification/Apply_Witness.thy ===== *)
theory Apply_Witness
  imports Plan_Witness Apply_Ownership
begin

text \<open>
  The apply phase on the example plan, against a server that answers with fresh remote ids and
  against one that refuses deletions.
\<close>

definition ex_port :: "bool \<Rightarrow> nat env output_port" where
  "ex_port deletes =
     \<lparr>out_provider = ex_output,
      out_list_visible = (\<lambda>e. (Inr ex_visible, e)),
      out_create = (\<lambda>d e. (Inr (Some \<lparr>rp_remote_id = CHR ''n'' # itoa (env_world e)\<rparr>), e\<lparr>env_world := Suc (env_world e)\<rparr>)),
      out_update = (\<lambda>v d e. (Inr (v_provenance v), e)),
      out_delete = (\<lambda>v e. (if deletes then Inr () else Inl (ErrText ''refused''), e))\<rparr>"

definition ex_env :: "nat env" where
  "ex_env = \<lparr>env_world = 0, env_clock = 0, env_deadline = None, env_canceled = False, env_log = []\<rparr>"

definition ex_apply :: "bool \<Rightarrow> (snapshot \<times> bool \<times> go_error option) \<times> nat env" where
  "ex_apply deletes = apply_reconcile_plan (logging_output (ex_port deletes)) ex_snapshot ex_plan zero_time ex_env"

lemma quiet_ex_port: "quiet_output (ex_port deletes)"
  by (simp add: quiet_output_def quiet_op_def ex_port_def)

lemma ex_port_provider [simp]: "out_provider (ex_port deletes) = ex_output"
  by (simp add: ex_port_def)

lemma ex_apply_split:
  assumes "snd (snd (fst (ex_apply deletes))) = err"
  obtains "next" progressed e' where
    "apply_reconcile_plan (logging_output (ex_port deletes)) ex_snapshot ex_plan zero_time ex_env = ((next, progressed, err), e')"
    and "ex_apply deletes = ((next, progressed, err), e')"
  using assms unfolding ex_apply_def by (metis prod.collapse)

lemma ex_plan_eq:
  "ex_plan = build_reconcile_plan ex_orders (out_provider (logging_output (ex_port deletes))) ex_desired ex_visible ex_snapshot"
  by (simp add: ex_plan_def)

theorem apply_runs_prefix_witness:
  "env_log (snd (ex_apply False)) =
     [entry ''create'' ex_output ''api.lan'', entry ''update'' ex_output ''web.lan''] \<and>
   (\<exists>n \<le> 3. env_log (snd (ex_apply False)) = take n (planned_entries ex_output ex_plan))"
proof -
  have log: "env_log (snd (ex_apply False)) =
      [entry ''create'' ex_output ''api.lan'', entry ''update'' ex_output ''web.lan'']" by code_simp
  obtain next' progressed e' where
    run: "apply_reconcile_plan (logging_output (ex_port False)) ex_snapshot ex_plan zero_time ex_env =
      ((next', progressed, snd (snd (fst (ex_apply False)))), e')"
    and r: "ex_apply False = ((next', progressed, snd (snd (fst (ex_apply False)))), e')"
    by (rule ex_apply_split [OF refl])
  have "length (planned_entries ex_output ex_plan) = 3" by code_simp
  moreover have "env_log ex_env = []" by (simp add: ex_env_def)
  ultimately have "\<exists>n \<le> 3. env_log e' = take n (planned_entries ex_output ex_plan)"
    using apply_runs_prefix [OF quiet_ex_port run] by auto
  then have "\<exists>n \<le> 3. env_log (snd (ex_apply False)) = take n (planned_entries ex_output ex_plan)"
    using arg_cong [OF r, of snd] by simp
  with log show ?thesis by blast
qed

theorem apply_snapshot_wf_witness:
  "sn_version (fst (fst (ex_apply False))) = 1 \<and>
   distinct (map managed_record_lineage_key (owned_of ex_output (fst (fst (ex_apply False)))))"
proof -
  obtain next' progressed e' where
    run: "apply_reconcile_plan (logging_output (ex_port False)) ex_snapshot ex_plan zero_time ex_env =
      ((next', progressed, snd (snd (fst (ex_apply False)))), e')"
    and r: "ex_apply False = ((next', progressed, snd (snd (fst (ex_apply False)))), e')"
    by (rule ex_apply_split [OF refl])
  show ?thesis
    using apply_snapshot_wf [OF ex_plan_eq run] arg_cong [OF r, of "\<lambda>x. fst (fst x)"]
    by (simp add: snapshot_version_def)
qed

theorem success_owns_mutations_witness:
  "\<exists>prov. managed_of ex_output (ex_wanted ''c2'' ''api'' ''api.lan'' ''10.0.0.2'') prov zero_time \<in>
     set (owned_of ex_output (fst (fst (ex_apply True))))"
proof -
  have ok: "snd (snd (fst (ex_apply True))) = None" by code_simp
  obtain next' progressed e' where
    run: "apply_reconcile_plan (logging_output (ex_port True)) ex_snapshot ex_plan zero_time ex_env =
      ((next', progressed, None), e')"
    and r: "ex_apply True = ((next', progressed, None), e')"
    by (rule ex_apply_split [OF ok])
  have plain: "plain_input (out_provider (logging_output (ex_port True))) ex_desired ex_snapshot"
    and hosts: "distinct_hosts (out_provider (logging_output (ex_port True))) ex_desired"
    by code_simp+
  have "ex_wanted ''c2'' ''api'' ''api.lan'' ''10.0.0.2'' \<in> set (pl_creates ex_plan) \<union> u_to ` set (pl_updates ex_plan)"
    using ex_create_mem by (simp add: ex_plan_def)
  from success_owns_mutations [OF ex_plan_eq plain hosts run this] show ?thesis
    using arg_cong [OF r, of "\<lambda>x. fst (fst x)"] by simp
qed

theorem nothing_forgotten_silently_witness:
  "deletion_logged ex_output ex_plan (managed_record_lineage_key (ex_managed ''c3'' ''old'' ''old.lan'' ''10.0.0.3'' ''r3''))
     0 (snd (ex_apply True))"
proof -
  let ?l = "managed_record_lineage_key (ex_managed ''c3'' ''old'' ''old.lan'' ''10.0.0.3'' ''r3'')"
  obtain next' progressed e' where
    run: "apply_reconcile_plan (logging_output (ex_port True)) ex_snapshot ex_plan zero_time ex_env =
      ((next', progressed, snd (snd (fst (ex_apply True)))), e')"
    and r: "ex_apply True = ((next', progressed, snd (snd (fst (ex_apply True)))), e')"
    by (rule ex_apply_split [OF refl])
  have mem: "ex_managed ''c3'' ''old'' ''old.lan'' ''10.0.0.3'' ''r3'' \<in> set (owned_of (out_provider (ex_port True)) ex_snapshot)"
    by code_simp
  have gone: "?l \<notin> managed_record_lineage_key ` set (owned_of ex_output (fst (fst (ex_apply True))))" by code_simp
  have shown: "\<not> (\<exists>g \<in> set (owned_of ex_output ex_snapshot). managed_record_lineage_key g = ?l \<and>
      visible_with_host ex_output ex_visible (m_hostname g) = [])" by code_simp
  have "\<not> taken_over ex_output ex_desired ex_snapshot ex_plan ?l 0 (snd (ex_apply True))" by code_simp
  then show ?thesis
    using nothing_forgotten_silently [OF _ quiet_ex_port run mem, of ex_orders ex_desired ex_visible]
      ex_plan_eq [of True] gone shown arg_cong [OF r, of "\<lambda>x. fst (fst x)"] arg_cong [OF r, of snd]
    by (simp add: ex_env_def)
qed

end
