(* ===== verification/Json_Text.thy ===== *)
theory Json_Text
  imports Sync_Prelude "HOL-Library.Monad_Syntax"
begin

text \<open>
  The part of \<^verbatim>\<open>encoding/json\<close> that the state store uses: the text that
  \<^verbatim>\<open>MarshalIndent(v, "", "  ")\<close> writes for a document, and a reader for JSON texts. A number
  stays the literal it is written as; a string is its bytes. Bytes from 128 up are copied in
  both directions (Go replaces those that are no UTF-8, and escapes U+2028 and U+2029).
\<close>

datatype json =
    JNull
  | JBool bool
  | JNumber string
  | JString string
  | JArray "json list"
  | JObject "(string \<times> json) list"

section \<open>Writing\<close>

definition hex_digit :: "nat \<Rightarrow> char" where
  "hex_digit n = (if n < 10 then char_of (48 + n) else char_of (87 + n))"

definition json_escape_char :: "char \<Rightarrow> string" where
  "json_escape_char c =
     (if c = CHR 0x22 \<or> c = CHR 0x5C then [CHR 0x5C, c]
      else if c = CHR 0x08 then [CHR 0x5C, CHR ''b'']
      else if c = CHR 0x0C then [CHR 0x5C, CHR ''f'']
      else if c = CHR 0x0A then [CHR 0x5C, CHR ''n'']
      else if c = CHR 0x0D then [CHR 0x5C, CHR ''r'']
      else if c = CHR 0x09 then [CHR 0x5C, CHR ''t'']
      else if (of_char c :: nat) < 32 \<or> c = CHR 0x3C \<or> c = CHR 0x3E \<or> c = CHR 0x26
      then [CHR 0x5C, CHR ''u'', CHR ''0'', CHR ''0'', hex_digit (of_char c div 16), hex_digit (of_char c mod 16)]
      else [c])"

definition json_quote :: "string \<Rightarrow> string" where
  "json_quote s = CHR 0x22 # concat (map json_escape_char s) @ [CHR 0x22]"

definition json_newline :: "nat \<Rightarrow> string" where
  "json_newline depth = CHR 0x0A # replicate (2 * depth) (CHR '' '')"

text \<open>\<open>json_text d v\<close> is the text of the value \<open>v\<close> at depth \<open>d\<close> of the document.\<close>

fun json_text :: "nat \<Rightarrow> json \<Rightarrow> string"
  and json_elements :: "nat \<Rightarrow> json list \<Rightarrow> string"
  and json_members :: "nat \<Rightarrow> (string \<times> json) list \<Rightarrow> string" where
  "json_text d JNull = ''null''"
| "json_text d (JBool b) = (if b then ''true'' else ''false'')"
| "json_text d (JNumber n) = n"
| "json_text d (JString s) = json_quote s"
| "json_text d (JArray []) = ''[]''"
| "json_text d (JArray (v # vs)) =
     CHR ''['' # json_newline (Suc d) @ json_text (Suc d) v @ json_elements (Suc d) vs @ json_newline d @ '']''"
| "json_text d (JObject []) = ''{}''"
| "json_text d (JObject ((k, v) # ms)) =
     CHR ''{'' # json_newline (Suc d) @ json_quote k @ '': '' @ json_text (Suc d) v @
     json_members (Suc d) ms @ json_newline d @ ''}''"
| "json_elements d [] = []"
| "json_elements d (v # vs) = '','' @ json_newline d @ json_text d v @ json_elements d vs"
| "json_members d [] = []"
| "json_members d ((k, v) # ms) =
     '','' @ json_newline d @ json_quote k @ '': '' @ json_text d v @ json_members d ms"

section \<open>Reading\<close>

definition json_space :: "char \<Rightarrow> bool" where
  "json_space c \<longleftrightarrow> c = CHR '' '' \<or> c = CHR 0x09 \<or> c = CHR 0x0A \<or> c = CHR 0x0D"

definition skip_space :: "string \<Rightarrow> string" where
  "skip_space s = dropWhile json_space s"

definition digit_of :: "char \<Rightarrow> nat option" where
  "digit_of c = (if 48 \<le> (of_char c :: nat) \<and> (of_char c :: nat) \<le> 57 then Some (of_char c - 48) else None)"

definition hex_of :: "char \<Rightarrow> nat option" where
  "hex_of c =
     (if 48 \<le> (of_char c :: nat) \<and> (of_char c :: nat) \<le> 57 then Some (of_char c - 48)
      else if 97 \<le> (of_char c :: nat) \<and> (of_char c :: nat) \<le> 102 then Some (of_char c - 87)
      else if 65 \<le> (of_char c :: nat) \<and> (of_char c :: nat) \<le> 70 then Some (of_char c - 55)
      else None)"

text \<open>The UTF-8 encoding of a code point of the basic plane; a surrogate becomes U+FFFD.\<close>

definition utf8 :: "nat \<Rightarrow> string" where
  "utf8 n =
     (if n < 128 then [char_of n]
      else if n < 2048 then [char_of (192 + n div 64), char_of (128 + n mod 64)]
      else if 55296 \<le> n \<and> n < 57344 then [char_of (239 :: nat), char_of (191 :: nat), char_of (189 :: nat)]
      else [char_of (224 + n div 4096), char_of (128 + n div 64 mod 64), char_of (128 + n mod 64)])"

fun json_hex4 :: "string \<Rightarrow> (nat \<times> string) option" where
  "json_hex4 (a # b # c # d # r) =
     do { a' \<leftarrow> hex_of a; b' \<leftarrow> hex_of b; c' \<leftarrow> hex_of c; d' \<leftarrow> hex_of d;
          Some (4096 * a' + 256 * b' + 16 * c' + d', r) }"
| "json_hex4 s = None"

text \<open>What follows a backslash.\<close>

fun json_unescape :: "string \<Rightarrow> (string \<times> string) option" where
  "json_unescape [] = None"
| "json_unescape (c # r) =
     (if c = CHR 0x22 \<or> c = CHR 0x5C \<or> c = CHR ''/'' then Some ([c], r)
      else if c = CHR ''b'' then Some ([CHR 0x08], r)
      else if c = CHR ''f'' then Some ([CHR 0x0C], r)
      else if c = CHR ''n'' then Some ([CHR 0x0A], r)
      else if c = CHR ''r'' then Some ([CHR 0x0D], r)
      else if c = CHR ''t'' then Some ([CHR 0x09], r)
      else if c = CHR ''u'' then do { (n, r') \<leftarrow> json_hex4 r; Some (utf8 n, r') }
      else None)"

lemma json_hex4_length: "json_hex4 s = Some (n, r) \<Longrightarrow> length r < length s"
  by (induction s rule: json_hex4.induct) (auto split: bind_splits)

lemma json_unescape_length: "json_unescape s = Some (w, r) \<Longrightarrow> length r < length s"
  by (cases s) (auto split: bind_splits if_splits dest: json_hex4_length)

text \<open>The rest of a string after its opening quote.\<close>

function json_string :: "string \<Rightarrow> (string \<times> string) option" where
  "json_string [] = None"
| "json_string (c # r) =
     (if c = CHR 0x22 then Some ([], r)
      else if c = CHR 0x5C then
        (case json_unescape r of
           None \<Rightarrow> None
         | Some (w, r') \<Rightarrow> do { (s, r'') \<leftarrow> json_string r'; Some (w @ s, r'') })
      else if (of_char c :: nat) < 32 then None
      else do { (s, r'') \<leftarrow> json_string r; Some (c # s, r'') })"
  by pat_completeness auto
termination by (relation "measure length") (auto dest: json_unescape_length)

definition is_digit :: "char \<Rightarrow> bool" where
  "is_digit c \<longleftrightarrow> 48 \<le> (of_char c :: nat) \<and> (of_char c :: nat) \<le> 57"

definition number_char :: "char \<Rightarrow> bool" where
  "number_char c \<longleftrightarrow> is_digit c \<or> c \<in> {CHR ''-'', CHR ''+'', CHR ''.'', CHR ''e'', CHR ''E''}"

definition json_exponent :: "string \<Rightarrow> bool" where
  "json_exponent s =
     (case s of [] \<Rightarrow> True
      | e # r \<Rightarrow> (e = CHR ''e'' \<or> e = CHR ''E'') \<and>
          (let ds = (case r of c # r' \<Rightarrow> if c = CHR ''+'' \<or> c = CHR ''-'' then r' else r | [] \<Rightarrow> r)
           in ds \<noteq> [] \<and> list_all is_digit ds))"

definition json_fraction :: "string \<Rightarrow> bool" where
  "json_fraction s =
     (case s of
        c # r \<Rightarrow> if c = CHR ''.'' then r \<noteq> [] \<and> is_digit (hd r) \<and> json_exponent (dropWhile is_digit r)
                 else json_exponent s
      | [] \<Rightarrow> True)"

definition json_number :: "string \<Rightarrow> bool" where
  "json_number s =
     (let u = (case s of c # r \<Rightarrow> if c = CHR ''-'' then r else s | [] \<Rightarrow> s)
      in case u of
           [] \<Rightarrow> False
         | c # r \<Rightarrow> if c = CHR ''0'' then json_fraction r
                    else is_digit c \<and> json_fraction (dropWhile is_digit r))"

definition expect :: "string \<Rightarrow> string \<Rightarrow> string option" where
  "expect w s = (if has_prefix s w then Some (drop (length w) s) else None)"

text \<open>
  A value and the rest of the text. The first argument bounds the depth of the calls;
  \<open>json_parse\<close> gives twice the length of the text, and every two nested calls consume a
  character.
\<close>

fun json_value :: "nat \<Rightarrow> string \<Rightarrow> (json \<times> string) option"
  and json_array :: "nat \<Rightarrow> string \<Rightarrow> (json list \<times> string) option"
  and json_object :: "nat \<Rightarrow> string \<Rightarrow> ((string \<times> json) list \<times> string) option" where
  "json_value 0 s = None"
| "json_value (Suc n) s =
     (case skip_space s of
        [] \<Rightarrow> None
      | c # r \<Rightarrow>
          if c = CHR 0x22 then do { (w, r') \<leftarrow> json_string r; Some (JString w, r') }
          else if c = CHR ''['' then
            (case expect '']'' (skip_space r) of
               Some r' \<Rightarrow> Some (JArray [], r')
             | None \<Rightarrow> do { (vs, r') \<leftarrow> json_array n r; Some (JArray vs, r') })
          else if c = CHR ''{'' then
            (case expect ''}'' (skip_space r) of
               Some r' \<Rightarrow> Some (JObject [], r')
             | None \<Rightarrow> do { (ms, r') \<leftarrow> json_object n r; Some (JObject ms, r') })
          else if number_char c then
            (let w = takeWhile number_char (c # r)
             in if json_number w then Some (JNumber w, dropWhile number_char (c # r)) else None)
          else (case expect ''true'' (c # r) of Some r' \<Rightarrow> Some (JBool True, r')
                | None \<Rightarrow> (case expect ''false'' (c # r) of Some r' \<Rightarrow> Some (JBool False, r')
                | None \<Rightarrow> (case expect ''null'' (c # r) of Some r' \<Rightarrow> Some (JNull, r') | None \<Rightarrow> None))))"
| "json_array 0 s = None"
| "json_array (Suc n) s =
     do { (v, r) \<leftarrow> json_value n s;
          (case expect '','' (skip_space r) of
             Some r' \<Rightarrow> do { (vs, r'') \<leftarrow> json_array n r'; Some (v # vs, r'') }
           | None \<Rightarrow> do { r' \<leftarrow> expect '']'' (skip_space r); Some ([v], r') }) }"
| "json_object 0 s = None"
| "json_object (Suc n) s =
     do { r0 \<leftarrow> expect [CHR 0x22] (skip_space s);
          (k, r1) \<leftarrow> json_string r0;
          r2 \<leftarrow> expect '':'' (skip_space r1);
          (v, r) \<leftarrow> json_value n r2;
          (case expect '','' (skip_space r) of
             Some r' \<Rightarrow> do { (ms, r'') \<leftarrow> json_object n r'; Some ((k, v) # ms, r'') }
           | None \<Rightarrow> do { r' \<leftarrow> expect ''}'' (skip_space r); Some ([(k, v)], r') }) }"

definition json_parse :: "string \<Rightarrow> json option" where
  "json_parse s =
     (case json_value (2 * length s + 1) s of
        None \<Rightarrow> None
      | Some (v, r) \<Rightarrow> if skip_space r = [] then Some v else None)"

section \<open>Reading what was written\<close>

lemma digit_char_code: "n < 10 \<Longrightarrow> (of_char (char_of (48 + n) :: char) :: nat) = 48 + n"
  by simp

lemma hex_of_hex_digit [simp]: "n < 16 \<Longrightarrow> hex_of (hex_digit n) = Some n"
  by (simp add: hex_of_def hex_digit_def)

lemma utf8_char: "(of_char c :: nat) < 128 \<Longrightarrow> utf8 (of_char c) = [c]"
  by (simp add: utf8_def)

lemma json_hex4_digits:
  assumes "a < 16" "b < 16"
  shows "json_hex4 (CHR ''0'' # CHR ''0'' # hex_digit a # hex_digit b # t) = Some (16 * a + b, t)"
proof -
  have "hex_of (CHR ''0'') = Some 0" by (simp add: hex_of_def)
  then show ?thesis using assms by simp
qed

lemma json_unescape_u:
  assumes "(of_char c :: nat) < 128"
  shows "json_unescape (CHR ''u'' # CHR ''0'' # CHR ''0'' # hex_digit (of_char c div 16) #
    hex_digit (of_char c mod 16) # t) = Some ([c], t)"
proof -
  have n: "16 * (of_char c div 16) + of_char c mod 16 = (of_char c :: nat)"
    by (rule mult_div_mod_eq)
  have "json_hex4 (CHR ''0'' # CHR ''0'' # hex_digit (of_char c div 16) # hex_digit (of_char c mod 16) # t) =
      Some (of_char c, t)"
    using json_hex4_digits [of "of_char c div 16" "of_char c mod 16" t] assms unfolding n
    by (simp add: less_mult_imp_div_less)
  then show ?thesis using utf8_char [OF assms] by (simp only: json_unescape.simps) simp
qed

lemma json_string_escape:
  "json_string (json_escape_char c @ t) = do { (s, r) \<leftarrow> json_string t; Some (c # s, r) }"
proof -
  define Q where "Q \<longleftrightarrow> c = CHR 0x22 \<or> c = CHR 0x5C"
  define L where "L \<longleftrightarrow> c = CHR 0x08 \<or> c = CHR 0x0C \<or> c = CHR 0x0A \<or> c = CHR 0x0D \<or> c = CHR 0x09"
  define H where "H \<longleftrightarrow> (of_char c :: nat) < 32 \<or> c = CHR 0x3C \<or> c = CHR 0x3E \<or> c = CHR 0x26"
  consider (quoted) Q | (letter) L | (hex) "\<not> Q" "\<not> L" H | (plain) "\<not> Q" "\<not> L" "\<not> H" by blast
  then show ?thesis
  proof cases
    case quoted
    then show ?thesis unfolding Q_def by (elim disjE) (simp_all add: json_escape_char_def)
  next
    case letter
    then show ?thesis unfolding L_def by (elim disjE) (simp_all add: json_escape_char_def)
  next
    case hex
    then have small: "(of_char c :: nat) < 128" unfolding H_def by (elim disjE) simp_all
    have "json_escape_char c = [CHR 0x5C, CHR ''u'', CHR ''0'', CHR ''0'', hex_digit (of_char c div 16),
        hex_digit (of_char c mod 16)]"
      using hex unfolding json_escape_char_def Q_def L_def H_def by (simp only: if_False if_True de_Morgan_disj) simp
    then show ?thesis using json_unescape_u [OF small, of t] by simp
  next
    case plain
    then have "json_escape_char c = [c]"
      unfolding json_escape_char_def Q_def L_def H_def by (simp only: if_False de_Morgan_disj) simp
    moreover have "json_string (c # t) = do { (s, r) \<leftarrow> json_string t; Some (c # s, r) }"
      using plain unfolding Q_def H_def by simp
    ultimately show ?thesis by simp
  qed
qed

lemma json_string_quote: "json_string (concat (map json_escape_char s) @ CHR 0x22 # r) = Some (s, r)"
proof (induction s)
  case Nil
  then show ?case by simp
next
  case (Cons c s)
  then show ?case by (simp add: json_string_escape)
qed

text \<open>
  The documents that can be written: each number is a literal of the grammar. The measure
  bounds the depth of the reader.
\<close>

fun json_ok :: "json \<Rightarrow> bool"
  and json_oks :: "json list \<Rightarrow> bool"
  and json_okm :: "(string \<times> json) list \<Rightarrow> bool" where
  "json_ok (JNumber n) = (json_number n \<and> list_all number_char n)"
| "json_ok (JArray vs) = json_oks vs"
| "json_ok (JObject ms) = json_okm ms"
| "json_ok _ = True"
| "json_oks [] = True"
| "json_oks (v # vs) = (json_ok v \<and> json_oks vs)"
| "json_okm [] = True"
| "json_okm ((k, v) # ms) = (json_ok v \<and> json_okm ms)"

fun json_depth :: "json \<Rightarrow> nat"
  and json_depths :: "json list \<Rightarrow> nat"
  and json_depthm :: "(string \<times> json) list \<Rightarrow> nat" where
  "json_depth (JArray vs) = 1 + json_depths vs"
| "json_depth (JObject ms) = 1 + json_depthm ms"
| "json_depth _ = 1"
| "json_depths [] = 0"
| "json_depths (v # vs) = 1 + json_depth v + json_depths vs"
| "json_depthm [] = 0"
| "json_depthm ((k, v) # ms) = 1 + json_depth v + json_depthm ms"

lemma json_depth_text:
  "json_ok v \<Longrightarrow> json_depth v \<le> 2 * length (json_text d v)"
  "json_oks vs \<Longrightarrow> json_depths vs \<le> 2 * length (json_elements d vs)"
  "json_okm ms \<Longrightarrow> json_depthm ms \<le> 2 * length (json_members d ms)"
proof (induction d v and d vs and d ms rule: json_text_json_elements_json_members.induct)
  case (3 d n)
  then have "n \<noteq> []" by (auto simp: json_number_def Let_def)
  then show ?case by (cases n) auto
qed (auto simp: json_quote_def json_newline_def)

definition value_end :: "string \<Rightarrow> bool" where
  "value_end r \<longleftrightarrow> r = [] \<or> \<not> number_char (hd r)"

lemma skip_space_newline [simp]: "skip_space (json_newline d @ s) = skip_space s"
  by (auto simp: skip_space_def json_newline_def json_space_def dropWhile_append3 dropWhile_append)

lemma skip_space_first: "\<not> json_space c \<Longrightarrow> skip_space (c # s) = c # s"
  by (simp add: skip_space_def)

lemma json_value_skip [simp]: "json_value n (json_newline d @ s) = json_value n s"
  by (cases n) simp_all

lemma expect_same [simp]: "expect w (w @ s) = Some s"
  by (simp add: expect_def has_prefix_def)

lemma expect_first: "expect [x] (y # s) = (if x = y then Some s else None)"
  by (auto simp: expect_def has_prefix_def)

lemma expect_Nil: "expect [x] [] = None"
  by (simp add: expect_def has_prefix_def)

text \<open>How an array or an object continues after a value.\<close>

definition array_rest :: "nat \<Rightarrow> string \<Rightarrow> (json list \<times> string) option" where
  "array_rest n s =
     (case expect '','' (skip_space s) of
        Some r' \<Rightarrow> json_array n r'
      | None \<Rightarrow> do { r' \<leftarrow> expect '']'' (skip_space s); Some ([], r') })"

definition object_rest :: "nat \<Rightarrow> string \<Rightarrow> ((string \<times> json) list \<times> string) option" where
  "object_rest n s =
     (case expect '','' (skip_space s) of
        Some r' \<Rightarrow> json_object n r'
      | None \<Rightarrow> do { r' \<leftarrow> expect ''}'' (skip_space s); Some ([], r') })"

lemma json_array_rest:
  "json_array (Suc n) s = do { (v, r) \<leftarrow> json_value n s; (vs, r') \<leftarrow> array_rest n r; Some (v # vs, r') }"
  by (auto simp: array_rest_def split: option.split bind_split)

lemma json_object_rest:
  "json_object (Suc n) s =
     do { r0 \<leftarrow> expect [CHR 0x22] (skip_space s);
          (k, r1) \<leftarrow> json_string r0;
          r2 \<leftarrow> expect '':'' (skip_space r1);
          (v, r) \<leftarrow> json_value n r2;
          (ms, r') \<leftarrow> object_rest n r;
          Some ((k, v) # ms, r') }"
  by (auto simp: object_rest_def split: option.split bind_split)

declare json_array.simps [simp del] json_object.simps [simp del]

lemma value_end_newline: "value_end (json_newline d @ s)"
  by (simp add: value_end_def json_newline_def number_char_def is_digit_def)

lemma value_end_elements: "value_end (json_elements d vs @ json_newline d' @ s)"
  using value_end_newline [of d' s]
  by (cases vs) (simp_all add: value_end_def number_char_def is_digit_def)

lemma value_end_members: "value_end (json_members d ms @ json_newline d' @ s)"
  using value_end_newline [of d' s]
  by (cases ms) (auto simp: value_end_def number_char_def is_digit_def)

lemma json_value_number:
  assumes "json_number w" "list_all number_char w" "value_end r"
  shows "json_value (Suc n) (w @ r) = Some (JNumber w, r)"
proof -
  obtain c w' where w: "w = c # w'" using assms(1) by (cases w) (auto simp: json_number_def Let_def)
  have c: "number_char c" and tail: "\<forall>x \<in> set w. number_char x"
    using assms(2) w by (auto simp: list_all_iff)
  have "\<not> json_space c"
    using c by (auto simp: json_space_def number_char_def is_digit_def)
  moreover have "c \<noteq> CHR 0x22 \<and> c \<noteq> CHR ''['' \<and> c \<noteq> CHR ''{''"
    using c by (auto simp: number_char_def is_digit_def)
  moreover have "takeWhile number_char (w @ r) = w \<and> dropWhile number_char (w @ r) = r"
    using tail assms(3)
    by (cases r) (auto simp: value_end_def takeWhile_append dropWhile_append)
  ultimately show ?thesis using assms(1) c w by (simp add: skip_space_first)
qed

lemma json_text_first:
  assumes "json_ok v"
  shows "\<exists>c t. json_text d v = c # t \<and> \<not> json_space c \<and> c \<noteq> CHR '']''"
proof (cases v)
  case (JNumber n)
  with assms have "json_number n" "list_all number_char n" by auto
  moreover obtain c w where n: "n = c # w"
    using \<open>json_number n\<close> by (cases n) (auto simp: json_number_def Let_def)
  ultimately have "number_char c" by simp
  then have "\<not> json_space c \<and> c \<noteq> CHR '']''"
    by (auto simp: json_space_def number_char_def is_digit_def)
  with JNumber n show ?thesis by simp
next
  case (JArray vs)
  then show ?thesis by (cases vs) (auto simp: json_space_def)
next
  case (JObject ms)
  then show ?thesis by (cases ms) (auto simp: json_space_def)
qed (auto simp: json_space_def json_quote_def)

lemma json_quote_append: "json_quote s @ r = CHR 0x22 # (concat (map json_escape_char s) @ CHR 0x22 # r)"
  by (simp add: json_quote_def)

lemma json_space_chars [simp]:
  "\<not> json_space CHR 0x22" "\<not> json_space CHR ''[''" "\<not> json_space CHR '']''" "\<not> json_space CHR ''{''"
  "\<not> json_space CHR ''}''" "\<not> json_space CHR '',''" "\<not> json_space CHR '':''" "json_space CHR '' ''"
  by (simp_all add: json_space_def)

lemma array_rest_end: "array_rest n (json_newline d @ CHR '']'' # r) = Some ([], r)"
  by (simp add: array_rest_def skip_space_first expect_first)

lemma object_rest_end: "object_rest n (json_newline d @ CHR ''}'' # r) = Some ([], r)"
  by (simp add: object_rest_def skip_space_first expect_first)

lemma array_rest_more: "array_rest n (CHR '','' # s) = json_array n s"
  by (simp add: array_rest_def skip_space_first expect_first)

lemma object_rest_more: "object_rest n (CHR '','' # s) = json_object n s"
  by (simp add: object_rest_def skip_space_first expect_first)

lemma json_array_skip: "json_array n (json_newline d @ s) = json_array n s"
  by (cases n) (simp_all add: json_array.simps)

lemma json_member_text:
  assumes "json_value n (json_text d v @ s) = Some (v, s)"
  shows "json_object (Suc n) (json_newline d' @ json_quote k @ CHR '':'' # CHR '' '' # json_text d v @ s) =
    do { (ms, r') \<leftarrow> object_rest n s; Some ((k, v) # ms, r') }"
proof -
  have "json_value n (CHR '' '' # json_text d v @ s) = Some (v, s)"
    using assms by (cases n) (simp_all add: skip_space_def)
  then show ?thesis
    by (simp add: json_object_rest json_quote_append skip_space_first expect_first json_string_quote)
qed

lemma json_value_open:
  "\<not> json_space c \<Longrightarrow> c \<noteq> CHR '']'' \<Longrightarrow>
     json_value (Suc n) (CHR ''['' # json_newline d @ c # t) =
       do { (vs, r) \<leftarrow> json_array n (c # t); Some (JArray vs, r) }"
  by (simp add: skip_space_first expect_first json_array_skip)

lemma json_value_open_object:
  "json_value (Suc n) (CHR ''{'' # json_newline d @ json_quote k @ t) =
       do { (ms, r) \<leftarrow> json_object n (json_newline d @ json_quote k @ t); Some (JObject ms, r) }"
  by (simp add: skip_space_first expect_first json_quote_append)

lemma json_value_text:
  "json_ok v \<Longrightarrow> value_end r \<Longrightarrow> json_depth v \<le> n \<Longrightarrow> json_value n (json_text d v @ r) = Some (v, r)"
  "json_oks vs \<Longrightarrow> json_depths vs \<le> n \<Longrightarrow>
     array_rest n (json_elements d vs @ json_newline d' @ CHR '']'' # r) = Some (vs, r)"
  "json_okm ms \<Longrightarrow> json_depthm ms \<le> n \<Longrightarrow>
     object_rest n (json_members d ms @ json_newline d' @ CHR ''}'' # r) = Some (ms, r)"
proof (induction d v and d vs and d ms arbitrary: n r and n r d' and n r d'
    rule: json_text_json_elements_json_members.induct)
  case (1 d)
  then show ?case by (cases n) (simp_all add: skip_space_first json_space_def number_char_def is_digit_def expect_first
      expect_def has_prefix_def)
next
  case (2 d b)
  then show ?case by (cases n) (simp_all add: skip_space_first json_space_def number_char_def is_digit_def
      expect_def has_prefix_def)
next
  case (3 d w)
  then show ?case by (cases n) (simp_all add: json_value_number del: json_value.simps)
next
  case (4 d s)
  then show ?case by (cases n) (simp_all add: json_quote_append skip_space_first json_string_quote)
next
  case (5 d)
  then show ?case by (cases n) (simp_all add: skip_space_first expect_first)
next
  case (6 d v vs)
  obtain m where n: "n = Suc (Suc m)" and m: "json_depth v \<le> m" "json_depths vs \<le> m"
    using 6(5) by (cases n; cases "n - 1") auto
  let ?tail = "json_elements (Suc d) vs @ json_newline d @ CHR '']'' # r"
  obtain c t where first: "json_text (Suc d) v = c # t" "\<not> json_space c" "c \<noteq> CHR '']''"
    using json_text_first 6(3) by fastforce
  have v: "json_value m (json_text (Suc d) v @ ?tail) = Some (v, ?tail)"
    using 6(3) m by (intro 6(1) value_end_elements) auto
  have "json_array (Suc m) (json_text (Suc d) v @ ?tail) = Some (v # vs, r)"
    unfolding json_array_rest v using 6(2) [of m d r] 6(3) m by simp
  then show ?case using json_value_open [OF first(2,3), of "Suc m" "Suc d" "t @ ?tail"] first(1) n by simp
next
  case (7 d)
  then show ?case by (cases n) (simp_all add: skip_space_first expect_first)
next
  case (8 d k v ms)
  obtain m where n: "n = Suc (Suc m)" and m: "json_depth v \<le> m" "json_depthm ms \<le> m"
    using 8(5) by (cases n; cases "n - 1") auto
  let ?tail = "json_members (Suc d) ms @ json_newline d @ CHR ''}'' # r"
  have v: "json_value m (json_text (Suc d) v @ ?tail) = Some (v, ?tail)"
    using 8(3) m by (intro 8(1) value_end_members) auto
  show ?case
    using json_value_open_object [of "Suc m" "Suc d" k] json_member_text [OF v, of "Suc d" k]
      8(2) [of m d r] 8(3) m n by simp
next
  case (9 d)
  then show ?case by (simp add: array_rest_end)
next
  case (10 d v vs)
  obtain m where n: "n = Suc m" and m: "json_depth v \<le> m" "json_depths vs \<le> m"
    using 10(4) by (cases n) auto
  let ?tail = "json_elements d vs @ json_newline d' @ CHR '']'' # r"
  have v: "json_value m (json_text d v @ ?tail) = Some (v, ?tail)"
    using 10(3) m by (intro 10(1) value_end_elements) auto
  have "json_array (Suc m) (json_text d v @ ?tail) = Some (v # vs, r)"
    unfolding json_array_rest v using 10(2) [of m d' r] 10(3) m by simp
  then show ?case using n by (simp add: array_rest_more json_array_skip)
next
  case (11 d)
  then show ?case by (simp add: object_rest_end)
next
  case (12 d k v ms)
  obtain m where n: "n = Suc m" and m: "json_depth v \<le> m" "json_depthm ms \<le> m"
    using 12(4) by (cases n) auto
  let ?tail = "json_members d ms @ json_newline d' @ CHR ''}'' # r"
  have v: "json_value m (json_text d v @ ?tail) = Some (v, ?tail)"
    using 12(3) m by (intro 12(1) value_end_members) auto
  show ?case
    using json_member_text [OF v, of d k] 12(2) [of m d' r] 12(3) m n by (simp add: object_rest_more)
qed

lemma json_parse_text:
  assumes "json_ok v"
  shows "json_parse (json_text 0 v @ [CHR 0x0A]) = Some v"
proof -
  have "value_end [CHR 0x0A]" by (simp add: value_end_def number_char_def is_digit_def)
  then have "json_value (2 * length (json_text 0 v @ [CHR 0x0A]) + 1) (json_text 0 v @ [CHR 0x0A]) = Some (v, [CHR 0x0A])"
    by (rule json_value_text(1) [OF assms]) (use json_depth_text(1) [OF assms, of 0] in simp)
  then show ?thesis by (simp add: json_parse_def skip_space_def json_space_def)
qed

end
