(* ===== verification/Snapshot_Codec.thy ===== *)
theory Snapshot_Codec
  imports Json_Text Contracts
begin

text \<open>
  The JSON form of a snapshot: the struct tags of \<^verbatim>\<open>internal/state/model.go\<close> (the nested
  structs of \<^verbatim>\<open>internal/contracts\<close> have none, so their members carry the Go field names),
  RFC 3339 times as \<^verbatim>\<open>time.Time\<close> writes them, and decoding with the rules of
  \<^verbatim>\<open>encoding/json\<close>: member names match without regard to case, unknown members are skipped,
  absent ones and null leave the field as it is, a value of the wrong type is an error.
  Reading times covers those in UTC, the only ones that are ever written.
\<close>

section \<open>Times\<close>

fun pad_digits :: "nat \<Rightarrow> nat \<Rightarrow> string" where
  "pad_digits 0 n = []"
| "pad_digits (Suc w) n = pad_digits w (n div 10) @ [char_of (48 + n mod 10)]"

definition drop_zeros :: "string \<Rightarrow> string" where
  "drop_zeros s = rev (dropWhile (\<lambda>c. c = CHR ''0'') (rev s))"

definition format_time :: "utc_time \<Rightarrow> string" where
  "format_time t =
     pad_digits 4 (ut_year t) @ ''-'' @ pad_digits 2 (ut_month t) @ ''-'' @ pad_digits 2 (ut_day t) @ ''T'' @
     pad_digits 2 (ut_hour t) @ '':'' @ pad_digits 2 (ut_minute t) @ '':'' @ pad_digits 2 (ut_second t) @
     (if ut_nano t = 0 then [] else ''.'' @ drop_zeros (pad_digits 9 (ut_nano t))) @ ''Z''"

fun digits_value :: "nat \<Rightarrow> string \<Rightarrow> nat option" where
  "digits_value acc [] = Some acc"
| "digits_value acc (c # cs) = do { d \<leftarrow> digit_of c; digits_value (10 * acc + d) cs }"

definition read_digits :: "nat \<Rightarrow> string \<Rightarrow> (nat \<times> string) option" where
  "read_digits w s =
     (if length s < w then None else do { n \<leftarrow> digits_value 0 (take w s); Some (n, drop w s) })"

text \<open>The fraction of a second in nanoseconds: digits beyond the ninth are cut off.\<close>

definition read_fraction :: "string \<Rightarrow> (nat \<times> string) option" where
  "read_fraction s =
     (case expect ''.'' s of
        None \<Rightarrow> Some (0, s)
      | Some r \<Rightarrow>
          (let ds = takeWhile is_digit r
           in if ds = [] then None
              else do { n \<leftarrow> digits_value 0 (take 9 (ds @ replicate 9 (CHR ''0''))); Some (n, dropWhile is_digit r) }))"

definition leap_year :: "nat \<Rightarrow> bool" where
  "leap_year y \<longleftrightarrow> y mod 4 = 0 \<and> (y mod 100 \<noteq> 0 \<or> y mod 400 = 0)"

definition days_in_month :: "nat \<Rightarrow> nat \<Rightarrow> nat" where
  "days_in_month y m = (if m = 2 then (if leap_year y then 29 else 28) else if m \<in> {4, 6, 9, 11} then 30 else 31)"

definition valid_time :: "utc_time \<Rightarrow> bool" where
  "valid_time t \<longleftrightarrow> ut_year t < 10000 \<and> 1 \<le> ut_month t \<and> ut_month t \<le> 12 \<and>
     1 \<le> ut_day t \<and> ut_day t \<le> days_in_month (ut_year t) (ut_month t) \<and>
     ut_hour t < 24 \<and> ut_minute t < 60 \<and> ut_second t < 60 \<and> ut_nano t < 1000000000"

definition parse_time :: "string \<Rightarrow> utc_time option" where
  "parse_time s0 =
     do { (y, s) \<leftarrow> read_digits 4 s0; s \<leftarrow> expect ''-'' s;
          (mo, s) \<leftarrow> read_digits 2 s; s \<leftarrow> expect ''-'' s;
          (d, s) \<leftarrow> read_digits 2 s; s \<leftarrow> expect ''T'' s;
          (h, s) \<leftarrow> read_digits 2 s; s \<leftarrow> expect '':'' s;
          (mi, s) \<leftarrow> read_digits 2 s; s \<leftarrow> expect '':'' s;
          (sec, s) \<leftarrow> read_digits 2 s;
          (n, s) \<leftarrow> read_fraction s;
          let t = \<lparr>ut_year = y, ut_month = mo, ut_day = d, ut_hour = h, ut_minute = mi, ut_second = sec, ut_nano = n\<rparr>;
          if s = ''Z'' \<and> valid_time t then Some t else None }"

lemma length_pad_digits [simp]: "length (pad_digits w n) = w"
  by (induction w arbitrary: n) auto

lemma digit_of_code [simp]: "n < 10 \<Longrightarrow> digit_of (char_of (48 + n :: nat)) = Some n"
  by (simp add: digit_of_def)

lemma digits_value_append:
  "digits_value acc (xs @ ys) = do { n \<leftarrow> digits_value acc xs; digits_value n ys }"
  by (induction xs arbitrary: acc) (auto split: bind_split)

lemma digits_value_pad: "n < 10 ^ w \<Longrightarrow> digits_value acc (pad_digits w n) = Some (acc * 10 ^ w + n)"
proof (induction w arbitrary: n)
  case 0
  then show ?case by simp
next
  case (Suc w)
  then have "n div 10 < 10 ^ w" by (simp add: less_mult_imp_div_less mult.commute)
  then have "digits_value acc (pad_digits w (n div 10)) = Some (acc * 10 ^ w + n div 10)" by (rule Suc.IH)
  moreover have "digit_of (char_of (48 + n mod 10)) = Some (n mod 10)" by (rule digit_of_code) simp
  moreover have "10 * (n div 10) + n mod 10 = n" by simp
  ultimately show ?case by (simp add: digits_value_append algebra_simps)
qed

lemma read_digits_pad [simp]: "n < 10 ^ w \<Longrightarrow> read_digits w (pad_digits w n @ s) = Some (n, s)"
  by (simp add: read_digits_def digits_value_pad)

lemma is_digit_pad: "c \<in> set (pad_digits w n) \<Longrightarrow> is_digit c"
  by (induction w arbitrary: n) (auto simp: is_digit_def)

lemma drop_zeros_split: "\<exists>k. s = drop_zeros s @ replicate k (CHR ''0'')"
proof -
  have "rev s = takeWhile (\<lambda>c. c = CHR ''0'') (rev s) @ dropWhile (\<lambda>c. c = CHR ''0'') (rev s)" by simp
  moreover have "takeWhile (\<lambda>c. c = CHR ''0'') (rev s) =
      replicate (length (takeWhile (\<lambda>c. c = CHR ''0'') (rev s))) (CHR ''0'')"
    by (rule replicate_length_same [symmetric]) (auto dest: set_takeWhileD)
  ultimately have "rev (rev s) = drop_zeros s @ replicate (length (takeWhile (\<lambda>c. c = CHR ''0'') (rev s))) (CHR ''0'')"
    unfolding drop_zeros_def by (metis rev_append rev_replicate)
  then show ?thesis by auto
qed

lemma read_fraction_pad:
  assumes "0 < n" "n < 10 ^ 9"
  shows "read_fraction (''.'' @ drop_zeros (pad_digits 9 n) @ ''Z'') = Some (n, ''Z'')"
proof -
  let ?ds = "drop_zeros (pad_digits 9 n)"
  obtain k where k: "pad_digits 9 n = ?ds @ replicate k (CHR ''0'')" using drop_zeros_split by blast
  have digits: "\<forall>c \<in> set ?ds. is_digit c" using k is_digit_pad by (metis UnCI set_append)
  have len: "length ?ds + k = 9" using arg_cong [OF k, of length] by simp
  have val: "digits_value 0 (?ds @ replicate k (CHR ''0'')) = Some n"
    using digits_value_pad [OF assms(2), of 0] k by simp
  have "replicate (9::nat) (CHR ''0'') = replicate k (CHR ''0'') @ replicate (9 - k) (CHR ''0'')"
    using len by (simp flip: replicate_add)
  then have "take 9 (?ds @ replicate 9 (CHR ''0'')) = ?ds @ replicate k (CHR ''0'')"
    using len by simp
  moreover have "?ds \<noteq> []"
  proof
    assume "?ds = []"
    then have "digits_value 0 (replicate k (CHR ''0'')) = Some n" using val by simp
    moreover have "digits_value 0 (replicate k (CHR ''0'')) = Some 0"
      by (induction k) (simp_all add: digit_of_def)
    ultimately show False using assms(1) by simp
  qed
  moreover have "takeWhile is_digit (?ds @ ''Z'') = ?ds" "dropWhile is_digit (?ds @ ''Z'') = ''Z''"
    using digits by (simp_all add: takeWhile_append dropWhile_append is_digit_def)
  ultimately show ?thesis using val by (simp add: read_fraction_def expect_first Let_def)
qed

lemma parse_format_time:
  assumes "valid_time t"
  shows "parse_time (format_time t) = Some t"
proof -
  have b: "ut_year t < 10 ^ 4" "ut_month t < 10 ^ 2" "ut_day t < 10 ^ 2" "ut_hour t < 10 ^ 2"
      "ut_minute t < 10 ^ 2" "ut_second t < 10 ^ 2"
    using assms by (auto simp: valid_time_def days_in_month_def split: if_splits)
  have "read_fraction ((if ut_nano t = 0 then [] else ''.'' @ drop_zeros (pad_digits 9 (ut_nano t))) @ ''Z'') =
      Some (ut_nano t, ''Z'')"
  proof (cases "ut_nano t = 0")
    case True
    then show ?thesis by (simp add: read_fraction_def expect_first)
  next
    case False
    then show ?thesis using read_fraction_pad [of "ut_nano t"] assms by (simp add: valid_time_def)
  qed
  moreover have "\<lparr>ut_year = ut_year t, ut_month = ut_month t, ut_day = ut_day t, ut_hour = ut_hour t,
      ut_minute = ut_minute t, ut_second = ut_second t, ut_nano = ut_nano t\<rparr> = t" by (cases t) simp
  ultimately show ?thesis
    unfolding parse_time_def format_time_def append_assoc
    by (simp only: read_digits_pad [OF b(1)] read_digits_pad [OF b(2)] read_digits_pad [OF b(3)]
        read_digits_pad [OF b(4)] read_digits_pad [OF b(5)] read_digits_pad [OF b(6)]
        expect_same bind.bind_lunit case_prod_conv) (use assms in \<open>simp add: Let_def\<close>)
qed

section \<open>Writing a snapshot\<close>

definition json_int :: "int \<Rightarrow> json" where
  "json_int i = JNumber (if i < 0 then CHR ''-'' # itoa (nat (- i)) else itoa (nat i))"

definition encode_provider :: "provider_ref \<Rightarrow> json" where
  "encode_provider p = JObject [(''Type'', JString (pr_type p)), (''Name'', JString (pr_name p))]"

definition encode_source :: "source_object_ref \<Rightarrow> json" where
  "encode_source s = JObject
     [(''Provider'', encode_provider (so_provider s)), (''ID'', JString (so_id s)),
      (''DisplayName'', JString (so_display_name s))]"

definition encode_provenance :: "record_provenance \<Rightarrow> json" where
  "encode_provenance p = JObject [(''RemoteID'', JString (rp_remote_id p))]"

definition encode_record :: "managed_record \<Rightarrow> json" where
  "encode_record m = JObject (
     [(''output'', encode_provider (m_output m)), (''source'', encode_source (m_source m)),
      (''hostname'', JString (m_hostname m)), (''answer'', JString (m_answer m))] @
     (case m_provenance m of None \<Rightarrow> [] | Some p \<Rightarrow> [(''provenance'', encode_provenance p)]) @
     [(''last_applied_at'', JString (format_time (m_last_applied_at m)))])"

text \<open>A year that does not fit into four digits makes \<^verbatim>\<open>MarshalJSON\<close> fail.\<close>

definition encode_snapshot :: "snapshot \<Rightarrow> go_error + json" where
  "encode_snapshot s =
     (if list_ex (\<lambda>m. 9999 < ut_year (m_last_applied_at m)) (sn_managed_records s)
      then Inl (ErrText ''Time.MarshalJSON: year outside of range [0,9999]'')
      else Inr (JObject
        [(''version'', json_int (sn_version s)),
         (''managed_records'', JArray (map encode_record (sn_managed_records s)))]))"

section \<open>Reading a snapshot\<close>

definition json_type_error :: go_error where
  "json_type_error = ErrText ''json: cannot unmarshal value''"

definition parse_int64 :: "string \<Rightarrow> int option" where
  "parse_int64 s =
     (let neg = (s \<noteq> [] \<and> hd s = CHR ''-'');
          ds = (if neg then tl s else s)
      in if ds = [] then None
         else do { n \<leftarrow> digits_value 0 ds;
                   let i = (if neg then - int n else int n);
                   if - (2 ^ 63) \<le> i \<and> i < 2 ^ 63 then Some i else None })"

fun decode_string :: "json \<Rightarrow> string \<Rightarrow> go_error + string" where
  "decode_string (JString s) old = Inr s"
| "decode_string JNull old = Inr old"
| "decode_string _ old = Inl json_type_error"

fun decode_int :: "json \<Rightarrow> int \<Rightarrow> go_error + int" where
  "decode_int (JNumber w) old = (case parse_int64 w of None \<Rightarrow> Inl json_type_error | Some i \<Rightarrow> Inr i)"
| "decode_int JNull old = Inr old"
| "decode_int _ old = Inl json_type_error"

fun decode_time :: "json \<Rightarrow> utc_time \<Rightarrow> go_error + utc_time" where
  "decode_time (JString s) old =
     (case parse_time s of None \<Rightarrow> Inl (ErrText ''parsing time'') | Some t \<Rightarrow> Inr t)"
| "decode_time JNull old = Inr old"
| "decode_time _ old = Inl (ErrText ''Time.UnmarshalJSON: input is not a JSON string'')"

text \<open>The members of an object, one after the other, into the fields of a struct.\<close>

fun decode_members ::
  "(string \<Rightarrow> json \<Rightarrow> 'r \<Rightarrow> go_error + 'r) \<Rightarrow> (string \<times> json) list \<Rightarrow> 'r \<Rightarrow> go_error + 'r" where
  "decode_members f [] r = Inr r"
| "decode_members f ((k, v) # ms) r =
     (case f k v r of Inl e \<Rightarrow> Inl e | Inr r' \<Rightarrow> decode_members f ms r')"

definition decode_struct :: "(string \<Rightarrow> json \<Rightarrow> 'r \<Rightarrow> go_error + 'r) \<Rightarrow> json \<Rightarrow> 'r \<Rightarrow> go_error + 'r" where
  "decode_struct f j r =
     (case j of JNull \<Rightarrow> Inr r | JObject ms \<Rightarrow> decode_members f ms r | _ \<Rightarrow> Inl json_type_error)"

definition is_field :: "string \<Rightarrow> string \<Rightarrow> bool" where
  "is_field k nm \<longleftrightarrow> to_lower k = to_lower nm"

definition set_field :: "(go_error + 'a) \<Rightarrow> ('a \<Rightarrow> 'r) \<Rightarrow> go_error + 'r" where
  "set_field x f = (case x of Inl e \<Rightarrow> Inl e | Inr y \<Rightarrow> Inr (f y))"

definition provider_member :: "string \<Rightarrow> json \<Rightarrow> provider_ref \<Rightarrow> go_error + provider_ref" where
  "provider_member k v r =
     (if is_field k ''Type'' then set_field (decode_string v (pr_type r)) (\<lambda>x. r\<lparr>pr_type := x\<rparr>)
      else if is_field k ''Name'' then set_field (decode_string v (pr_name r)) (\<lambda>x. r\<lparr>pr_name := x\<rparr>)
      else Inr r)"

definition source_member :: "string \<Rightarrow> json \<Rightarrow> source_object_ref \<Rightarrow> go_error + source_object_ref" where
  "source_member k v r =
     (if is_field k ''Provider''
      then set_field (decode_struct provider_member v (so_provider r)) (\<lambda>x. r\<lparr>so_provider := x\<rparr>)
      else if is_field k ''ID'' then set_field (decode_string v (so_id r)) (\<lambda>x. r\<lparr>so_id := x\<rparr>)
      else if is_field k ''DisplayName''
      then set_field (decode_string v (so_display_name r)) (\<lambda>x. r\<lparr>so_display_name := x\<rparr>)
      else Inr r)"

definition provenance_member :: "string \<Rightarrow> json \<Rightarrow> record_provenance \<Rightarrow> go_error + record_provenance" where
  "provenance_member k v r =
     (if is_field k ''RemoteID'' then set_field (decode_string v (rp_remote_id r)) (\<lambda>x. r\<lparr>rp_remote_id := x\<rparr>)
      else Inr r)"

text \<open>A pointer: null makes it nil, an object fills the struct it points to, a new one if it was nil.\<close>

definition decode_provenance :: "json \<Rightarrow> record_provenance option \<Rightarrow> go_error + record_provenance option" where
  "decode_provenance j old =
     (if j = JNull then Inr None
      else set_field
        (decode_struct provenance_member j (case old of None \<Rightarrow> \<lparr>rp_remote_id = []\<rparr> | Some p \<Rightarrow> p)) Some)"

definition zero_record :: managed_record where
  "zero_record =
     \<lparr>m_output = \<lparr>pr_type = [], pr_name = []\<rparr>,
      m_source = \<lparr>so_provider = \<lparr>pr_type = [], pr_name = []\<rparr>, so_id = [], so_display_name = []\<rparr>,
      m_hostname = [], m_answer = [], m_provenance = None, m_last_applied_at = zero_time\<rparr>"

definition record_member :: "string \<Rightarrow> json \<Rightarrow> managed_record \<Rightarrow> go_error + managed_record" where
  "record_member k v r =
     (if is_field k ''output''
      then set_field (decode_struct provider_member v (m_output r)) (\<lambda>x. r\<lparr>m_output := x\<rparr>)
      else if is_field k ''source''
      then set_field (decode_struct source_member v (m_source r)) (\<lambda>x. r\<lparr>m_source := x\<rparr>)
      else if is_field k ''hostname'' then set_field (decode_string v (m_hostname r)) (\<lambda>x. r\<lparr>m_hostname := x\<rparr>)
      else if is_field k ''answer'' then set_field (decode_string v (m_answer r)) (\<lambda>x. r\<lparr>m_answer := x\<rparr>)
      else if is_field k ''provenance''
      then set_field (decode_provenance v (m_provenance r)) (\<lambda>x. r\<lparr>m_provenance := x\<rparr>)
      else if is_field k ''last_applied_at''
      then set_field (decode_time v (m_last_applied_at r)) (\<lambda>x. r\<lparr>m_last_applied_at := x\<rparr>)
      else Inr r)"

fun decode_list :: "(json \<Rightarrow> 'r \<Rightarrow> go_error + 'r) \<Rightarrow> 'r \<Rightarrow> json list \<Rightarrow> go_error + 'r list" where
  "decode_list f zero [] = Inr []"
| "decode_list f zero (v # vs) =
     (case f v zero of Inl e \<Rightarrow> Inl e | Inr x \<Rightarrow> set_field (decode_list f zero vs) ((#) x))"

definition decode_records :: "json \<Rightarrow> go_error + managed_record list" where
  "decode_records j =
     (case j of
        JNull \<Rightarrow> Inr []
      | JArray vs \<Rightarrow> decode_list (decode_struct record_member) zero_record vs
      | _ \<Rightarrow> Inl json_type_error)"

definition snapshot_member :: "string \<Rightarrow> json \<Rightarrow> snapshot \<Rightarrow> go_error + snapshot" where
  "snapshot_member k v r =
     (if is_field k ''version'' then set_field (decode_int v (sn_version r)) (\<lambda>x. r\<lparr>sn_version := x\<rparr>)
      else if is_field k ''managed_records''
      then set_field (decode_records v) (\<lambda>x. r\<lparr>sn_managed_records := x\<rparr>)
      else Inr r)"

definition decode_snapshot :: "json \<Rightarrow> go_error + snapshot" where
  "decode_snapshot j = decode_struct snapshot_member j \<lparr>sn_version = 0, sn_managed_records = []\<rparr>"

section \<open>Round trip\<close>

lemma decode_struct_object [simp]: "decode_struct f (JObject ms) r = decode_members f ms r"
  by (simp add: decode_struct_def)

lemma set_field_Inr [simp]: "set_field (Inr x) f = Inr (f x)"
  by (simp add: set_field_def)

text \<open>Which field each member name of the encoder selects.\<close>

lemma field_names:
  "is_field ''Type'' ''Type''" "\<not> is_field ''Name'' ''Type''" "is_field ''Name'' ''Name''"
  "is_field ''Provider'' ''Provider''" "\<not> is_field ''ID'' ''Provider''" "is_field ''ID'' ''ID''"
  "\<not> is_field ''DisplayName'' ''Provider''" "\<not> is_field ''DisplayName'' ''ID''"
  "is_field ''DisplayName'' ''DisplayName''" "is_field ''RemoteID'' ''RemoteID''"
  "is_field ''output'' ''output''"
  "\<not> is_field ''source'' ''output''" "is_field ''source'' ''source''"
  "\<not> is_field ''hostname'' ''output''" "\<not> is_field ''hostname'' ''source''" "is_field ''hostname'' ''hostname''"
  "\<not> is_field ''answer'' ''output''" "\<not> is_field ''answer'' ''source''" "\<not> is_field ''answer'' ''hostname''"
  "is_field ''answer'' ''answer''"
  "\<not> is_field ''provenance'' ''output''" "\<not> is_field ''provenance'' ''source''"
  "\<not> is_field ''provenance'' ''hostname''" "\<not> is_field ''provenance'' ''answer''"
  "is_field ''provenance'' ''provenance''"
  "\<not> is_field ''last_applied_at'' ''output''" "\<not> is_field ''last_applied_at'' ''source''"
  "\<not> is_field ''last_applied_at'' ''hostname''" "\<not> is_field ''last_applied_at'' ''answer''"
  "\<not> is_field ''last_applied_at'' ''provenance''" "is_field ''last_applied_at'' ''last_applied_at''"
  "is_field ''version'' ''version''" "\<not> is_field ''managed_records'' ''version''"
  "is_field ''managed_records'' ''managed_records''"
  by code_simp+

lemma decode_provider_encode [simp]: "decode_struct provider_member (encode_provider p) r = Inr p"
  by (simp add: encode_provider_def provider_member_def field_names)

lemma decode_source_encode [simp]: "decode_struct source_member (encode_source s) r = Inr s"
  by (simp add: encode_source_def source_member_def field_names)

lemma decode_provenance_encode [simp]: "decode_provenance (encode_provenance p) r = Inr (Some p)"
  by (cases r) (simp_all add: encode_provenance_def decode_provenance_def provenance_member_def field_names)

lemma decode_time_format [simp]: "valid_time t \<Longrightarrow> decode_time (JString (format_time t)) old = Inr t"
  by (simp add: parse_format_time)

lemma decode_record_encode:
  "valid_time (m_last_applied_at m) \<Longrightarrow> decode_struct record_member (encode_record m) zero_record = Inr m"
  by (cases "m_provenance m")
    (simp_all add: encode_record_def record_member_def field_names zero_record_def del: decode_time.simps)

lemma decode_list_encode:
  "\<forall>m \<in> set ms. valid_time (m_last_applied_at m) \<Longrightarrow>
     decode_list (decode_struct record_member) zero_record (map encode_record ms) = Inr ms"
  by (induction ms) (simp_all add: decode_record_encode)

lemma digits_value_itoa: "digits_value acc (itoa n) = Some (acc * 10 ^ length (itoa n) + n)"
proof (induction n rule: itoa.induct)
  case (1 n)
  show ?case
  proof (cases "n < 10")
    case True
    then show ?thesis by (simp add: itoa.simps [of n])
  next
    case False
    have "digit_of (char_of (48 + n mod 10)) = Some (n mod 10)" by (rule digit_of_code) simp
    moreover have "10 * (n div 10) + n mod 10 = n" by simp
    ultimately show ?thesis
      using 1 [OF False] False by (simp add: itoa.simps [of n] digits_value_append algebra_simps)
  qed
qed

lemma parse_int64_itoa:
  assumes "n < 2 ^ 63"
  shows "parse_int64 (itoa n) = Some (int n)"
proof -
  have "\<exists>k < 10. hd (itoa n) = char_of (48 + k :: nat)" using itoa_digits itoa_not_Nil hd_in_set by metis
  then obtain k :: nat where k: "k < 10" "hd (itoa n) = char_of (48 + k)" by blast
  have "hd (itoa n) \<noteq> CHR ''-''"
  proof
    assume "hd (itoa n) = CHR ''-''"
    moreover have "(of_char (hd (itoa n)) :: nat) = 48 + k" unfolding k(2) using k(1) by simp
    ultimately have "(of_char (CHR ''-'') :: nat) = 48 + k" by simp
    then show False by simp
  qed
  moreover have "int n < 2 ^ 63" using assms by (metis of_nat_less_iff of_nat_numeral of_nat_power)
  ultimately show ?thesis
    using itoa_not_Nil by (simp add: parse_int64_def Let_def digits_value_itoa)
qed

lemma decode_encode_snapshot:
  assumes "encode_snapshot s = Inr j" "\<forall>m \<in> set (sn_managed_records s). valid_time (m_last_applied_at m)"
    and "sn_version s = snapshot_version"
  shows "decode_snapshot j = Inr s"
proof -
  have "parse_int64 (itoa 1) = Some 1" using parse_int64_itoa [of 1] by simp
  then have "decode_int (json_int (sn_version s)) 0 = Inr 1"
    using assms(3) by (simp add: json_int_def snapshot_version_def)
  then show ?thesis
    using assms decode_list_encode [OF assms(2)]
    by (auto simp: encode_snapshot_def decode_snapshot_def snapshot_member_def field_names decode_records_def
        snapshot_version_def split: if_splits)
qed

text \<open>The documents that the encoder builds are texts that the reader takes.\<close>

lemma json_oks_map: "(\<forall>x \<in> set xs. json_ok (f x)) \<Longrightarrow> json_oks (map f xs)"
  by (induction xs) auto

lemma json_ok_record: "json_ok (encode_record m)"
  by (cases "m_provenance m")
    (simp_all add: encode_record_def encode_provider_def encode_source_def encode_provenance_def)

lemma json_ok_snapshot:
  assumes "encode_snapshot s = Inr j" "sn_version s = snapshot_version"
  shows "json_ok j"
proof -
  have "json_ok (json_int 1)" by code_simp
  then have "json_ok (json_int (sn_version s))" using assms(2) by (simp add: snapshot_version_def)
  then show ?thesis
    using assms(1) by (auto simp: encode_snapshot_def json_ok_record intro!: json_oks_map split: if_splits)
qed

section \<open>Times that are read are valid\<close>

lemma parse_time_valid: "parse_time s = Some t \<Longrightarrow> valid_time t"
  by (auto simp: parse_time_def Let_def split: bind_splits if_splits)

lemma zero_time_valid: "valid_time zero_time"
  by (simp add: valid_time_def zero_time_def days_in_month_def)

lemma decode_time_valid: "decode_time j old = Inr t \<Longrightarrow> valid_time old \<Longrightarrow> valid_time t"
  by (cases j) (auto split: option.splits dest: parse_time_valid)

lemma record_member_valid:
  "record_member k v r = Inr r' \<Longrightarrow> valid_time (m_last_applied_at r) \<Longrightarrow> valid_time (m_last_applied_at r')"
  by (auto simp: record_member_def set_field_def split: if_splits sum.splits dest: decode_time_valid)

lemma decode_members_keeps:
  assumes "\<And>k v r r'. f k v r = Inr r' \<Longrightarrow> P r \<Longrightarrow> P r'"
  shows "decode_members f ms r = Inr r' \<Longrightarrow> P r \<Longrightarrow> P r'"
proof (induction ms arbitrary: r)
  case (Cons m ms)
  then obtain r1 where "f (fst m) (snd m) r = Inr r1" "decode_members f ms r1 = Inr r'"
    by (cases m) (auto split: sum.splits)
  with assms Cons show ?case by blast
qed simp

lemma decode_struct_keeps:
  assumes "\<And>k v r r'. f k v r = Inr r' \<Longrightarrow> P r \<Longrightarrow> P r'" "decode_struct f j r = Inr r'" "P r"
  shows "P r'"
  using assms(2,3) decode_members_keeps [of f P, OF assms(1)]
  by (auto simp: decode_struct_def split: json.splits)

lemma decode_list_all:
  assumes "\<And>v x. f v zero = Inr x \<Longrightarrow> P x"
  shows "decode_list f zero vs = Inr xs \<Longrightarrow> \<forall>x \<in> set xs. P x"
  by (induction vs arbitrary: xs) (auto simp: set_field_def split: sum.splits dest: assms)

lemma decode_records_valid:
  assumes "decode_records j = Inr ms" "m \<in> set ms"
  shows "valid_time (m_last_applied_at m)"
proof -
  have "valid_time (m_last_applied_at x)" if "decode_struct record_member v zero_record = Inr x" for v x
    by (rule decode_struct_keeps [where P = "\<lambda>r. valid_time (m_last_applied_at r)", OF _ that])
      (simp_all add: record_member_valid zero_record_def zero_time_valid)
  from decode_list_all [where P = "\<lambda>x. valid_time (m_last_applied_at x)", OF this] assms show ?thesis
    by (auto simp: decode_records_def split: json.splits)
qed

lemma decode_snapshot_valid:
  assumes "decode_snapshot j = Inr s"
  shows "\<forall>m \<in> set (sn_managed_records s). valid_time (m_last_applied_at m)"
proof (rule decode_struct_keeps [where P = "\<lambda>s. \<forall>m \<in> set (sn_managed_records s). valid_time (m_last_applied_at m)"])
  show "decode_struct snapshot_member j \<lparr>sn_version = 0, sn_managed_records = []\<rparr> = Inr s"
    using assms by (simp add: decode_snapshot_def)
next
  fix k v and r r' :: snapshot
  assume "snapshot_member k v r = Inr r'" "\<forall>m \<in> set (sn_managed_records r). valid_time (m_last_applied_at m)"
  then show "\<forall>m \<in> set (sn_managed_records r'). valid_time (m_last_applied_at m)"
    by (auto simp: snapshot_member_def set_field_def split: if_splits sum.splits dest: decode_records_valid)
qed simp

end
