(* ===== verification/File_Path.thy ===== *)
theory File_Path
  imports Sync_Prelude
begin

text \<open>
  The lexical functions of \<^verbatim>\<open>path/filepath\<close> on Unix that the state store uses, and why a loop
  that goes from a path to its \<^verbatim>\<open>Dir\<close> ends.
\<close>

abbreviation slash :: char where
  "slash \<equiv> CHR ''/''"

text \<open>One element of the path on the stack of the elements kept so far, innermost first.\<close>

definition clean_step :: "bool \<Rightarrow> string \<Rightarrow> string list \<Rightarrow> string list" where
  "clean_step rooted part st =
     (if part = '''' \<or> part = ''.'' then st
      else if part = ''..'' then
        (case st of
           [] \<Rightarrow> if rooted then [] else [''..'']
         | up # rest \<Rightarrow> if up = ''..'' then ''..'' # st else rest)
      else part # st)"

fun join_path :: "string list \<Rightarrow> string" where
  "join_path [] = []"
| "join_path [w] = w"
| "join_path (w # v # ws) = w @ slash # join_path (v # ws)"

definition path_clean :: "string \<Rightarrow> string" where
  "path_clean p =
     (if p = [] then ''.''
      else let rooted = hd p = slash;
               body = join_path (rev (fold (clean_step rooted) (split_on slash p) []))
           in if rooted then slash # body else if body = [] then ''.'' else body)"

definition path_dir :: "string \<Rightarrow> string" where
  "path_dir p = path_clean (rev (dropWhile (\<lambda>c. c \<noteq> slash) (rev p)))"

definition path_base :: "string \<Rightarrow> string" where
  "path_base p =
     (if p = [] then ''.''
      else let q = rev (dropWhile (\<lambda>c. c = slash) (rev p));
               b = rev (takeWhile (\<lambda>c. c \<noteq> slash) (rev q))
           in if b = [] then ''/'' else b)"

section \<open>Dir makes progress\<close>

text \<open>The characters that elements take up, one separator each included.\<close>

definition weight :: "string list \<Rightarrow> nat" where
  "weight ws = sum_list (map (\<lambda>w. Suc (length w)) ws)"

lemma weight_simps [simp]:
  "weight [] = 0" "weight (w # ws) = Suc (length w) + weight ws" "weight (us @ vs) = weight us + weight vs"
  "weight (rev us) = weight us"
  by (simp_all add: weight_def sum_list_rev flip: rev_map)

lemma weight_split: "weight (split_on c s) = Suc (length s)"
  by (induction s) (auto split: list.splits)

lemma split_on_snoc: "split_on c (s @ [c]) = split_on c s @ [[]]"
  by (induction s) (auto split: list.splits)

lemma weight_clean_step: "weight (clean_step rooted part st) \<le> weight st + (if part = [] then 0 else Suc (length part))"
  by (auto simp: clean_step_def split: list.split)

lemma weight_clean_fold:
  "weight (fold (clean_step rooted) parts st) \<le> weight st + weight (filter (\<lambda>w. w \<noteq> []) parts)"
proof (induction parts arbitrary: st)
  case Nil
  then show ?case by simp
next
  case (Cons w parts)
  have "weight (fold (clean_step rooted) (w # parts) st) \<le>
      weight (clean_step rooted w st) + weight (filter (\<lambda>w. w \<noteq> []) parts)"
    using Cons [of "clean_step rooted w st"] by simp
  also have "\<dots> \<le> weight st + weight (filter (\<lambda>w. w \<noteq> []) (w # parts))"
    using weight_clean_step [of rooted w st] by auto
  finally show ?case .
qed

lemma length_join_path: "ws \<noteq> [] \<Longrightarrow> Suc (length (join_path ws)) = weight ws"
  by (induction ws rule: join_path.induct) auto

lemma weight_filter: "weight (filter P ws) \<le> weight ws"
  by (induction ws) auto

lemma length_join_le: "length (join_path ws) \<le> weight ws - 1"
  using length_join_path [of ws] by (cases ws) auto

lemma path_clean_shorter:
  assumes "q = q' @ [slash]"
  shows "path_clean q = ''.'' \<or> path_clean q = ''/'' \<or> length (path_clean q) < length q"
proof (cases "hd q = slash")
  case False
  let ?st = "fold (clean_step False) (split_on slash q) []"
  have "weight ?st \<le> weight (filter (\<lambda>w. w \<noteq> []) (split_on slash q))"
    using weight_clean_fold [of False "split_on slash q" "[]"] by simp
  also have "\<dots> \<le> weight (split_on slash q')"
    using weight_filter unfolding assms split_on_snoc by simp
  finally have "weight ?st \<le> length q" by (simp add: weight_split assms)
  moreover have "0 < length q" by (simp add: assms)
  moreover have "length (join_path (rev ?st)) \<le> weight ?st - 1" using length_join_le [of "rev ?st"] by simp
  ultimately have "length (join_path (rev ?st)) < length q" by linarith
  then show ?thesis using False assms by (simp add: path_clean_def Let_def)
next
  case True
  show ?thesis
  proof (cases q')
    case Nil
    then have "path_clean q = ''/''"
      using assms by (simp add: path_clean_def clean_step_def)
    then show ?thesis by simp
  next
    case (Cons c q'')
    then have c: "c = slash" using True assms by simp
    let ?st = "fold (clean_step True) (split_on slash q) []"
    have "weight ?st \<le> weight (filter (\<lambda>w. w \<noteq> []) (split_on slash q))"
      using weight_clean_fold [of True "split_on slash q" "[]"] by simp
    also have "\<dots> \<le> weight (split_on slash q'')"
      using weight_filter unfolding assms Cons c append_Cons split_on.simps split_on_snoc by simp
    finally have "weight ?st \<le> Suc (length q'')" by (simp add: weight_split)
    then have "length (slash # join_path (rev ?st)) < length q"
      using length_join_le [of "rev ?st"] assms Cons by simp
    then show ?thesis using True assms by (simp add: path_clean_def Let_def)
  qed
qed

lemma path_dir_progress:
  "path_dir p = p \<or> path_dir p = ''.'' \<or> length (path_dir p) < length p"
proof (cases "dropWhile (\<lambda>c. c \<noteq> slash) (rev p)")
  case Nil
  then show ?thesis by (simp add: path_dir_def path_clean_def)
next
  case (Cons c r)
  then have "c = slash" using hd_dropWhile [of "\<lambda>c. c \<noteq> slash" "rev p"] by simp
  let ?q = "rev (dropWhile (\<lambda>c. c \<noteq> slash) (rev p))"
  have q: "?q = rev r @ [slash]" using Cons \<open>c = slash\<close> by simp
  have len: "length ?q \<le> length p" using length_dropWhile_le [of "\<lambda>c. c \<noteq> slash" "rev p"] by simp
  consider "path_clean ?q = ''.''" | "path_clean ?q = ''/''" | "length (path_clean ?q) < length ?q"
    using path_clean_shorter [OF q] by blast
  then show ?thesis
  proof cases
    case 2
    show ?thesis
    proof (cases "length p = 1")
      case True
      then obtain x where "p = [x]" by (cases p) auto
      with q have "p = [slash]" by (cases "x = slash") auto
      with 2 show ?thesis by (simp add: path_dir_def)
    next
      case False
      moreover have "p \<noteq> []" using Cons by auto
      ultimately have "1 < length p" by (cases p) auto
      with 2 show ?thesis by (simp add: path_dir_def)
    qed
  qed (use len in \<open>auto simp: path_dir_def\<close>)
qed

definition path_measure :: "string \<Rightarrow> nat" where
  "path_measure p = (if p = ''.'' then 0 else Suc (length p))"

lemma path_measure_dir: "path_dir p \<noteq> p \<Longrightarrow> path_measure (path_dir p) < path_measure p"
proof -
  assume "path_dir p \<noteq> p"
  moreover have "path_dir ''.'' = ''.''" by (simp add: path_dir_def path_clean_def)
  ultimately show ?thesis using path_dir_progress [of p] by (auto simp: path_measure_def)
qed

end
