(* ===== verification/Atomic_File.thy ===== *)
theory Atomic_File
  imports File_Path Contracts
begin

text \<open>
  \<^verbatim>\<open>internal/state/atomic_file.go\<close> on a model of the file system: files with their contents,
  mode and whether the contents have been flushed, directories, the directories whose entries
  have not been flushed, a script of faults that the coming system calls meet, and the trace of
  all states of the files, which is what another process or a reader after a crash may see.
  Paths are compared as they are written.
\<close>

section \<open>The file system\<close>

record inode =
  fi_data :: string
  fi_mode :: nat
  fi_synced :: bool

record fs =
  fs_files :: "(string, inode) fmap"
  fs_dirs :: "string fset"
  fs_dirty :: "string fset"
  fs_faults :: "(go_error \<times> nat) option list"
  fs_random :: nat
  fs_trace :: "(string, inode) fmap list"

definition os_error :: "string \<Rightarrow> go_error" where
  "os_error msg = ErrForeign \<lparr>fe_message = msg, fe_temporary = None, fe_timeout = None, fe_status = None, fe_codes = []\<rparr>"

definition os_not_exist :: go_error where
  "os_not_exist = os_error ''no such file or directory''"

definition os_is_not_exist :: "go_error \<Rightarrow> bool" where
  "os_is_not_exist e \<longleftrightarrow> e = os_not_exist"

text \<open>
  A system call takes the next entry of the script: a fault is an error together with how much
  of its work the call has done (for a call that has parts).
\<close>

definition syscall ::
  "(nat \<Rightarrow> fs \<Rightarrow> fs) \<Rightarrow> (fs \<Rightarrow> (go_error + 'a) \<times> fs) \<Rightarrow> (fs, 'a) io" where
  "syscall part op fs =
     (case fs_faults fs of
        [] \<Rightarrow> op fs
      | None # rest \<Rightarrow> op (fs\<lparr>fs_faults := rest\<rparr>)
      | Some (e, k) # rest \<Rightarrow> (Inl e, part k (fs\<lparr>fs_faults := rest\<rparr>)))"

definition untouched :: "nat \<Rightarrow> fs \<Rightarrow> fs" where
  "untouched k fs = fs"

definition set_files :: "(string, inode) fmap \<Rightarrow> fs \<Rightarrow> fs" where
  "set_files files fs = fs\<lparr>fs_files := files, fs_trace := fs_trace fs @ [files]\<rparr>"

definition path_exists :: "fs \<Rightarrow> string \<Rightarrow> bool" where
  "path_exists fs p \<longleftrightarrow> p |\<in>| fmdom (fs_files fs) \<or> p |\<in>| fs_dirs fs"

definition os_stat :: "string \<Rightarrow> (fs, unit) io" where
  "os_stat p = syscall untouched (\<lambda>fs. (if path_exists fs p then Inr () else Inl os_not_exist, fs))"

text \<open>The path and its ancestors up to the first that exists, innermost first.\<close>

function missing_ancestors :: "fs \<Rightarrow> string \<Rightarrow> string list" where
  "missing_ancestors fs p =
     (if path_exists fs p then []
      else p # (if path_dir p = p then [] else missing_ancestors fs (path_dir p)))"
  by pat_completeness auto
termination by (relation "measure (\<lambda>(fs, p). path_measure p)") (auto intro: path_measure_dir)

declare missing_ancestors.simps [simp del]

definition make_dirs :: "string list \<Rightarrow> fs \<Rightarrow> fs" where
  "make_dirs ps fs =
     fs\<lparr>fs_dirs := fs_dirs fs |\<union>| fset_of_list ps, fs_dirty := fs_dirty fs |\<union>| fset_of_list (map path_dir ps)\<rparr>"

definition os_mkdir_all :: "string \<Rightarrow> (fs, unit) io" where
  "os_mkdir_all p = syscall
     (\<lambda>k fs. make_dirs (take k (rev (missing_ancestors fs p))) fs)
     (\<lambda>fs. let missing = missing_ancestors fs p;
               base = (if missing = [] then p else path_dir (last missing))
           in if base |\<in>| fmdom (fs_files fs) then (Inl (os_error ''not a directory''), fs)
              else (Inr (), make_dirs missing fs))"

definition os_open_dir :: "string \<Rightarrow> (fs, unit) io" where
  "os_open_dir p = syscall untouched (\<lambda>fs. (if path_exists fs p then Inr () else Inl os_not_exist, fs))"

definition os_sync_dir :: "string \<Rightarrow> (fs, unit) io" where
  "os_sync_dir p = syscall untouched (\<lambda>fs. (Inr (), fs\<lparr>fs_dirty := fs_dirty fs |-| {|p|}\<rparr>))"

text \<open>
  \<^verbatim>\<open>os.CreateTemp(dir, prefix + "*")\<close>: the star becomes a random number, another one when the
  name is taken, for up to ten thousand attempts. The random numbers of a call are taken to be
  consecutive.
\<close>

function fresh_name :: "int \<Rightarrow> fs \<Rightarrow> string \<Rightarrow> nat \<Rightarrow> string option" where
  "fresh_name tries fs pre r =
     (if tries \<le> 0 then None
      else if path_exists fs (pre @ itoa r) then fresh_name (tries - 1) fs pre (Suc r)
      else Some (pre @ itoa r))"
  by pat_completeness auto
termination by (relation "measure (\<lambda>(tries, fs, pre, r). nat tries)") auto

declare fresh_name.simps [simp del]

definition in_dir :: "string \<Rightarrow> string \<Rightarrow> string" where
  "in_dir dir nm = (if has_suffix dir ''/'' then dir @ nm else dir @ ''/'' @ nm)"

definition os_create_temp :: "string \<Rightarrow> string \<Rightarrow> (fs, string) io" where
  "os_create_temp dir pre = syscall untouched
     (\<lambda>fs. if slash \<in> set pre then (Inl (os_error ''pattern contains path separator''), fs)
           else if dir |\<notin>| fs_dirs fs then (Inl os_not_exist, fs)
           else (case fresh_name 10000 fs (in_dir dir pre) (fs_random fs) of
                   None \<Rightarrow> (Inl (os_error ''file exists''), fs)
                 | Some p \<Rightarrow>
                     (Inr p,
                      set_files (fmupd p \<lparr>fi_data = [], fi_mode = 384, fi_synced = False\<rparr> (fs_files fs))
                        (fs\<lparr>fs_random := Suc (fs_random fs), fs_dirty := finsert dir (fs_dirty fs)\<rparr>))))"

text \<open>Operations of an open file, which is named by its path: nobody else moves it.\<close>

definition on_file :: "string \<Rightarrow> (inode \<Rightarrow> inode) \<Rightarrow> fs \<Rightarrow> fs" where
  "on_file p f fs =
     (case fmlookup (fs_files fs) p of None \<Rightarrow> fs | Some x \<Rightarrow> set_files (fmupd p (f x) (fs_files fs)) fs)"

definition os_chmod :: "string \<Rightarrow> nat \<Rightarrow> (fs, unit) io" where
  "os_chmod p mode = syscall untouched (\<lambda>fs. (Inr (), on_file p (\<lambda>x. x\<lparr>fi_mode := mode\<rparr>) fs))"

definition os_write :: "string \<Rightarrow> string \<Rightarrow> (fs, unit) io" where
  "os_write p data = syscall
     (\<lambda>k. on_file p (\<lambda>x. x\<lparr>fi_data := fi_data x @ take k data, fi_synced := False\<rparr>))
     (\<lambda>fs. (Inr (), on_file p (\<lambda>x. x\<lparr>fi_data := fi_data x @ data, fi_synced := False\<rparr>) fs))"

definition os_sync :: "string \<Rightarrow> (fs, unit) io" where
  "os_sync p = syscall untouched (\<lambda>fs. (Inr (), on_file p (\<lambda>x. x\<lparr>fi_synced := True\<rparr>) fs))"

definition os_close :: "(fs, unit) io" where
  "os_close = syscall untouched (\<lambda>fs. (Inr (), fs))"

definition os_rename :: "string \<Rightarrow> string \<Rightarrow> (fs, unit) io" where
  "os_rename a b = syscall untouched
     (\<lambda>fs. case fmlookup (fs_files fs) a of
             None \<Rightarrow> (Inl os_not_exist, fs)
           | Some x \<Rightarrow>
               if b |\<in>| fs_dirs fs then (Inl (os_error ''file exists''), fs)
               else (Inr (), set_files (fmupd b x (fmdrop a (fs_files fs)))
                       (fs\<lparr>fs_dirty := finsert (path_dir b) (fs_dirty fs)\<rparr>)))"

definition os_remove :: "string \<Rightarrow> (fs, unit) io" where
  "os_remove p = syscall untouched
     (\<lambda>fs. if p |\<in>| fmdom (fs_files fs) then (Inr (), set_files (fmdrop p (fs_files fs)) fs)
           else (Inl os_not_exist, fs))"

definition os_read_file :: "string \<Rightarrow> (fs, string) io" where
  "os_read_file p = syscall untouched
     (\<lambda>fs. case fmlookup (fs_files fs) p of
             Some x \<Rightarrow> (Inr (fi_data x), fs)
           | None \<Rightarrow> (Inl (if p |\<in>| fs_dirs fs then os_error ''is a directory'' else os_not_exist), fs))"

section \<open>atomic_file.go\<close>

definition sync_dir :: "string \<Rightarrow> fs \<Rightarrow> go_error option \<times> fs" where
  "sync_dir p fs =
     (case os_open_dir p fs of
        (Inl e, fs1) \<Rightarrow> (Some (ErrWrap ''open state directory: '' e), fs1)
      | (Inr _, fs1) \<Rightarrow>
          (case os_sync_dir p fs1 of
             (Inl e, fs2) \<Rightarrow> (Some (ErrWrap ''sync state directory: '' e), fs2)
           | (Inr _, fs2) \<Rightarrow> (None, fs2)))"

text \<open>
  The loop of \<^verbatim>\<open>missingDirChain\<close>, innermost directory first; the function reverses its result.
\<close>

function missing_dir_loop :: "string \<Rightarrow> fs \<Rightarrow> (go_error + string list) \<times> fs" where
  "missing_dir_loop current fs =
     (case os_stat current fs of
        (Inr _, fs') \<Rightarrow> (Inr [], fs')
      | (Inl e, fs') \<Rightarrow>
          if \<not> os_is_not_exist e then (Inl (ErrWrap ''stat state directory: '' e), fs')
          else if path_dir current = current then (Inr [current], fs')
          else (case missing_dir_loop (path_dir current) fs' of
                  (Inl e', fs'') \<Rightarrow> (Inl e', fs'')
                | (Inr missing, fs'') \<Rightarrow> (Inr (current # missing), fs'')))"
  by pat_completeness auto
termination by (relation "measure (\<lambda>(p, fs). path_measure p)") (auto intro: path_measure_dir)

declare missing_dir_loop.simps [simp del]

definition missing_dir_chain :: "string \<Rightarrow> (fs, string list) io" where
  "missing_dir_chain p fs =
     (case missing_dir_loop p fs of (Inl e, fs') \<Rightarrow> (Inl e, fs') | (Inr missing, fs') \<Rightarrow> (Inr (rev missing), fs'))"

text \<open>
  The steps on the temporary file; those before \<^verbatim>\<open>Close\<close> close the file when they fail.
\<close>

definition step_or_close :: "string \<Rightarrow> (fs, unit) io \<Rightarrow> fs \<Rightarrow> go_error option \<times> fs" where
  "step_or_close what op fs =
     (case op fs of
        (Inl e, fs') \<Rightarrow> (Some (ErrWrap what e), snd (os_close fs'))
      | (Inr _, fs') \<Rightarrow> (None, fs'))"

definition step_or_fail :: "string \<Rightarrow> (fs, unit) io \<Rightarrow> fs \<Rightarrow> go_error option \<times> fs" where
  "step_or_fail what op fs =
     (case op fs of (Inl e, fs') \<Rightarrow> (Some (ErrWrap what e), fs') | (Inr _, fs') \<Rightarrow> (None, fs'))"

definition write_steps :: "string \<Rightarrow> string \<Rightarrow> string \<Rightarrow> nat \<Rightarrow> (fs \<Rightarrow> go_error option \<times> fs) list" where
  "write_steps path tmp data mode =
     [step_or_close ''chmod temp state file: '' (os_chmod tmp mode),
      step_or_close ''write temp state file: '' (os_write tmp data),
      step_or_close ''sync temp state file: '' (os_sync tmp),
      step_or_fail ''close temp state file: '' os_close,
      step_or_fail ''rename temp state file: '' (os_rename tmp path),
      sync_dir (path_dir path)]"

text \<open>The deferred function removes the temporary file unless every step has succeeded.\<close>

definition write_temp :: "string \<Rightarrow> string \<Rightarrow> string \<Rightarrow> nat \<Rightarrow> fs \<Rightarrow> go_error option \<times> fs" where
  "write_temp path tmp data mode fs =
     (case each_until_error (\<lambda>step. step) (write_steps path tmp data mode) fs of
        (None, fs') \<Rightarrow> (None, fs')
      | (Some e, fs') \<Rightarrow> (Some e, snd (os_remove tmp fs')))"

definition atomic_write_file :: "string \<Rightarrow> string \<Rightarrow> nat \<Rightarrow> fs \<Rightarrow> go_error option \<times> fs" where
  "atomic_write_file path data mode fs =
     (case missing_dir_chain (path_dir path) fs of
        (Inl e, fs1) \<Rightarrow> (Some e, fs1)
      | (Inr created, fs1) \<Rightarrow>
     (case os_mkdir_all (path_dir path) fs1 of
        (Inl e, fs2) \<Rightarrow> (Some (ErrWrap ''create state directory: '' e), fs2)
      | (Inr _, fs2) \<Rightarrow>
     (case each_until_error (\<lambda>d. sync_dir (path_dir d)) created fs2 of
        (Some e, fs3) \<Rightarrow> (Some e, fs3)
      | (None, fs3) \<Rightarrow>
     (case os_create_temp (path_dir path) (path_base path @ ''.tmp-'') fs3 of
        (Inl e, fs4) \<Rightarrow> (Some (ErrWrap ''create temp state file: '' e), fs4)
      | (Inr tmp, fs4) \<Rightarrow> write_temp path tmp data mode fs4))))"

end
