(* ===== verification/Atomic_Correct.thy ===== *)
theory Atomic_Correct
  imports Atomic_File
begin

text \<open>
  What readers of the state file can see while it is replaced, whatever the faults: at every
  moment the path holds the old file or the new one, complete and flushed; a call that
  succeeds changes nothing else and leaves no directory entry unflushed.
\<close>

section \<open>System calls\<close>

definition same_disk :: "fs \<Rightarrow> fs \<Rightarrow> bool" where
  "same_disk fs fs' \<longleftrightarrow> fs_files fs' = fs_files fs \<and> fs_trace fs' = fs_trace fs \<and>
     fs_dirs fs' = fs_dirs fs \<and> fs_dirty fs' = fs_dirty fs"

lemma syscall_cases:
  assumes "syscall part op fs = (r, fs')"
  obtains (ok) fs1 where "same_disk fs fs1" "op fs1 = (r, fs')"
    | (fault) fs1 e k where "same_disk fs fs1" "r = Inl e" "fs' = part k fs1"
proof (cases "fs_faults fs")
  case Nil
  with assms show thesis by (intro ok [of fs]) (simp_all add: syscall_def same_disk_def)
next
  case (Cons f rest)
  show thesis
  proof (cases f)
    case None
    with Cons assms show thesis
      by (intro ok [of "fs\<lparr>fs_faults := rest\<rparr>"]) (simp_all add: syscall_def same_disk_def)
  next
    case (Some p)
    obtain e k where "p = (e, k)" by (cases p)
    with Cons Some assms show thesis
      by (intro fault [of "fs\<lparr>fs_faults := rest\<rparr>" e k]) (auto simp: syscall_def same_disk_def)
  qed
qed

text \<open>Only the file at \<open>tmp\<close> has changed, in every state on the way.\<close>

definition touches :: "string \<Rightarrow> fs \<Rightarrow> fs \<Rightarrow> bool" where
  "touches tmp fs fs' \<longleftrightarrow>
     (\<forall>q. q \<noteq> tmp \<longrightarrow> fmlookup (fs_files fs') q = fmlookup (fs_files fs) q) \<and>
     (\<exists>ts. fs_trace fs' = fs_trace fs @ ts \<and>
        (\<forall>t \<in> set ts. \<forall>q. q \<noteq> tmp \<longrightarrow> fmlookup t q = fmlookup (fs_files fs) q))"

text \<open>The same, except that at some moment the path got the new file.\<close>

definition replaces :: "string \<Rightarrow> string \<Rightarrow> inode \<Rightarrow> fs \<Rightarrow> fs \<Rightarrow> bool" where
  "replaces path tmp new fs fs' \<longleftrightarrow>
     fs_files fs' = fmupd path new (fmdrop tmp (fs_files fs)) \<and>
     (\<exists>ts. fs_trace fs' = fs_trace fs @ ts \<and>
        (\<forall>t \<in> set ts. (\<forall>q. q \<noteq> tmp \<longrightarrow> q \<noteq> path \<longrightarrow> fmlookup t q = fmlookup (fs_files fs) q) \<and>
           (fmlookup t path = fmlookup (fs_files fs) path \<or> fmlookup t path = Some new)))"

lemma touches_refl: "same_disk fs fs' \<Longrightarrow> touches tmp fs fs'"
  by (simp add: touches_def same_disk_def)

lemma touches_trans:
  assumes "touches tmp fs1 fs2" "touches tmp fs2 fs3"
  shows "touches tmp fs1 fs3"
proof -
  obtain ts us where "fs_trace fs2 = fs_trace fs1 @ ts" "fs_trace fs3 = fs_trace fs2 @ us"
    "\<forall>t \<in> set ts. \<forall>q. q \<noteq> tmp \<longrightarrow> fmlookup t q = fmlookup (fs_files fs1) q"
    "\<forall>t \<in> set us. \<forall>q. q \<noteq> tmp \<longrightarrow> fmlookup t q = fmlookup (fs_files fs2) q"
    using assms unfolding touches_def by blast
  then show ?thesis using assms unfolding touches_def by (intro conjI exI [of _ "ts @ us"]) auto
qed

lemma touches_after: "same_disk fs fs1 \<Longrightarrow> touches tmp fs1 fs' \<Longrightarrow> touches tmp fs fs'"
  by (simp add: touches_def same_disk_def)

lemma on_file_lookup:
  "fmlookup (fs_files fs) p = Some x \<Longrightarrow> fmlookup (fs_files (on_file p f fs)) p = Some (f x)"
  by (simp add: on_file_def set_files_def)

lemma on_file_dirty [simp]: "fs_dirty (on_file p f fs) = fs_dirty fs"
  by (simp add: on_file_def set_files_def split: option.split)

lemma touches_on_file: "touches tmp fs (on_file tmp f fs)"
  by (auto simp: touches_def on_file_def set_files_def split: option.split)

lemma same_disk_trans: "same_disk fs1 fs2 \<Longrightarrow> same_disk fs2 fs3 \<Longrightarrow> same_disk fs1 fs3"
  by (simp add: same_disk_def)

lemma same_disk_stat: "same_disk fs (snd (os_stat p fs))"
  unfolding os_stat_def
  by (cases "syscall untouched (\<lambda>fs. (if path_exists fs p then Inr () else Inl os_not_exist, fs)) fs")
    (auto elim!: syscall_cases simp: untouched_def)

lemma same_disk_close: "same_disk fs (snd (os_close fs))"
  unfolding os_close_def
  by (cases "syscall untouched (\<lambda>fs. (Inr (), fs)) fs") (auto elim!: syscall_cases simp: untouched_def)

lemma same_disk_open_dir: "same_disk fs (snd (os_open_dir p fs))"
  unfolding os_open_dir_def
  by (cases "syscall untouched (\<lambda>fs. (if path_exists fs p then Inr () else Inl os_not_exist, fs)) fs")
    (auto elim!: syscall_cases simp: untouched_def)

text \<open>What the operations on an open file do.\<close>

lemma chmod_effect:
  assumes "os_chmod p m fs = (r, fs')" "fmlookup (fs_files fs) p = Some x"
  shows "touches p fs fs' \<and> (\<forall>y. r = Inr y \<longrightarrow> fmlookup (fs_files fs') p = Some (x\<lparr>fi_mode := m\<rparr>) \<and> fs_dirty fs' = fs_dirty fs)"
  using assms(1) unfolding os_chmod_def
proof (cases rule: syscall_cases)
  case (ok fs1)
  then have "fmlookup (fs_files fs1) p = Some x" using assms(2) by (simp add: same_disk_def)
  then show ?thesis using ok on_file_lookup touches_after [OF ok(1) touches_on_file] by (auto simp: same_disk_def)
next
  case (fault fs1 e k)
  then show ?thesis by (simp add: untouched_def touches_refl)
qed

lemma write_effect:
  assumes "os_write p d fs = (r, fs')" "fmlookup (fs_files fs) p = Some x"
  shows "touches p fs fs' \<and>
    (\<forall>y. r = Inr y \<longrightarrow> fmlookup (fs_files fs') p = Some (x\<lparr>fi_data := fi_data x @ d, fi_synced := False\<rparr>) \<and>
      fs_dirty fs' = fs_dirty fs)"
  using assms(1) unfolding os_write_def
proof (cases rule: syscall_cases)
  case (ok fs1)
  then have "fmlookup (fs_files fs1) p = Some x" using assms(2) by (simp add: same_disk_def)
  then show ?thesis using ok on_file_lookup touches_after [OF ok(1) touches_on_file] by (auto simp: same_disk_def)
next
  case (fault fs1 e k)
  then show ?thesis using touches_after [OF fault(1) touches_on_file] by simp
qed

lemma sync_effect:
  assumes "os_sync p fs = (r, fs')" "fmlookup (fs_files fs) p = Some x"
  shows "touches p fs fs' \<and> (\<forall>y. r = Inr y \<longrightarrow> fmlookup (fs_files fs') p = Some (x\<lparr>fi_synced := True\<rparr>) \<and> fs_dirty fs' = fs_dirty fs)"
  using assms(1) unfolding os_sync_def
proof (cases rule: syscall_cases)
  case (ok fs1)
  then have "fmlookup (fs_files fs1) p = Some x" using assms(2) by (simp add: same_disk_def)
  then show ?thesis using ok on_file_lookup touches_after [OF ok(1) touches_on_file] by (auto simp: same_disk_def)
next
  case (fault fs1 e k)
  then show ?thesis by (simp add: untouched_def touches_refl)
qed

lemma touches_remove: "touches p fs (snd (os_remove p fs))"
proof -
  obtain r fs' where r: "os_remove p fs = (r, fs')" by fastforce
  then have "touches p fs fs'" unfolding os_remove_def
  proof (cases rule: syscall_cases)
    case (ok fs1)
    have "touches p fs1 fs'"
      using ok(2) by (auto simp: touches_def set_files_def split: if_splits)
    then show ?thesis by (rule touches_after [OF ok(1)])
  next
    case (fault fs1 e k)
    then show ?thesis by (simp add: untouched_def touches_refl)
  qed
  with r show ?thesis by simp
qed

lemma rename_effect:
  assumes "os_rename a b fs = (r, fs')" "fmlookup (fs_files fs) a = Some x"
  shows "(\<forall>y. r = Inr y \<longrightarrow>
      fs_files fs' = fmupd b x (fmdrop a (fs_files fs)) \<and> fs_trace fs' = fs_trace fs @ [fs_files fs'] \<and>
      fs_dirty fs' = finsert (path_dir b) (fs_dirty fs)) \<and>
    (\<forall>e. r = Inl e \<longrightarrow> same_disk fs fs')"
  using assms(1) unfolding os_rename_def
proof (cases rule: syscall_cases)
  case (ok fs1)
  have look: "fmlookup (fs_files fs1) a = Some x" using assms(2) ok(1) by (simp add: same_disk_def)
  show ?thesis
  proof (cases "b |\<in>| fs_dirs fs1")
    case True
    then have "r = Inl (os_error ''file exists'')" "fs' = fs1" using ok(2) look by simp_all
    with ok(1) show ?thesis by simp
  next
    case False
    then have "r = Inr ()" "fs' = set_files (fmupd b x (fmdrop a (fs_files fs1)))
        (fs1\<lparr>fs_dirty := finsert (path_dir b) (fs_dirty fs1)\<rparr>)" using ok(2) look by simp_all
    with ok(1) show ?thesis by (simp add: same_disk_def set_files_def)
  qed
next
  case (fault fs1 e k)
  then show ?thesis by (simp add: untouched_def)
qed

section \<open>The steps on the temporary file\<close>

lemma step_or_close_effect:
  assumes "step_or_close what op fs = (e, fs')"
    and "\<And>r s. op fs = (r, s) \<Longrightarrow> touches tmp fs s \<and> (\<forall>y. r = Inr y \<longrightarrow> P s)"
  shows "touches tmp fs fs' \<and> (e = None \<longrightarrow> P fs')"
proof -
  obtain r s where op: "op fs = (r, s)" by fastforce
  have "touches tmp s (snd (os_close s))" by (rule touches_refl [OF same_disk_close])
  with assms op show ?thesis using touches_trans
    by (cases r) (fastforce simp: step_or_close_def)+
qed

lemma step_or_fail_effect:
  assumes "step_or_fail what op fs = (e, fs')"
    and "\<And>r s. op fs = (r, s) \<Longrightarrow> touches tmp fs s \<and> (\<forall>y. r = Inr y \<longrightarrow> P s)"
  shows "touches tmp fs fs' \<and> (e = None \<longrightarrow> P fs')"
  using assms by (auto simp: step_or_fail_def split: prod.splits sum.splits)

lemma then_step:
  assumes "each_until_error (\<lambda>step. step) (step # steps) fs = (e, fs')"
    and "\<And>e1 s. step fs = (e1, s) \<Longrightarrow> touches tmp fs s \<and> (e1 = None \<longrightarrow> P s)"
    and "\<And>s. P s \<Longrightarrow> each_until_error (\<lambda>step. step) steps s = (e, fs') \<Longrightarrow> touches tmp s fs' \<and> (e = None \<longrightarrow> Q)"
  shows "touches tmp fs fs' \<and> (e = None \<longrightarrow> Q)"
proof -
  obtain e1 s where step: "step fs = (e1, s)" by fastforce
  show ?thesis
  proof (cases e1)
    case None
    have "touches tmp fs s" "P s" using assms(2) [OF step] None by simp_all
    moreover have "each_until_error (\<lambda>step. step) steps s = (e, fs')" using assms(1) step None by simp
    ultimately show ?thesis using assms(3) touches_trans by blast
  next
    case (Some x)
    then have "e = e1" "fs' = s" using assms(1) step by simp_all
    then show ?thesis using assms(2) [OF step] Some by simp
  qed
qed

definition prepare_steps :: "string \<Rightarrow> string \<Rightarrow> nat \<Rightarrow> (fs \<Rightarrow> go_error option \<times> fs) list" where
  "prepare_steps tmp data mode =
     [step_or_close ''chmod temp state file: '' (os_chmod tmp mode),
      step_or_close ''write temp state file: '' (os_write tmp data),
      step_or_close ''sync temp state file: '' (os_sync tmp),
      step_or_fail ''close temp state file: '' os_close]"

lemma prepare_effect:
  assumes run: "each_until_error (\<lambda>step. step) (prepare_steps tmp data mode) fs = (e, fs')"
    and content: "fmlookup (fs_files fs) tmp = Some x" "fi_data x = []"
  shows "touches tmp fs fs' \<and> (e = None \<longrightarrow>
    fmlookup (fs_files fs') tmp = Some \<lparr>fi_data = data, fi_mode = mode, fi_synced = True\<rparr> \<and>
    fs_dirty fs' = fs_dirty fs)"
  using run unfolding prepare_steps_def
proof (rule then_step [where P = "\<lambda>s. fmlookup (fs_files s) tmp = Some (x\<lparr>fi_mode := mode\<rparr>) \<and> fs_dirty s = fs_dirty fs"],
    goal_cases)
  case (1 e1 s)
  then show ?case by (rule step_or_close_effect) (use chmod_effect content in blast)
next
  case (2 s)
  note look = 2(1) [THEN conjunct1] and dirty = 2(1) [THEN conjunct2]
  from 2(2) show ?case
  proof (rule then_step [where P = "\<lambda>s. fmlookup (fs_files s) tmp =
      Some \<lparr>fi_data = data, fi_mode = mode, fi_synced = False\<rparr> \<and> fs_dirty s = fs_dirty fs"], goal_cases)
    case (1 e1 s')
    have "x\<lparr>fi_mode := mode, fi_data := data, fi_synced := False\<rparr> = \<lparr>fi_data = data, fi_mode = mode, fi_synced = False\<rparr>"
      by simp
    with 1 show ?case
      by - (rule step_or_close_effect, assumption, use write_effect [OF _ look] content dirty in fastforce)
  next
    case (2 s')
    note look = 2(1) [THEN conjunct1] and dirty = 2(1) [THEN conjunct2]
    from 2(2) show ?case
    proof (rule then_step [where P = "\<lambda>s. fmlookup (fs_files s) tmp =
        Some \<lparr>fi_data = data, fi_mode = mode, fi_synced = True\<rparr> \<and> fs_dirty s = fs_dirty fs"], goal_cases)
      case (1 e1 s1)
      then show ?case
        by (rule step_or_close_effect) (use sync_effect [OF _ look] dirty in fastforce)
    next
      case (2 s1)
      obtain e1 s2 where close: "step_or_fail ''close temp state file: '' os_close s1 = (e1, s2)" by fastforce
      have "same_disk s1 s2"
        using same_disk_close [of s1] close by (auto simp: step_or_fail_def split: prod.splits sum.splits)
      moreover have "e = e1" "fs' = s2" using 2(2) close by (auto split: option.splits)
      ultimately show ?case using 2(1) touches_refl by (auto simp: same_disk_def)
    qed
  qed
qed

section \<open>The replacement\<close>

definition same_files :: "fs \<Rightarrow> fs \<Rightarrow> bool" where
  "same_files fs fs' \<longleftrightarrow> fs_files fs' = fs_files fs \<and> fs_trace fs' = fs_trace fs"

lemma same_disk_files: "same_disk fs fs' \<Longrightarrow> same_files fs fs'"
  by (simp add: same_disk_def same_files_def)

lemma same_files_trans: "same_files fs1 fs2 \<Longrightarrow> same_files fs2 fs3 \<Longrightarrow> same_files fs1 fs3"
  by (simp add: same_files_def)

lemma touches_same: "touches tmp fs fs' \<Longrightarrow> same_files fs' fs'' \<Longrightarrow> touches tmp fs fs''"
  by (simp add: touches_def same_files_def)

lemma replaces_same: "replaces path tmp new fs fs' \<Longrightarrow> same_files fs' fs'' \<Longrightarrow> replaces path tmp new fs fs''"
  by (simp add: replaces_def same_files_def)

lemma sync_dir_effect:
  assumes "sync_dir p fs = (e, fs')"
  shows "same_files fs fs' \<and> fs_dirty fs' |\<subseteq>| fs_dirty fs \<and> fs_dirs fs' = fs_dirs fs \<and>
    (e = None \<longrightarrow> fs_dirty fs' = fs_dirty fs |-| {|p|})"
proof -
  obtain r1 s1 where open_dir: "os_open_dir p fs = (r1, s1)" by fastforce
  have same: "same_disk fs s1" using same_disk_open_dir [of fs p] open_dir by simp
  show ?thesis
  proof (cases r1)
    case (Inl e1)
    then have "e \<noteq> None" "fs' = s1" using assms open_dir by (auto simp: sync_dir_def)
    with same show ?thesis by (auto simp: same_disk_def same_files_def)
  next
    case (Inr y)
    obtain r2 s2 where sync: "os_sync_dir p s1 = (r2, s2)" by fastforce
    have e: "(e = None) = (\<exists>y. r2 = Inr y)" "fs' = s2"
      using assms open_dir Inr sync by (auto simp: sync_dir_def split: sum.splits)
    show ?thesis
      using sync unfolding os_sync_dir_def
    proof (cases rule: syscall_cases)
      case (ok fs1)
      then have "r2 = Inr ()" "fs' = fs1\<lparr>fs_dirty := fs_dirty fs1 |-| {|p|}\<rparr>" using e by simp_all
      with same ok(1) show ?thesis by (auto simp: same_disk_def same_files_def)
    next
      case (fault fs1 e1 k)
      then have "e \<noteq> None" "fs' = fs1" using e by (simp_all add: untouched_def)
      with same fault(1) show ?thesis by (auto simp: same_disk_def same_files_def)
    qed
  qed
qed

lemma remove_absent:
  assumes "fmlookup (fs_files fs) p = None"
  shows "same_files fs (snd (os_remove p fs))"
proof -
  obtain r fs' where r: "os_remove p fs = (r, fs')" by fastforce
  then have "same_files fs fs'" unfolding os_remove_def
  proof (cases rule: syscall_cases)
    case (ok fs1)
    then have "p |\<notin>| fmdom (fs_files fs1)" using assms by (simp add: same_disk_def fmdom_notI)
    with ok show ?thesis by (simp add: same_disk_files)
  next
    case (fault fs1 e k)
    then show ?thesis by (simp add: untouched_def same_disk_files)
  qed
  with r show ?thesis by simp
qed

lemma rename_replaces:
  assumes "touches tmp fs s" "tmp \<noteq> path"
    and "fs_files s' = fmupd path new (fmdrop tmp (fs_files s))" "fs_trace s' = fs_trace s @ [fs_files s']"
  shows "replaces path tmp new fs s'"
proof -
  obtain ts where ts: "fs_trace s = fs_trace fs @ ts" "\<forall>t \<in> set ts. \<forall>q. q \<noteq> tmp \<longrightarrow> fmlookup t q = fmlookup (fs_files fs) q"
    using assms(1) unfolding touches_def by blast
  have "fs_files s' = fmupd path new (fmdrop tmp (fs_files fs))"
    unfolding assms(3) by (rule fmap_ext) (use assms(1) in \<open>simp add: touches_def\<close>)
  moreover from this have "fmlookup (fs_files s') path = Some new"
    "\<forall>q. q \<noteq> tmp \<longrightarrow> q \<noteq> path \<longrightarrow> fmlookup (fs_files s') q = fmlookup (fs_files fs) q" by simp_all
  ultimately show ?thesis
    unfolding replaces_def using ts assms(2,4) by (intro conjI exI [of _ "ts @ [fs_files s']"]) auto
qed

lemma write_temp_effect:
  fixes data mode
  defines "new \<equiv> \<lparr>fi_data = data, fi_mode = mode, fi_synced = True\<rparr>"
  assumes run: "write_temp path tmp data mode fs = (e, fs')"
    and content: "fmlookup (fs_files fs) tmp = Some x" "fi_data x = []" and other: "tmp \<noteq> path"
  shows "(e = None \<longrightarrow> replaces path tmp new fs fs' \<and> fs_dirty fs' = fs_dirty fs |-| {|path_dir path|}) \<and>
    (e \<noteq> None \<longrightarrow> touches tmp fs fs' \<or> replaces path tmp new fs fs')"
proof -
  have steps: "write_steps path tmp data mode = prepare_steps tmp data mode @
      [step_or_fail ''rename temp state file: '' (os_rename tmp path), sync_dir (path_dir path)]"
    by (simp add: write_steps_def prepare_steps_def)
  obtain e1 s1 where prep: "each_until_error (\<lambda>step. step) (prepare_steps tmp data mode) fs = (e1, s1)" by fastforce
  note eff = prepare_effect [OF prep content]
  have removed: "touches tmp fs (snd (os_remove tmp s))" if "touches tmp fs s" for s
    using touches_trans [OF that touches_remove] .
  show ?thesis
  proof (cases e1)
    case (Some x1)
    then have "e = e1" "fs' = snd (os_remove tmp s1)"
      using run prep by (simp_all add: write_temp_def steps each_until_error_append)
    with Some eff removed show ?thesis by blast
  next
    case None
    have look: "fmlookup (fs_files s1) tmp = Some new" and dirty: "fs_dirty s1 = fs_dirty fs"
      using eff None by (simp_all add: new_def)
    obtain r2 s2 where ren: "os_rename tmp path s1 = (r2, s2)" by fastforce
    note reff = rename_effect [OF ren look]
    show ?thesis
    proof (cases r2)
      case (Inl e2)
      then have "e \<noteq> None" "fs' = snd (os_remove tmp s2)"
        using run prep None ren by (auto simp: write_temp_def steps each_until_error_append step_or_fail_def)
      moreover have "touches tmp fs s2"
        using eff reff Inl touches_same same_disk_files by blast
      ultimately show ?thesis using removed by auto
    next
      case (Inr y)
      have rep: "replaces path tmp new fs s2" using eff reff Inr rename_replaces other by blast
      have dirty2: "fs_dirty s2 = finsert (path_dir path) (fs_dirty fs)" using reff Inr dirty by simp
      obtain e3 s3 where sync: "sync_dir (path_dir path) s2 = (e3, s3)" by fastforce
      note seff = sync_dir_effect [OF sync]
      have rep3: "replaces path tmp new fs s3" using rep seff replaces_same by blast
      show ?thesis
      proof (cases e3)
        case None3: None
        then have "e = None" "fs' = s3"
          using run prep None ren Inr sync
          by (simp_all add: write_temp_def steps each_until_error_append step_or_fail_def)
        with rep3 seff None3 dirty2 show ?thesis by auto
      next
        case (Some x3)
        then have e: "e \<noteq> None" "fs' = snd (os_remove tmp s3)"
          using run prep None ren Inr sync
          by (auto simp: write_temp_def steps each_until_error_append step_or_fail_def)
        have "fmlookup (fs_files s3) tmp = None" using rep3 other by (simp add: replaces_def)
        then have "replaces path tmp new fs fs'" using replaces_same [OF rep3 remove_absent] e(2) by simp
        with e(1) show ?thesis by auto
      qed
    qed
  qed
qed

section \<open>The directories and the name\<close>

lemma path_exists_same: "same_disk fs fs' \<Longrightarrow> path_exists fs' p = path_exists fs p"
  by (simp add: same_disk_def path_exists_def)

lemma missing_ancestors_same: "same_disk fs fs' \<Longrightarrow> missing_ancestors fs' p = missing_ancestors fs p"
proof (induction fs p rule: missing_ancestors.induct)
  case (1 fs p)
  then show ?case
    by (subst (1 2) missing_ancestors.simps) (simp add: path_exists_same)
qed

lemma missing_dir_loop_effect:
  "missing_dir_loop p fs = (r, fs') \<Longrightarrow>
     same_disk fs fs' \<and> (\<forall>ms. r = Inr ms \<longrightarrow> set (missing_ancestors fs p) \<subseteq> set ms)"
proof (induction p fs arbitrary: r fs' rule: missing_dir_loop.induct)
  case (1 p fs)
  obtain r1 s1 where stat: "os_stat p fs = (r1, s1)" by fastforce
  have same: "same_disk fs s1" using same_disk_stat [of fs p] stat by simp
  show ?case
  proof (cases r1)
    case (Inr y)
    have "path_exists fs p"
      using stat Inr unfolding os_stat_def
      by (elim syscall_cases) (auto simp: path_exists_same split: if_splits)
    then have "missing_ancestors fs p = []" by (subst missing_ancestors.simps) simp
    with 1(2) stat Inr same show ?thesis by (simp add: missing_dir_loop.simps [of p])
  next
    case (Inl e)
    have anc: "set (missing_ancestors fs p) \<subseteq>
        insert p (if path_dir p = p then {} else set (missing_ancestors fs (path_dir p)))"
      by (subst missing_ancestors.simps) auto
    consider "\<not> os_is_not_exist e" | "os_is_not_exist e" "path_dir p = p" | "os_is_not_exist e" "path_dir p \<noteq> p"
      by blast
    then show ?thesis
    proof cases
      case 3
      obtain r2 s2 where rec: "missing_dir_loop (path_dir p) s1 = (r2, s2)" by fastforce
      have ih: "same_disk s1 s2 \<and> (\<forall>ms. r2 = Inr ms \<longrightarrow> set (missing_ancestors s1 (path_dir p)) \<subseteq> set ms)"
        by (rule 1(1) [OF _ Inl _ 3(2) rec]) (use stat 3 in auto)
      have "fs' = s2" "\<forall>ms. r = Inr ms \<longrightarrow> (\<exists>ms'. r2 = Inr ms' \<and> ms = p # ms')"
        using 1(2) stat Inl 3 rec by (auto simp: missing_dir_loop.simps [of p] split: sum.splits)
      with ih anc 3 same same_disk_trans missing_ancestors_same [OF same] show ?thesis by fastforce
    qed (use 1(2) stat Inl same anc in \<open>auto simp: missing_dir_loop.simps [of p]\<close>)
  qed
qed

lemma missing_dir_chain_effect:
  "missing_dir_chain p fs = (r, fs') \<Longrightarrow>
     same_disk fs fs' \<and> (\<forall>ms. r = Inr ms \<longrightarrow> set (missing_ancestors fs p) \<subseteq> set ms)"
  using missing_dir_loop_effect [of p fs] by (auto simp: missing_dir_chain_def split: prod.splits sum.splits)

lemma mkdir_all_effect:
  assumes "os_mkdir_all p fs = (r, fs')"
  shows "same_files fs fs' \<and>
    (\<forall>y. r = Inr y \<longrightarrow> fs_dirty fs' = fs_dirty fs |\<union>| fset_of_list (map path_dir (missing_ancestors fs p)))"
  using assms unfolding os_mkdir_all_def
proof (cases rule: syscall_cases)
  case (ok fs1)
  define ms where "ms = missing_ancestors fs p"
  have "missing_ancestors fs1 p = ms" unfolding ms_def by (rule missing_ancestors_same [OF ok(1)])
  then consider "r = Inl (os_error ''not a directory'')" "fs' = fs1" | "r = Inr ()" "fs' = make_dirs ms fs1"
    using ok(2) unfolding Let_def by (metis prod.inject)
  then show ?thesis
    using ok(1) unfolding ms_def [symmetric]
    by cases (simp_all add: make_dirs_def same_disk_def same_files_def)
next
  case (fault fs1 e k)
  then show ?thesis by (simp add: make_dirs_def same_disk_def same_files_def)
qed

lemma sync_dirs_effect:
  "each_until_error (\<lambda>d. sync_dir (path_dir d)) ds fs = (e, fs') \<Longrightarrow>
     same_files fs fs' \<and> (e = None \<longrightarrow> fs_dirty fs' = fs_dirty fs |-| fset_of_list (map path_dir ds))"
proof (induction ds arbitrary: fs)
  case Nil
  then show ?case by (simp add: same_files_def)
next
  case (Cons d ds)
  obtain e1 s1 where sync: "sync_dir (path_dir d) fs = (e1, s1)" by fastforce
  note eff = sync_dir_effect [OF sync]
  show ?case
  proof (cases e1)
    case None
    then have "each_until_error (\<lambda>d. sync_dir (path_dir d)) ds s1 = (e, fs')" using Cons.prems sync by simp
    from Cons.IH [OF this] eff None show ?thesis using same_files_trans by auto
  next
    case (Some x)
    then have "e = e1" "fs' = s1" using Cons.prems sync by simp_all
    with eff Some show ?thesis by simp
  qed
qed

lemma itoa_no_slash: "slash \<notin> set (itoa n)"
proof
  assume "slash \<in> set (itoa n)"
  then obtain k :: nat where k: "k < 10" "slash = char_of (48 + k)" using itoa_digits by blast
  have "(of_char slash :: nat) = 48 + k" unfolding k(2) using k(1) by simp
  then show False by simp
qed

lemma path_base_in_dir:
  assumes "slash \<notin> set nm" "nm \<noteq> []"
  shows "path_base (in_dir dir nm) = nm"
proof -
  obtain y where y: "in_dir dir nm = y @ slash # nm"
  proof (cases "has_suffix dir ''/''")
    case True
    then obtain zs where "dir = zs @ ''/''" by (auto simp: has_suffix_def suffix_def)
    with True show ?thesis by (intro that [of zs]) (simp add: in_dir_def)
  next
    case False
    then show ?thesis by (intro that [of dir]) (simp add: in_dir_def)
  qed
  obtain c cs where c: "rev nm = c # cs" using assms(2) by (cases "rev nm") auto
  have "c \<in> set nm" using c by (metis list.set_intros(1) set_rev)
  then have "c \<noteq> slash" using assms(1) by blast
  then have stripped: "dropWhile (\<lambda>c. c = slash) (rev (y @ slash # nm)) = rev nm @ slash # rev y"
    using c by simp
  have "takeWhile (\<lambda>c. c \<noteq> slash) (rev nm @ slash # rev y) = rev nm"
    using assms(1) by (subst takeWhile_append2) auto
  then show ?thesis using stripped assms(2) unfolding y path_base_def by (simp add: Let_def)
qed

lemma fresh_nameD:
  "fresh_name tries fs pre r = Some p \<Longrightarrow> \<not> path_exists fs p \<and> (\<exists>n. p = pre @ itoa n)"
proof (induction tries fs pre r rule: fresh_name.induct)
  case (1 tries fs pre r)
  then show ?case by (subst (asm) (2) fresh_name.simps) (auto split: if_splits)
qed

lemma create_temp_effect:
  assumes "os_create_temp dir (path_base path @ ''.tmp-'') fs = (r, fs')"
  shows "(\<forall>p. r = Inr p \<longrightarrow> p \<noteq> path \<and> fmlookup (fs_files fs) p = None \<and> touches p fs fs' \<and>
      fmlookup (fs_files fs') p = Some \<lparr>fi_data = [], fi_mode = 384, fi_synced = False\<rparr> \<and>
      fs_dirty fs' = finsert dir (fs_dirty fs)) \<and>
    (\<forall>e. r = Inl e \<longrightarrow> same_files fs fs')"
  using assms unfolding os_create_temp_def
proof (cases rule: syscall_cases)
  case (ok fs1)
  let ?pre = "path_base path @ ''.tmp-''"
  show ?thesis
  proof (cases r)
    case (Inl e)
    then have "fs' = fs1" using ok(2) by (auto split: if_splits option.splits)
    with ok(1) Inl show ?thesis by (simp add: same_disk_files)
  next
    case (Inr p)
    then have pre: "slash \<notin> set ?pre" and name: "fresh_name 10000 fs1 (in_dir dir ?pre) (fs_random fs1) = Some p"
      and fs': "fs' = set_files (fmupd p \<lparr>fi_data = [], fi_mode = 384, fi_synced = False\<rparr> (fs_files fs1))
        (fs1\<lparr>fs_random := Suc (fs_random fs1), fs_dirty := finsert dir (fs_dirty fs1)\<rparr>)"
      using ok(2) by (auto split: if_splits option.splits)
    obtain n where n: "p = in_dir dir ?pre @ itoa n" and free: "\<not> path_exists fs1 p"
      using fresh_nameD [OF name] by blast
    have "p = in_dir dir (?pre @ itoa n)" unfolding n by (simp add: in_dir_def)
    then have "path_base p = ?pre @ itoa n"
      using pre itoa_no_slash itoa_not_Nil by (simp only:) (rule path_base_in_dir, auto)
    then have "p \<noteq> path" by (metis append_assoc append_self_conv itoa_not_Nil append_is_Nil_conv)
    moreover have "fmlookup (fs_files fs1) p = None"
      using free by (simp add: path_exists_def fmdom_notD)
    ultimately show ?thesis
      using ok(1) Inr by (auto simp: fs' touches_def set_files_def same_disk_def)
  qed
next
  case (fault fs1 e k)
  then show ?thesis by (simp add: untouched_def same_disk_files)
qed

section \<open>atomicWriteFile\<close>

lemma touches_from: "same_files fs fs1 \<Longrightarrow> touches tmp fs1 fs' \<Longrightarrow> touches tmp fs fs'"
  by (simp add: touches_def same_files_def)

lemma touches_replaces:
  assumes "touches tmp fs fs1" "replaces path tmp new fs1 fs'" "tmp \<noteq> path"
  shows "replaces path tmp new fs fs'"
proof -
  obtain ts us where ts: "fs_trace fs1 = fs_trace fs @ ts"
      "\<forall>t \<in> set ts. \<forall>q. q \<noteq> tmp \<longrightarrow> fmlookup t q = fmlookup (fs_files fs) q"
    and us: "fs_trace fs' = fs_trace fs1 @ us"
      "\<forall>t \<in> set us. (\<forall>q. q \<noteq> tmp \<longrightarrow> q \<noteq> path \<longrightarrow> fmlookup t q = fmlookup (fs_files fs1) q) \<and>
         (fmlookup t path = fmlookup (fs_files fs1) path \<or> fmlookup t path = Some new)"
    using assms(1,2) unfolding touches_def replaces_def by blast
  have same: "\<forall>q. q \<noteq> tmp \<longrightarrow> fmlookup (fs_files fs1) q = fmlookup (fs_files fs) q"
    using assms(1) by (simp add: touches_def)
  have "fmdrop tmp (fs_files fs1) = fmdrop tmp (fs_files fs)"
    by (rule fmap_ext) (simp add: same)
  then have "fs_files fs' = fmupd path new (fmdrop tmp (fs_files fs))"
    using assms(2) by (simp add: replaces_def)
  moreover have "fs_trace fs' = fs_trace fs @ ts @ us" using ts us by simp
  ultimately show ?thesis
    unfolding replaces_def using ts(2) us(2) same assms(3) by (intro conjI exI [of _ "ts @ us"]) auto
qed

text \<open>What the call has done to the disk: nothing, or something with a fresh temporary file.\<close>

definition attempted :: "string \<Rightarrow> inode \<Rightarrow> fs \<Rightarrow> go_error option \<Rightarrow> fs \<Rightarrow> bool" where
  "attempted path new fs e fs' \<longleftrightarrow>
     (e \<noteq> None \<and> same_files fs fs') \<or>
     (\<exists>tmp. tmp \<noteq> path \<and> fmlookup (fs_files fs) tmp = None \<and>
        (if e = None then replaces path tmp new fs fs' \<and> fs_dirty fs' |\<subseteq>| fs_dirty fs |-| {|path_dir path|}
         else touches tmp fs fs' \<or> replaces path tmp new fs fs'))"

lemma atomic_write_attempted:
  assumes run: "atomic_write_file path data mode fs = (e, fs')"
  shows "attempted path \<lparr>fi_data = data, fi_mode = mode, fi_synced = True\<rparr> fs e fs'"
proof -
  let ?dir = "path_dir path"
  obtain r1 s1 where chain: "missing_dir_chain ?dir fs = (r1, s1)" by fastforce
  note chain_eff = missing_dir_chain_effect [OF chain]
  show ?thesis
  proof (cases r1)
    case (Inl e1)
    then have "e \<noteq> None" "fs' = s1" using run chain by (auto simp: atomic_write_file_def)
    then show ?thesis using chain_eff by (simp add: attempted_def same_disk_files)
  next
    case (Inr created)
    obtain r2 s2 where mkdir: "os_mkdir_all ?dir s1 = (r2, s2)" by fastforce
    note mkdir_eff = mkdir_all_effect [OF mkdir]
    have same2: "same_files fs s2" using chain_eff mkdir_eff same_disk_files same_files_trans by blast
    show ?thesis
    proof (cases r2)
      case (Inl e2)
      then have "e \<noteq> None" "fs' = s2" using run chain Inr mkdir by (auto simp: atomic_write_file_def)
      then show ?thesis using same2 by (simp add: attempted_def)
    next
      case made: (Inr y)
      obtain e3 s3 where syncs: "each_until_error (\<lambda>d. sync_dir (path_dir d)) created s2 = (e3, s3)" by fastforce
      note syncs_eff = sync_dirs_effect [OF syncs]
      have same3: "same_files fs s3" using same2 syncs_eff same_files_trans by blast
      show ?thesis
      proof (cases e3)
        case (Some x)
        then have "e \<noteq> None" "fs' = s3" using run chain Inr mkdir made syncs by (auto simp: atomic_write_file_def)
        then show ?thesis using same3 by (simp add: attempted_def)
      next
        case None
        have "set (missing_ancestors s1 ?dir) \<subseteq> set created"
          using chain_eff Inr missing_ancestors_same by metis
        then have dirty3: "fs_dirty s3 |\<subseteq>| fs_dirty fs"
          using chain_eff mkdir_eff made syncs_eff None by (auto simp: same_disk_def fset_of_list_elem)
        obtain r4 s4 where temp: "os_create_temp ?dir (path_base path @ ''.tmp-'') s3 = (r4, s4)" by fastforce
        note temp_eff = create_temp_effect [OF temp]
        show ?thesis
        proof (cases r4)
          case (Inl e4)
          then have "e \<noteq> None" "fs' = s4"
            using run chain Inr mkdir made syncs None temp by (auto simp: atomic_write_file_def)
          then show ?thesis using same3 temp_eff Inl same_files_trans by (auto simp: attempted_def)
        next
          case named: (Inr tmp)
          then have "write_temp path tmp data mode s4 = (e, fs')"
            using run chain Inr mkdir made syncs None temp by (simp add: atomic_write_file_def)
          from write_temp_effect [OF this] temp_eff named
          have eff: "(e = None \<longrightarrow> replaces path tmp \<lparr>fi_data = data, fi_mode = mode, fi_synced = True\<rparr> s4 fs' \<and>
                fs_dirty fs' = fs_dirty s4 |-| {|?dir|}) \<and>
              (e \<noteq> None \<longrightarrow> touches tmp s4 fs' \<or>
                replaces path tmp \<lparr>fi_data = data, fi_mode = mode, fi_synced = True\<rparr> s4 fs')"
            and tmp: "tmp \<noteq> path" "fmlookup (fs_files s3) tmp = None" "touches tmp s3 s4"
              "fs_dirty s4 = finsert ?dir (fs_dirty s3)" by auto
          have touched: "touches tmp fs s4" by (rule touches_from [OF same3 tmp(3)])
          have "fs_dirty fs' |\<subseteq>| fs_dirty fs |-| {|?dir|}" if "e = None"
            using eff that tmp(4) dirty3 by auto
          then show ?thesis
            unfolding attempted_def
            using eff tmp(1,2) same3 touched touches_trans touches_replaces
            by (intro disjI2 exI [of _ tmp]) (auto simp: same_files_def)
        qed
      qed
    qed
  qed
qed

section \<open>What every call leaves as it is\<close>

text \<open>
  A relation that each system call keeps, other than \<^verbatim>\<open>MkdirAll\<close>, is kept by every composition
  of calls.
\<close>

definition stays :: "(fs \<Rightarrow> fs \<Rightarrow> bool) \<Rightarrow> (fs \<Rightarrow> 'a \<times> fs) \<Rightarrow> bool" where
  "stays R op \<longleftrightarrow> (\<forall>fs. R fs (snd (op fs)))"

named_theorems stays_intros

locale fs_calls =
  fixes R :: "fs \<Rightarrow> fs \<Rightarrow> bool"
  assumes R_refl: "R fs fs"
    and R_trans: "R fs1 fs2 \<Longrightarrow> R fs2 fs3 \<Longrightarrow> R fs1 fs3"
    and calls [stays_intros]: "stays R (os_stat p)" "stays R (os_open_dir p)" "stays R (os_sync_dir p)"
      "stays R (os_create_temp p x)" "stays R (os_chmod p m)" "stays R (os_write p x)" "stays R (os_sync p)"
      "stays R os_close" "stays R (os_rename p x)" "stays R (os_remove p)" "stays R (os_read_file p)"
begin

lemma staysD: "stays R op \<Longrightarrow> op fs = (r, fs') \<Longrightarrow> R fs fs'"
  by (metis stays_def snd_conv)

lemma stays_pure [stays_intros]: "stays R (\<lambda>fs. (r, fs))"
  by (simp add: stays_def R_refl)

lemma stays_then [stays_intros]: "stays R op \<Longrightarrow> stays R (\<lambda>fs. (r, snd (op fs)))"
  by (simp add: stays_def)

lemma stays_result [stays_intros]:
  assumes "stays R op" "\<And>e. stays R (f e)" "\<And>x. stays R (g x)"
  shows "stays R (\<lambda>fs. case op fs of (Inl e, fs1) \<Rightarrow> f e fs1 | (Inr x, fs1) \<Rightarrow> g x fs1)"
  unfolding stays_def
proof
  fix fs
  obtain r fs1 where op: "op fs = (r, fs1)" by fastforce
  have "R fs fs1" using assms(1) op by (rule staysD)
  moreover have "R fs1 (snd (case r of Inl e \<Rightarrow> f e fs1 | Inr x \<Rightarrow> g x fs1))"
    using assms(2,3) by (cases r) (simp_all add: stays_def)
  ultimately show "R fs (snd (case op fs of (Inl e, fs1) \<Rightarrow> f e fs1 | (Inr x, fs1) \<Rightarrow> g x fs1))"
    using R_trans by (cases r) (auto simp: op)
qed

lemma stays_error [stays_intros]:
  assumes "stays R op" "\<And>e. stays R (f e)" "stays R g"
  shows "stays R (\<lambda>fs. case op fs of (None, fs1) \<Rightarrow> g fs1 | (Some e, fs1) \<Rightarrow> f e fs1)"
  unfolding stays_def
proof
  fix fs
  obtain r fs1 where op: "op fs = (r, fs1)" by fastforce
  have "R fs fs1" using assms(1) op by (rule staysD)
  moreover have "R fs1 (snd (case r of None \<Rightarrow> g fs1 | Some e \<Rightarrow> f e fs1))"
    using assms(2,3) by (cases r) (simp_all add: stays_def)
  ultimately show "R fs (snd (case op fs of (None, fs1) \<Rightarrow> g fs1 | (Some e, fs1) \<Rightarrow> f e fs1))"
    using R_trans by (cases r) (auto simp: op)
qed

lemma stays_if [stays_intros]: "stays R f \<Longrightarrow> stays R g \<Longrightarrow> stays R (\<lambda>fs. if c then f fs else g fs)"
  by (simp add: stays_def)

lemma stays_sync_dir [stays_intros]: "stays R (sync_dir p)"
  unfolding sync_dir_def [abs_def] by (intro stays_intros)

lemma stays_steps [stays_intros]:
  "stays R op \<Longrightarrow> stays R (step_or_close what op)" "stays R op \<Longrightarrow> stays R (step_or_fail what op)"
  unfolding step_or_close_def [abs_def] step_or_fail_def [abs_def] by (intro stays_intros; assumption)+

lemma stays_loop:
  assumes "\<And>x. x \<in> set xs \<Longrightarrow> stays R (f x)"
  shows "stays R (each_until_error f xs)"
  unfolding stays_def
proof
  fix fs show "R fs (snd (each_until_error f xs fs))"
    using assms
  proof (induction xs arbitrary: fs)
    case (Cons x xs)
    obtain r fs1 where step: "f x fs = (r, fs1)" by fastforce
    have "stays R (f x)" using Cons.prems by simp
    then have "R fs fs1" using step by (rule staysD)
    then show ?case using Cons R_trans step by (cases r) auto
  qed (simp add: R_refl)
qed

lemma stays_missing_dir_loop: "R fs (snd (missing_dir_loop p fs))"
proof (induction p fs rule: missing_dir_loop.induct)
  case (1 p fs)
  obtain r fs1 where stat: "os_stat p fs = (r, fs1)" by fastforce
  have first: "R fs fs1" using calls(1) stat by (rule staysD)
  show ?case
  proof (cases r)
    case (Inr u)
    then show ?thesis using first stat by (simp add: missing_dir_loop.simps [of p])
  next
    case (Inl e)
    show ?thesis
    proof (cases "os_is_not_exist e \<and> path_dir p \<noteq> p")
      case False
      then show ?thesis using first stat Inl by (auto simp: missing_dir_loop.simps [of p])
    next
      case True
      have "R fs1 (snd (missing_dir_loop (path_dir p) fs1))"
        by (rule 1) (use stat Inl True in auto)
      with True first show ?thesis
        using stat Inl R_trans by (auto simp: missing_dir_loop.simps [of p] split: prod.splits sum.splits)
    qed
  qed
qed

lemma stays_missing_dir_chain: "stays R (missing_dir_chain p)"
  unfolding stays_def using stays_missing_dir_loop
  by (auto simp: missing_dir_chain_def split: prod.split sum.split) (metis snd_conv)+

lemma stays_write_temp: "stays R (write_temp path tmp data mode)"
proof -
  have "stays R step" if "step \<in> set (write_steps path tmp data mode)" for step
    using that by (auto simp: write_steps_def intro!: stays_intros)
  then have "stays R (each_until_error (\<lambda>step. step) (write_steps path tmp data mode))" by (rule stays_loop)
  then show ?thesis unfolding write_temp_def [abs_def] by (intro stays_intros)
qed

text \<open>A save does nothing but such calls before and after it makes the directories.\<close>

lemma atomic_write_frame:
  assumes "atomic_write_file path data mode fs = (e, fs')"
  obtains (early) "e \<noteq> None" "R fs fs'"
  | (made) created s1 r s2 where "missing_dir_chain (path_dir path) fs = (Inr created, s1)" "R fs s1"
      "os_mkdir_all (path_dir path) s1 = (r, s2)" "R s2 fs'" "e = None \<Longrightarrow> \<exists>u. r = Inr u"
proof -
  obtain c s1 where chain: "missing_dir_chain (path_dir path) fs = (c, s1)" by fastforce
  have 1: "R fs s1" using stays_missing_dir_chain chain by (rule staysD)
  show thesis
  proof (cases c)
    case (Inl e1)
    then show thesis using assms chain 1 early by (auto simp: atomic_write_file_def)
  next
    case (Inr created)
    obtain r s2 where mkdir: "os_mkdir_all (path_dir path) s1 = (r, s2)" by fastforce
    let ?rest = "\<lambda>s. case each_until_error (\<lambda>d. sync_dir (path_dir d)) created s of
        (None, fs3) \<Rightarrow> (case os_create_temp (path_dir path) (path_base path @ ''.tmp-'') fs3 of
            (Inl e, fs4) \<Rightarrow> (Some (ErrWrap ''create temp state file: '' e), fs4)
          | (Inr tmp, fs4) \<Rightarrow> write_temp path tmp data mode fs4)
      | (Some e, fs3) \<Rightarrow> (Some e, fs3)"
    have rest: "stays R ?rest"
      by (intro stays_intros stays_write_temp stays_loop)
    have run: "(case r of Inl e \<Rightarrow> (Some (ErrWrap ''create state directory: '' e), s2) | Inr _ \<Rightarrow> ?rest s2) = (e, fs')"
      using assms chain Inr mkdir
      by (cases r) (auto simp: atomic_write_file_def split: prod.splits option.splits)
    have "R s2 fs'"
      using run rest by (cases r) (auto simp: R_refl dest: staysD)
    moreover have "e = None \<Longrightarrow> \<exists>u. r = Inr u" using run by (cases r) auto
    ultimately show thesis using chain 1 mkdir Inr made by blast
  qed
qed

end

section \<open>Directories\<close>

interpretation keep_dirs: fs_calls "\<lambda>fs fs'. fs_dirs fs' = fs_dirs fs"
proof unfold_locales
  have "fs_dirs (snd (syscall part op fs)) = fs_dirs fs"
    if "\<And>k s. fs_dirs (part k s) = fs_dirs s" "\<And>s. fs_dirs (snd (op s)) = fs_dirs s" for part op fs
    using that by (simp add: syscall_def split: list.split option.split prod.split)
  note sys = this
  have within: "fs_dirs (on_file p f s) = fs_dirs s" for p f s
    by (simp add: on_file_def set_files_def split: option.split)
  fix p x m
  show "stays (\<lambda>fs fs'. fs_dirs fs' = fs_dirs fs) (os_stat p)" "stays (\<lambda>fs fs'. fs_dirs fs' = fs_dirs fs) (os_open_dir p)"
    "stays (\<lambda>fs fs'. fs_dirs fs' = fs_dirs fs) (os_sync_dir p)" "stays (\<lambda>fs fs'. fs_dirs fs' = fs_dirs fs) (os_create_temp p x)"
    "stays (\<lambda>fs fs'. fs_dirs fs' = fs_dirs fs) (os_chmod p m)" "stays (\<lambda>fs fs'. fs_dirs fs' = fs_dirs fs) (os_write p x)"
    "stays (\<lambda>fs fs'. fs_dirs fs' = fs_dirs fs) (os_sync p)" "stays (\<lambda>fs fs'. fs_dirs fs' = fs_dirs fs) os_close"
    "stays (\<lambda>fs fs'. fs_dirs fs' = fs_dirs fs) (os_rename p x)" "stays (\<lambda>fs fs'. fs_dirs fs' = fs_dirs fs) (os_remove p)"
    "stays (\<lambda>fs fs'. fs_dirs fs' = fs_dirs fs) (os_read_file p)"
    unfolding stays_def os_stat_def os_open_dir_def os_sync_dir_def os_create_temp_def os_chmod_def os_write_def
      os_sync_def os_close_def os_rename_def os_remove_def os_read_file_def
    by (intro allI sys; simp add: untouched_def set_files_def within split: option.split)+
qed simp_all

text \<open>A save creates missing ancestors of the state directory, whether it succeeds or not, and no others.\<close>

lemma mkdir_all_dirs:
  assumes "os_mkdir_all p fs = (r, fs')"
  shows "fs_dirs fs |\<subseteq>| fs_dirs fs' \<and> fs_dirs fs' |\<subseteq>| fs_dirs fs |\<union>| fset_of_list (missing_ancestors fs p) \<and>
    (\<forall>u. r = Inr u \<longrightarrow> fs_dirs fs' = fs_dirs fs |\<union>| fset_of_list (missing_ancestors fs p))"
  using assms unfolding os_mkdir_all_def
proof (cases rule: syscall_cases)
  case (ok fs1)
  define ms where "ms = missing_ancestors fs p"
  have "missing_ancestors fs1 p = ms" unfolding ms_def by (rule missing_ancestors_same [OF ok(1)])
  then consider "r = Inl (os_error ''not a directory'')" "fs' = fs1" | "r = Inr ()" "fs' = make_dirs ms fs1"
    using ok(2) unfolding Let_def by (metis prod.inject)
  then show ?thesis
    using ok(1) unfolding ms_def [symmetric]
    by cases (auto simp: make_dirs_def same_disk_def)
next
  case (fault fs1 e k)
  have "missing_ancestors fs1 p = missing_ancestors fs p" by (rule missing_ancestors_same [OF fault(1)])
  moreover have "fset_of_list (take k (rev ms)) |\<subseteq>| fset_of_list ms" for k and ms :: "string list"
    using set_take_subset [of k "rev ms"] by (auto simp: fset_of_list_elem)
  ultimately show ?thesis using fault by (auto simp: make_dirs_def same_disk_def)
qed

lemma atomic_write_dirs:
  assumes "atomic_write_file path data mode fs = (e, fs')"
  shows "fs_dirs fs |\<subseteq>| fs_dirs fs' \<and>
    fs_dirs fs' |\<subseteq>| fs_dirs fs |\<union>| fset_of_list (missing_ancestors fs (path_dir path)) \<and>
    (e = None \<longrightarrow> fs_dirs fs' = fs_dirs fs |\<union>| fset_of_list (missing_ancestors fs (path_dir path)))"
  using assms
proof (cases rule: keep_dirs.atomic_write_frame)
  case early
  then show ?thesis by auto
next
  case (made created s1 r s2)
  have "missing_ancestors s1 (path_dir path) = missing_ancestors fs (path_dir path)"
    using missing_dir_chain_effect [OF made(1)] missing_ancestors_same by blast
  with mkdir_all_dirs [OF made(3)] made(2,4,5) show ?thesis by auto
qed

text \<open>
  C8: At every moment of a save, whichever system calls fail, the state file is what it was
  before or holds the complete new contents, flushed and with the right mode; nobody ever
  reads a mixture.
\<close>

theorem state_file_old_or_new:
  assumes "atomic_write_file path data mode fs = (e, fs')"
  shows "\<exists>ts. fs_trace fs' = fs_trace fs @ ts \<and>
    (\<forall>t \<in> set (fs_files fs' # ts). fmlookup t path = fmlookup (fs_files fs) path \<or>
       fmlookup t path = Some \<lparr>fi_data = data, fi_mode = mode, fi_synced = True\<rparr>)"
proof -
  define new where "new = \<lparr>fi_data = data, fi_mode = mode, fi_synced = True\<rparr>"
  consider "same_files fs fs'" | tmp where "tmp \<noteq> path" "touches tmp fs fs'"
    | tmp where "tmp \<noteq> path" "replaces path tmp new fs fs'"
    using atomic_write_attempted [OF assms] unfolding attempted_def new_def by (auto split: if_splits)
  then have "\<exists>ts. fs_trace fs' = fs_trace fs @ ts \<and>
    (\<forall>t \<in> set (fs_files fs' # ts). fmlookup t path = fmlookup (fs_files fs) path \<or> fmlookup t path = Some new)"
  proof cases
    case 1
    then show ?thesis by (simp add: same_files_def)
  next
    case (2 tmp)
    then show ?thesis unfolding touches_def by fastforce
  next
    case (3 tmp)
    then have "fmlookup (fs_files fs') path = Some new" by (simp add: replaces_def)
    with 3 show ?thesis unfolding replaces_def by fastforce
  qed
  then show ?thesis unfolding new_def .
qed

text \<open>
  C31: A save that reports no error has replaced the file with its whole contents, has flushed
  it and its directory entry, leaves no temporary file, and has made exactly the directories
  that were missing above it. One that reports an error has touched no file beside the target
  and one temporary file that did not exist before; some of the missing directories may have
  been made and stay.
\<close>

theorem atomic_write_outcome:
  assumes "atomic_write_file path data mode fs = (e, fs')"
  shows "(e = None \<longrightarrow>
      fs_files fs' = fmupd path \<lparr>fi_data = data, fi_mode = mode, fi_synced = True\<rparr> (fs_files fs) \<and>
      fs_dirty fs' |\<subseteq>| fs_dirty fs |-| {|path_dir path|} \<and>
      fs_dirs fs' = fs_dirs fs |\<union>| fset_of_list (missing_ancestors fs (path_dir path))) \<and>
    (e \<noteq> None \<longrightarrow>
      (\<exists>tmp. fmlookup (fs_files fs) tmp = None \<and>
         (\<forall>q. q \<noteq> path \<longrightarrow> q \<noteq> tmp \<longrightarrow> fmlookup (fs_files fs') q = fmlookup (fs_files fs) q)) \<and>
      fs_dirs fs |\<subseteq>| fs_dirs fs' \<and>
      fs_dirs fs' |\<subseteq>| fs_dirs fs |\<union>| fset_of_list (missing_ancestors fs (path_dir path)))"
proof (cases "e = None")
  case True
  then obtain tmp where "fmlookup (fs_files fs) tmp = None"
    and rep: "replaces path tmp \<lparr>fi_data = data, fi_mode = mode, fi_synced = True\<rparr> fs fs'"
    and dirty: "fs_dirty fs' |\<subseteq>| fs_dirty fs |-| {|path_dir path|}"
    using atomic_write_attempted [OF assms] unfolding attempted_def by auto
  then have "fmdrop tmp (fs_files fs) = fs_files fs" by (intro fmap_ext) simp
  with rep dirty True atomic_write_dirs [OF assms] show ?thesis by (simp add: replaces_def)
next
  case False
  with atomic_write_attempted [OF assms] consider "same_files fs fs'"
    | tmp where "fmlookup (fs_files fs) tmp = None"
        "touches tmp fs fs' \<or> replaces path tmp \<lparr>fi_data = data, fi_mode = mode, fi_synced = True\<rparr> fs fs'"
    unfolding attempted_def by auto
  then have "\<exists>tmp. fmlookup (fs_files fs) tmp = None \<and>
      (\<forall>q. q \<noteq> path \<longrightarrow> q \<noteq> tmp \<longrightarrow> fmlookup (fs_files fs') q = fmlookup (fs_files fs) q)"
  proof cases
    case 1
    obtain tmp where "tmp \<notin> fset (fmdom (fs_files fs))"
      using ex_new_if_finite [OF infinite_UNIV_listI, of "fset (fmdom (fs_files fs))"] by auto
    with 1 show ?thesis by (auto simp: same_files_def fmdom_notD)
  next
    case (2 tmp)
    then show ?thesis by (intro exI [of _ tmp]) (auto simp: touches_def replaces_def)
  qed
  with False atomic_write_dirs [OF assms] show ?thesis by blast
qed

end
