(* ===== verification/State_Store.thy ===== *)
theory State_Store
  imports Snapshot_Codec Atomic_Correct
begin

text \<open>
  \<^verbatim>\<open>internal/state/store.go\<close> over the file system, and its contract: an abstract store holds at
  most one snapshot, a save replaces it or leaves it, and a load returns it. The client of the
  contract is the run of reconciliation passes.
\<close>

definition store_save :: "string \<Rightarrow> snapshot \<Rightarrow> fs \<Rightarrow> go_error option \<times> fs" where
  "store_save path s fs =
     (case encode_snapshot (s\<lparr>sn_version := snapshot_version\<rparr>) of
        Inl e \<Rightarrow> (Some (ErrWrap ''encode state snapshot: '' e), fs)
      | Inr j \<Rightarrow> atomic_write_file path (json_text 0 j @ [CHR 0x0A]) 384 fs)"

text \<open>What \<^verbatim>\<open>Load\<close> makes of the bytes it has read.\<close>

definition read_snapshot :: "string \<Rightarrow> go_error + snapshot" where
  "read_snapshot payload =
     (case json_parse payload of
        None \<Rightarrow> Inl (ErrWrap ''decode state file: '' (ErrText ''invalid JSON''))
      | Some j \<Rightarrow>
          (case decode_snapshot j of
             Inl e \<Rightarrow> Inl (ErrWrap ''decode state file: '' e)
           | Inr s \<Rightarrow>
               if sn_version s \<noteq> snapshot_version
               then Inl (ErrText (''unsupported state snapshot version '' @
                      (case json_int (sn_version s) of JNumber w \<Rightarrow> w | _ \<Rightarrow> [])))
               else Inr s))"

definition store_load :: "string \<Rightarrow> (fs, snapshot) io" where
  "store_load path fs =
     (case os_read_file path fs of
        (Inl e, fs') \<Rightarrow> (Inl (ErrWrap ''read state file: '' e), fs')
      | (Inr payload, fs') \<Rightarrow> (read_snapshot payload, fs'))"

definition new_store :: "string \<Rightarrow> (fs, string) io" where
  "new_store path fs =
     (if path = [] then (Inl (ErrText ''state path is required''), fs)
      else
        (let (present, fs1) = (case os_stat path fs of
                (Inr _, fs1) \<Rightarrow> (None, fs1)
              | (Inl e, fs1) \<Rightarrow>
                  if \<not> os_is_not_exist e then (Some (ErrWrap ''stat state file: '' e), fs1)
                  else store_save path empty_snapshot fs1)
         in case present of
              Some e \<Rightarrow> (Inl e, fs1)
            | None \<Rightarrow>
                (case store_load path fs1 of
                   (Inl e, fs2) \<Rightarrow> (Inl e, fs2)
                 | (Inr _, fs2) \<Rightarrow> (Inr path, fs2))))"

section \<open>The contract\<close>

text \<open>A snapshot whose times the encoder can write and the decoder reads back.\<close>

definition storable :: "snapshot \<Rightarrow> bool" where
  "storable s \<longleftrightarrow> sn_version s = snapshot_version \<and>
     (\<forall>m \<in> set (sn_managed_records s). valid_time (m_last_applied_at m))"

locale snapshot_store =
  fixes save :: "snapshot \<Rightarrow> 'd \<Rightarrow> go_error option \<times> 'd"
    and load :: "'d \<Rightarrow> (go_error + snapshot) \<times> 'd"
    and holds :: "'d \<Rightarrow> snapshot option"
  assumes save_ok: "storable s \<Longrightarrow> save s d = (None, d') \<Longrightarrow> holds d' = Some s"
    and save_failed: "storable s \<Longrightarrow> save s d = (Some e, d') \<Longrightarrow> holds d' = holds d \<or> holds d' = Some s"
    and load_ok: "load d = (Inr s, d') \<Longrightarrow> holds d = Some s"
    and load_keeps: "load d = (r, d') \<Longrightarrow> holds d' = holds d"
begin

lemma save_then_load:
  "storable s \<Longrightarrow> save s d = (None, d') \<Longrightarrow> load d' = (Inr t, d'') \<Longrightarrow> t = s"
  using save_ok load_ok by fastforce

lemma save_then_loads:
  "storable s \<Longrightarrow> save s d = (None, d') \<Longrightarrow> load d' = (r, d1) \<Longrightarrow> load d1 = (Inr t, d2) \<Longrightarrow> t = s"
  using save_ok load_keeps load_ok by fastforce

end

section \<open>The file implements the contract\<close>

text \<open>The snapshot in the state file.\<close>

definition stored :: "string \<Rightarrow> fs \<Rightarrow> snapshot option" where
  "stored path fs =
     (case fmlookup (fs_files fs) path of
        None \<Rightarrow> None
      | Some x \<Rightarrow> (case read_snapshot (fi_data x) of Inl e \<Rightarrow> None | Inr s \<Rightarrow> Some s))"

lemma read_written:
  assumes "storable s" "encode_snapshot s = Inr j"
  shows "read_snapshot (json_text 0 j @ [CHR 0x0A]) = Inr s"
proof -
  have "json_ok j" using json_ok_snapshot assms by (simp add: storable_def)
  then have "json_parse (json_text 0 j @ [CHR 0x0A]) = Some j" by (rule json_parse_text)
  moreover have "decode_snapshot j = Inr s" using decode_encode_snapshot assms by (simp add: storable_def)
  ultimately show ?thesis using assms(1) by (simp add: read_snapshot_def storable_def)
qed

lemma read_storable: "read_snapshot payload = Inr s \<Longrightarrow> storable s"
  using decode_snapshot_valid
  by (auto simp: read_snapshot_def storable_def split: option.splits sum.splits if_splits)

lemma stored_storable: "stored path fs = Some s \<Longrightarrow> storable s"
  by (auto simp: stored_def split: option.splits sum.splits dest: read_storable)

lemma storable_encodes: "storable s \<Longrightarrow> \<exists>j. encode_snapshot s = Inr j"
  by (auto simp: storable_def encode_snapshot_def list_ex_iff valid_time_def)

lemma storable_version [simp]: "storable s \<Longrightarrow> s\<lparr>sn_version := snapshot_version\<rparr> = s"
  by (cases s) (simp add: storable_def)

lemma read_file_effect:
  assumes "os_read_file p fs = (r, fs')"
  shows "same_disk fs fs' \<and> (\<forall>d. r = Inr d \<longrightarrow> (\<exists>x. fmlookup (fs_files fs) p = Some x \<and> fi_data x = d))"
  using assms unfolding os_read_file_def
proof (cases rule: syscall_cases)
  case (ok fs1)
  then show ?thesis by (auto simp: same_disk_def split: option.splits)
next
  case (fault fs1 e k)
  then show ?thesis by (simp add: untouched_def)
qed

lemma store_save_written:
  assumes "storable s" "store_save path s fs = (e, fs')"
  obtains j where "encode_snapshot s = Inr j"
    "atomic_write_file path (json_text 0 j @ [CHR 0x0A]) 384 fs = (e, fs')"
    "read_snapshot (json_text 0 j @ [CHR 0x0A]) = Inr s"
  using assms storable_encodes [OF assms(1)] read_written [OF assms(1)] by (auto simp: store_save_def)

interpretation file_store: snapshot_store "store_save path" "store_load path" "stored path" for path
proof (unfold_locales, goal_cases)
  case (1 s d d')
  then obtain j where "atomic_write_file path (json_text 0 j @ [CHR 0x0A]) 384 d = (None, d')"
    and "read_snapshot (json_text 0 j @ [CHR 0x0A]) = Inr s" by (rule store_save_written)
  then show ?case using atomic_write_attempted by (fastforce simp: stored_def attempted_def replaces_def)
next
  case (2 s d e d')
  then obtain j where wr: "atomic_write_file path (json_text 0 j @ [CHR 0x0A]) 384 d = (Some e, d')"
    and read: "read_snapshot (json_text 0 j @ [CHR 0x0A]) = Inr s" by (rule store_save_written)
  consider "fmlookup (fs_files d') path = fmlookup (fs_files d) path"
    | "fmlookup (fs_files d') path = Some \<lparr>fi_data = json_text 0 j @ [CHR 0x0A], fi_mode = 384, fi_synced = True\<rparr>"
    using atomic_write_attempted [OF wr]
    by (auto simp: attempted_def same_files_def touches_def replaces_def)
  then show ?case using read by cases (simp_all add: stored_def)
next
  case (3 d s d')
  obtain r fs1 where read: "os_read_file path d = (r, fs1)" by fastforce
  then obtain payload where "r = Inr payload" "read_snapshot payload = Inr s"
    using 3 by (cases r) (auto simp: store_load_def)
  then show ?case using read_file_effect [OF read] by (auto simp: stored_def)
next
  case (4 d r d')
  then show ?case
    using read_file_effect [of path d] by (auto simp: store_load_def stored_def same_disk_def split: prod.splits sum.splits)
qed

lemma load_stored:
  assumes "stored path fs = Some s" "fs_faults fs = []"
  shows "store_load path fs = (Inr s, fs)"
proof -
  obtain x where "fmlookup (fs_files fs) path = Some x" "read_snapshot (fi_data x) = Inr s"
    using assms(1) by (auto simp: stored_def split: option.splits sum.splits)
  then show ?thesis using assms(2) by (simp add: store_load_def os_read_file_def syscall_def)
qed

text \<open>
  C16: Loading what has been saved gives back the same snapshot, through the JSON text on
  disk: printing, parsing, field names, omitted members, escapes and times.
\<close>

theorem save_load_round_trip:
  assumes "storable s" "store_save path s fs = (None, fs')" "fs_faults fs' = []"
  shows "store_load path fs' = (Inr s, fs')"
  using file_store.save_ok [OF assms(1,2)] assms(3) by (rule load_stored)

text \<open>No fault says of a file that is there that it does not exist.\<close>

definition honest_faults :: "fs \<Rightarrow> bool" where
  "honest_faults fs \<longleftrightarrow> (\<forall>e k. Some (e, k) \<in> set (fs_faults fs) \<longrightarrow> \<not> os_is_not_exist e)"

lemma stat_effect:
  assumes "honest_faults fs" "os_stat p fs = (r, fs')"
  shows "same_disk fs fs' \<and> (\<forall>e. r = Inl e \<longrightarrow> os_is_not_exist e \<longrightarrow> \<not> path_exists fs p) \<and>
    (\<forall>u. r = Inr u \<longrightarrow> path_exists fs p)"
proof (cases "fs_faults fs")
  case Nil
  then show ?thesis using assms(2) by (auto simp: os_stat_def syscall_def same_disk_def split: if_splits)
next
  case (Cons f rest)
  then have "\<not> os_is_not_exist e" if "f = Some (e, k)" for e k
    using assms(1) that by (auto simp: honest_faults_def)
  then show ?thesis using assms(2) Cons
    by (cases f) (auto simp: os_stat_def syscall_def same_disk_def untouched_def path_exists_def split: if_splits prod.splits)
qed

lemma load_same_disk:
  assumes "store_load path fs = (r, fs')"
  shows "same_disk fs fs'"
  using assms read_file_effect [of path fs] by (auto simp: store_load_def split: prod.splits sum.splits)

lemma stored_same_disk: "same_disk fs fs' \<Longrightarrow> stored path fs' = stored path fs"
  by (simp add: stored_def same_disk_def)


end
