(* ===== verification/Reconcile_Run.thy ===== *)
theory Reconcile_Run
  imports Apply_Ownership State_Store
begin

text \<open>
  One pass over one output, \<^verbatim>\<open>internal/runtime/reconcile.go\<close>: plan, refuse an ambiguous
  output, apply, persist. The lemmas say what has reached the store when the pass ends, in
  terms of the contract \<open>snapshot_store\<close>.
\<close>

section \<open>Operations\<close>

record 'w reconcile_input =
  ri_output :: "'w output_port"
  ri_desired :: "desired_record list"
  ri_visible :: "visible_record list"
  ri_owned :: snapshot
  ri_now :: "('w \<Rightarrow> utc_time) option"

record reconcile_result =
  rr_next :: snapshot
  rr_ambiguities :: "go_error list"

text \<open>The value \<^verbatim>\<open>ReconcileResult{}\<close>.\<close>

definition no_result :: reconcile_result where
  "no_result = \<lparr>rr_next = \<lparr>sn_version = 0, sn_managed_records = []\<rparr>, rr_ambiguities = []\<rparr>"

text \<open>
  \<^verbatim>\<open>reconcileOutput\<close>: the result, whether part of the plan has been applied, and the error. The
  first argument is \<^verbatim>\<open>time.Now\<close>, for an input without a clock of its own.
\<close>

definition reconcile_output ::
  "('w \<Rightarrow> utc_time) \<Rightarrow> plan_orders \<Rightarrow> 'w reconcile_input \<Rightarrow> 'w \<Rightarrow>
     (reconcile_result \<times> bool \<times> go_error option) \<times> 'w" where
  "reconcile_output clock ords input w =
     (let now = (case ri_now input of None \<Rightarrow> clock | Some f \<Rightarrow> f);
          provider = out_provider (ri_output input);
          plan = build_reconcile_plan ords provider (ri_desired input) (ri_visible input) (ri_owned input)
      in case pl_ambiguities plan of
           a # as \<Rightarrow> ((no_result\<lparr>rr_ambiguities := pl_ambiguities plan\<rparr>, False, Some a), w)
         | [] \<Rightarrow>
             (let ((next, progressed, err), w') = apply_reconcile_plan (ri_output input) (ri_owned input) plan (now w) w
              in case err of
                   Some e \<Rightarrow>
                     (let wrapped = ErrOutputMutation provider e
                      in if progressed
                         then ((\<lparr>rr_next = next, rr_ambiguities = pl_ambiguities plan\<rparr>, True, Some (ErrPartialProgress wrapped)), w')
                         else ((no_result, False, Some wrapped), w'))
                 | None \<Rightarrow> ((\<lparr>rr_next = next, rr_ambiguities = pl_ambiguities plan\<rparr>, False, None), w')))"

definition reconcile_output_public ::
  "('w \<Rightarrow> utc_time) \<Rightarrow> plan_orders \<Rightarrow> 'w reconcile_input \<Rightarrow> 'w \<Rightarrow> (reconcile_result \<times> go_error option) \<times> 'w" where
  "reconcile_output_public clock ords input w =
     (let ((result, progressed, err), w') = reconcile_output clock ords input w in ((result, err), w'))"

definition reconcile_and_persist ::
  "(snapshot \<Rightarrow> 'd \<Rightarrow> go_error option \<times> 'd) \<Rightarrow> ('w \<Rightarrow> utc_time) \<Rightarrow> plan_orders \<Rightarrow> 'w reconcile_input \<Rightarrow>
     'w \<Rightarrow> 'd \<Rightarrow> (reconcile_result \<times> go_error option) \<times> 'w \<times> 'd" where
  "reconcile_and_persist save clock ords input w d =
     (let ((result, progressed, err), w') = reconcile_output clock ords input w
      in case err of
           Some e \<Rightarrow>
             if progressed \<and> err_as as_partial_progress_error e \<noteq> None
             then (case save (rr_next result) d of
                     (Some save_err, d') \<Rightarrow>
                       ((no_result, Some (ErrJoin e (ErrWrap ''persist partial state snapshot: '' save_err))), w', d')
                   | (None, d') \<Rightarrow> ((no_result, Some e), w', d'))
             else ((no_result, Some e), w', d)
         | None \<Rightarrow>
             (case save (rr_next result) d of
                (Some save_err, d') \<Rightarrow> ((no_result, Some save_err), w', d')
              | (None, d') \<Rightarrow> ((result, None), w', d')))"

section \<open>Ambiguity\<close>

lemma find_ambiguities_mem:
  assumes "e \<in> set (find_ambiguities ord (build_index out desired visible owned))"
  obtains k where "e = ErrVisibleRecordAmbiguous (provider_key out) k (length (visible_with_key out visible k))"
    "1 < length (visible_with_key out visible k)"
  using assms by (auto simp: find_ambiguities_def Let_def group_simps split: if_splits)

text \<open>
  C33: When the output shows two records with the same hostname and answer the pass ends with
  the ambiguity error, without a call to the output and without a save.
\<close>

theorem ambiguous_output_untouched:
  assumes "1 < length (visible_with_key (out_provider (ri_output input)) (ri_visible input) k)"
  shows "\<exists>k' n. reconcile_and_persist save clock ords input w d =
      ((no_result, Some (ErrVisibleRecordAmbiguous (provider_key (out_provider (ri_output input))) k' n)), w, d) \<and>
    n = length (visible_with_key (out_provider (ri_output input)) (ri_visible input) k') \<and> 1 < n"
proof -
  let ?p = "out_provider (ri_output input)"
  let ?amb = "find_ambiguities (po_visible ords) (build_index ?p (ri_desired input) (ri_visible input) (ri_owned input))"
  have "?amb \<noteq> []" using assms by (auto simp: find_ambiguities_iff not_le)
  then obtain a as where amb: "?amb = a # as" by (cases ?amb) auto
  then have "a \<in> set ?amb" by simp
  then obtain k' where a: "a = ErrVisibleRecordAmbiguous (provider_key ?p) k' (length (visible_with_key ?p (ri_visible input) k'))"
    "1 < length (visible_with_key ?p (ri_visible input) k')" by (rule find_ambiguities_mem)
  have "pl_ambiguities (build_reconcile_plan ords ?p (ri_desired input) (ri_visible input) (ri_owned input)) = a # as"
    using amb by (simp add: build_plan_lists)
  then have "reconcile_and_persist save clock ords input w d = ((no_result, Some a), w, d)"
    by (simp add: reconcile_and_persist_def reconcile_output_def Let_def)
  with a show ?thesis by blast
qed

section \<open>What reaches the store\<close>

text \<open>The plan of an input and the outcome of applying it.\<close>

definition plan_of :: "plan_orders \<Rightarrow> 'w reconcile_input \<Rightarrow> reconcile_plan" where
  "plan_of ords input = build_reconcile_plan ords (out_provider (ri_output input))
     (ri_desired input) (ri_visible input) (ri_owned input)"

definition applied ::
  "('w \<Rightarrow> utc_time) \<Rightarrow> plan_orders \<Rightarrow> 'w reconcile_input \<Rightarrow> 'w \<Rightarrow> (snapshot \<times> bool \<times> go_error option) \<times> 'w" where
  "applied clock ords input w = apply_reconcile_plan (ri_output input) (ri_owned input) (plan_of ords input)
     ((case ri_now input of None \<Rightarrow> clock | Some f \<Rightarrow> f) w) w"

definition unambiguous :: "'w reconcile_input \<Rightarrow> bool" where
  "unambiguous input \<longleftrightarrow> (\<forall>k. length (visible_with_key (out_provider (ri_output input)) (ri_visible input) k) \<le> 1)"

text \<open>The store after a pass: the snapshot is saved when the pass succeeds or has progressed.\<close>

definition saved :: "(snapshot \<Rightarrow> 'd \<Rightarrow> go_error option \<times> 'd) \<Rightarrow> bool \<Rightarrow> snapshot \<Rightarrow> 'd \<Rightarrow> go_error option \<times> 'd" where
  "saved save doit s d = (if doit then save s d else (None, d))"

lemma persist_unfold:
  assumes "unambiguous input" "applied clock ords input w = ((next, progressed, err), w')"
    and "reconcile_and_persist save clock ords input w d = ((res, e), w'', d')"
  shows "w'' = w' \<and> (\<exists>se. saved save (err = None \<or> progressed) next d = (se, d') \<and>
    (e = None \<longleftrightarrow> err = None \<and> se = None) \<and> (e = None \<longrightarrow> rr_next res = next) \<and>
    (\<forall>e1. err = Some e1 \<longrightarrow> se = None \<longrightarrow>
       e = Some (if progressed then ErrPartialProgress (ErrOutputMutation (out_provider (ri_output input)) e1)
                 else ErrOutputMutation (out_provider (ri_output input)) e1)))"
proof -
  have "pl_ambiguities (plan_of ords input) = []"
    using assms(1) by (simp add: plan_of_def build_plan_lists find_ambiguities_iff unambiguous_def)
  moreover have "err_as as_partial_progress_error (ErrPartialProgress x) \<noteq> None" for x
    by (simp add: err_as_def)
  ultimately show ?thesis
    using assms(2,3)
    by (cases err; cases progressed)
      (auto simp: reconcile_and_persist_def reconcile_output_def applied_def saved_def Let_def
        simp flip: plan_of_def split: prod.splits option.splits)
qed

text \<open>The snapshot of a pass can be stored when the clock reads a valid time.\<close>

definition times_ok :: "(string, managed_record) fmap \<Rightarrow> bool" where
  "times_ok recs \<longleftrightarrow> (\<forall>l m. fmlookup recs l = Some m \<longrightarrow> valid_time (m_last_applied_at m))"

lemma times_ok_upd [wf_intros]: "times_ok recs \<Longrightarrow> valid_time (m_last_applied_at m) \<Longrightarrow> times_ok (fmupd l m recs)"
  by (auto simp: times_ok_def)

lemma times_ok_drop [wf_intros]: "times_ok recs \<Longrightarrow> times_ok (fmdrop l recs)"
  by (auto simp: times_ok_def)

lemma times_ok_drop_moved [wf_intros]: "times_ok recs \<Longrightarrow> times_ok (drop_moved drops l recs)"
  by (auto simp: drop_moved_def intro: wf_intros split: option.split)

lemma times_ok_apply_drops [wf_intros]: "times_ok recs \<Longrightarrow> times_ok (apply_drops plan recs)"
  unfolding apply_drops_def by (rule fold_invariant [where Q = "\<lambda>_. True"]) (auto intro: wf_intros)

lemma times_ok_keeps [wf_intros]:
  "times_ok recs \<Longrightarrow> valid_time now \<Longrightarrow> times_ok (fold (apply_keep now plan) keeps recs)"
  by (rule fold_invariant [where Q = "\<lambda>_. True"]) (auto simp: apply_keep_def Let_def intro!: wf_intros)

lemma valid_managed_of [wf_intros]: "valid_time now \<Longrightarrow> valid_time (m_last_applied_at (managed_of p d prov now))"
  by (simp add: managed_of_def)

interpretation create_times: step_invariant "apply_create out now plan" "\<lambda>_. valid_time now"
  "\<lambda>st. times_ok (ap_records st)" for out now plan
  by unfold_locales (auto simp: apply_create_def Let_def intro!: wf_intros split: prod.split sum.split)

interpretation update_times: step_invariant "apply_update out now plan" "\<lambda>_. valid_time now"
  "\<lambda>st. times_ok (ap_records st)" for out now plan
  by unfold_locales (auto simp: apply_update_def Let_def intro!: wf_intros split: prod.split sum.split)

interpretation delete_times: step_invariant "apply_delete out" "\<lambda>_. True" "\<lambda>st. times_ok (ap_records st)" for out
  by unfold_locales (auto simp: apply_delete_def intro!: wf_intros split: prod.split sum.split)

lemma apply_calls_times:
  assumes "times_ok (ap_records st)" "valid_time now"
  shows "times_ok (ap_records (snd (apply_calls out now plan st)))"
proof -
  let ?c = "each_until_error (apply_create out now plan) (pl_creates plan) st"
  let ?u = "each_until_error (apply_update out now plan) (pl_updates plan) (snd ?c)"
  have c: "times_ok (ap_records (snd ?c))"
    by (rule create_times.loop_keeps) (simp_all add: assms list_all_def)
  have u: "times_ok (ap_records (snd ?u))"
    by (rule update_times.loop_keeps) (simp_all add: c assms(2) list_all_def)
  have d: "times_ok (ap_records (snd (each_until_error (apply_delete out) (pl_deletes plan) (snd ?u))))"
    by (rule delete_times.loop_keeps) (simp_all add: u list_all_def)
  show ?thesis using c u d unfolding apply_calls_def by (auto split: prod.split option.split)
qed

lemma applied_storable:
  assumes "storable owned" "valid_time now"
    and "plan = build_reconcile_plan ords (out_provider out) desired visible owned"
    and "apply_reconcile_plan out owned plan now w = ((next, progressed, err), w')"
  shows "storable next"
proof -
  let ?p = "out_provider out"
  let ?recs = "fold (apply_keep now plan) (pl_next_managed plan)
    (apply_drops plan (index_by managed_record_lineage_key (owned_of ?p owned)))"
  have outs: "\<forall>m \<in> set (pl_next_managed plan). m_output m = ?p" using assms(3) plan_next_output by blast
  obtain recs where wf: "lineage_wf ?p recs"
    and nxt: "next = snapshot_with_output_records (filter (\<lambda>m. m_output m \<noteq> ?p) (sn_managed_records owned)) recs"
    and calls: "apply_calls out now plan \<lparr>ap_world = w, ap_records = ?recs, ap_progressed = False\<rparr> =
      (err, \<lparr>ap_world = w', ap_records = recs, ap_progressed = progressed\<rparr>)"
    by (rule apply_result [OF outs assms(4)])
  have "times_ok (index_by managed_record_lineage_key (owned_of ?p owned))"
    using assms(1) by (auto simp: times_ok_def storable_def owned_of_def dest: index_by_SomeD)
  then have "times_ok ?recs" using assms(2) by (intro wf_intros)
  then have "times_ok recs"
    using apply_calls_times [of "\<lparr>ap_world = w, ap_records = ?recs, ap_progressed = False\<rparr>" now out plan] calls assms(2)
    by simp
  moreover have "fmlookup recs l = Some (the (fmlookup recs l))" if "l |\<in>| fmdom recs" for l
    using that by (rule lookup_in_dom)
  ultimately have "\<forall>m \<in> (\<lambda>l. the (fmlookup recs l)) ` fset (fmdom recs). valid_time (m_last_applied_at m)"
    unfolding times_ok_def by blast
  then show ?thesis
    using assms(1) unfolding storable_def nxt snapshot_records
    by (auto simp: snapshot_with_output_records_def empty_snapshot_def)
qed

text \<open>
  In the terms of the store's contract: after the pass the store holds the snapshot of the
  apply phase whenever the phase had no error or had progressed, unless the save itself failed
  and is reported.
\<close>

context snapshot_store
begin

lemma pass_saves:
  assumes "unambiguous input" "applied clock ords input w = ((next, progressed, err), w')"
    and "reconcile_and_persist save clock ords input w d = ((res, e), w'', d')" and "storable next"
  shows "(e = None \<longrightarrow> err = None \<and> holds d' = Some next \<and> rr_next res = next) \<and>
    (err = None \<or> progressed \<longrightarrow> holds d' = Some next \<or> e \<noteq> None \<and> holds d' = holds d) \<and>
    (err \<noteq> None \<and> \<not> progressed \<longrightarrow> d' = d \<and> e \<noteq> None)"
proof -
  obtain se where se: "saved save (err = None \<or> progressed) next d = (se, d')"
    "(e = None) = (err = None \<and> se = None)" "e = None \<longrightarrow> rr_next res = next"
    using persist_unfold [OF assms(1-3)] by auto
  show ?thesis
  proof (cases "err = None \<or> progressed")
    case True
    then have "save next d = (se, d')" using se(1) by (simp add: saved_def)
    then show ?thesis
      using True se(2,3) save_ok [OF assms(4), of d d'] save_failed [OF assms(4), of d _ d'] by (cases se) auto
  next
    case False
    then show ?thesis using se by (auto simp: saved_def)
  qed
qed

end

lemma err_chain_self: "err \<in> set (err_chain err)"
  by (cases err) simp_all

lemma persist_reports:
  assumes "unambiguous input" "applied clock ords input w = ((next, progressed, err), w')"
    and "reconcile_and_persist save clock ords input w d = ((res, e), w'', d')"
    and "err = None \<or> progressed"
  shows "\<exists>se. save next d = (se, d') \<and> (e = None \<longleftrightarrow> err = None \<and> se = None) \<and>
    (\<forall>x. se = Some x \<longrightarrow> (\<exists>f. e = Some f \<and> x \<in> set (err_chain f)))"
proof -
  have "pl_ambiguities (plan_of ords input) = []"
    using assms(1) by (simp add: plan_of_def build_plan_lists find_ambiguities_iff unambiguous_def)
  moreover have "err_as as_partial_progress_error (ErrPartialProgress x) \<noteq> None" for x
    by (simp add: err_as_def)
  ultimately show ?thesis
    using assms(2-4) err_chain_self
    by (cases err)
      (auto simp: reconcile_and_persist_def reconcile_output_def applied_def Let_def
        simp flip: plan_of_def split: prod.splits option.splits)
qed

lemma persist_mutation_error:
  assumes "unambiguous input" "applied clock ords input w = ((next, progressed, Some x), w')"
    and "reconcile_and_persist save clock ords input w d = ((res, e), w'', d')"
  shows "\<exists>f. e = Some f \<and> x \<in> set (err_chain f) \<and> (progressed \<or> d' = d)"
proof -
  have "pl_ambiguities (plan_of ords input) = []"
    using assms(1) by (simp add: plan_of_def build_plan_lists find_ambiguities_iff unambiguous_def)
  then show ?thesis
    using assms(2,3) err_chain_self
    by (cases progressed)
      (auto simp: reconcile_and_persist_def reconcile_output_def applied_def Let_def
        simp flip: plan_of_def split: prod.splits option.splits if_splits)
qed

text \<open>
  C27: For a listing without ambiguity and records that can be written: a pass over an output
  that has logged a mutation, or has made all its calls without an error, saves the snapshot
  of what has been done; it succeeds exactly when the calls and the save have; when the save
  succeeds the file holds that snapshot, and when it fails its error is in the error of the
  pass. The error of a failed call is in the error of the pass too, and a pass that fails
  before its first mutation leaves the disk alone.
\<close>

theorem mutations_reach_the_store:
  assumes out: "ri_output input = logging_output base" and quiet: "quiet_output base"
    and clear: "unambiguous input"
    and owned: "storable (ri_owned input)"
    and now: "valid_time ((case ri_now input of None \<Rightarrow> clock | Some f \<Rightarrow> f) e)"
    and pass: "applied clock ords input e = ((next, progressed, err), e1)"
    and run: "reconcile_and_persist (store_save path) clock ords input e fs = ((res, failure), e', fs')"
  shows "(env_log e' \<noteq> env_log e \<or> err = None \<longrightarrow>
      (\<exists>se. store_save path next fs = (se, fs') \<and> (se = None \<longrightarrow> stored path fs' = Some next) \<and>
         (failure = None \<longleftrightarrow> err = None \<and> se = None) \<and>
         (\<forall>x. se = Some x \<longrightarrow> (\<exists>f. failure = Some f \<and> x \<in> set (err_chain f))))) \<and>
    (\<forall>x. err = Some x \<longrightarrow> (\<exists>f. failure = Some f \<and> x \<in> set (err_chain f)) \<and>
       (env_log e' = env_log e \<longrightarrow> fs' = fs))"
proof -
  have "storable next"
    using applied_storable [OF owned now _ pass [unfolded applied_def]] by (simp add: plan_of_def)
  note saves = file_store.save_ok [OF this]
  have e': "e' = e1" using persist_unfold [OF clear pass run] by blast
  obtain n where "env_log e1 = env_log e @ take n (planned_entries (out_provider base) (plan_of ords input))"
    and "n \<le> length (planned_entries (out_provider base) (plan_of ords input))" "progressed \<longleftrightarrow> 0 < n"
    using apply_log_prefix [OF quiet pass [unfolded applied_def out]] by metis
  then have progress: "progressed \<longleftrightarrow> env_log e' \<noteq> env_log e" using e' by auto
  have saved: "\<exists>se. store_save path next fs = (se, fs') \<and> (se = None \<longrightarrow> stored path fs' = Some next) \<and>
         (failure = None \<longleftrightarrow> err = None \<and> se = None) \<and>
         (\<forall>x. se = Some x \<longrightarrow> (\<exists>f. failure = Some f \<and> x \<in> set (err_chain f)))"
    if changed: "env_log e' \<noteq> env_log e \<or> err = None"
  proof -
    have "err = None \<or> progressed" using changed progress by blast
    from persist_reports [OF clear pass run this] obtain se where
      "store_save path next fs = (se, fs')" "failure = None \<longleftrightarrow> err = None \<and> se = None"
      "\<forall>x. se = Some x \<longrightarrow> (\<exists>f. failure = Some f \<and> x \<in> set (err_chain f))" by blast
    then show ?thesis using saves [of path fs fs'] by (intro exI [of _ se]) auto
  qed
  have failed: "(\<exists>f. failure = Some f \<and> x \<in> set (err_chain f)) \<and> (env_log e' = env_log e \<longrightarrow> fs' = fs)"
    if "err = Some x" for x
    using persist_mutation_error [OF clear pass [unfolded that] run] progress by auto
  show ?thesis by (intro conjI impI allI saved failed [THEN conjunct1] failed [THEN conjunct2, rule_format])
qed

end
