(* ===== verification/App_Reconcile.thy ===== *)
theory App_Reconcile
  imports Reconcile_Run
begin

text \<open>
  A full reconciliation, \<^verbatim>\<open>reconcile\<close> and \<^verbatim>\<open>reconcileOnce\<close> of \<^verbatim>\<open>internal/runtime/app.go\<close>: load
  the state, list every source, then plan, apply and persist output by output; and the loop
  that repeats it after a temporary failure with a growing delay.
\<close>

section \<open>The application\<close>

record 'w host =
  ho_env :: "'w env"
  ho_fs :: fs

record retry_policy =
  rt_initial :: duration
  rt_max_interval :: duration
  rt_max_elapsed :: duration

text \<open>
  The fields of \<^verbatim>\<open>App\<close> that a reconciliation reads, and three things of the surroundings: the
  calendar reading of the clock, the iteration orders of the planner's maps (which may differ
  from pass to pass), and what happens while the process waits for a timer (\<^term>\<open>True\<close> when the
  timer fires, \<^term>\<open>False\<close> when the context ends first).
\<close>

record 'w app =
  app_store :: string
  app_sources :: "'w env source_port list"
  app_outputs :: "'w env output_port list"
  app_retry :: retry_policy
  app_debounce :: duration
  app_calendar :: "'w env \<Rightarrow> utc_time"
  app_orders :: "'w env \<Rightarrow> plan_orders"
  app_wait :: "duration \<Rightarrow> 'w env \<Rightarrow> bool \<times> 'w env"

definition set_providers ::
  "'w env source_port list \<Rightarrow> 'w env output_port list \<Rightarrow> duration \<Rightarrow> 'w app \<Rightarrow> 'w app" where
  "set_providers sources outputs timeout a =
     a\<lparr>app_sources := wrap_sources sources timeout, app_outputs := wrap_outputs outputs timeout\<rparr>"

section \<open>reconcileOnce\<close>

definition filter_desired_for_output :: "desired_record list \<Rightarrow> provider_ref \<Rightarrow> desired_record list" where
  "filter_desired_for_output desired output =
     (if desired = [] then []
      else let outputType = trim_space (to_lower (pr_type output))
           in filter (\<lambda>record. \<not> (d_output record \<noteq> '''' \<and> trim_space (to_lower (d_output record)) \<noteq> outputType))
                desired)"

fun collect_desired :: "nat \<Rightarrow> 'w env source_port list \<Rightarrow> ('w env, desired_record list) io" where
  "collect_desired i [] e = (Inr [], e)"
| "collect_desired i (source # rest) e =
     (case src_list_desired source e of
        (Inl err, e') \<Rightarrow> (Inl (ErrSourceList i (src_provider source) err), e')
      | (Inr records, e') \<Rightarrow>
          (case collect_desired (Suc i) rest e' of
             (Inl err, e'') \<Rightarrow> (Inl err, e'')
           | (Inr others, e'') \<Rightarrow> (Inr (records @ others), e'')))"

definition output_input ::
  "desired_record list \<Rightarrow> 'w env output_port \<Rightarrow> visible_record list \<Rightarrow> snapshot \<Rightarrow> 'w env reconcile_input" where
  "output_input desired out visible owned =
     \<lparr>ri_output = out, ri_desired = filter_desired_for_output desired (out_provider out),
      ri_visible = visible, ri_owned = owned, ri_now = None\<rparr>"

fun reconcile_outputs ::
  "'w app \<Rightarrow> desired_record list \<Rightarrow> nat \<Rightarrow> 'w env output_port list \<Rightarrow> snapshot \<Rightarrow> 'w host \<Rightarrow>
     go_error option \<times> 'w host" where
  "reconcile_outputs a desired i [] owned h = (None, h)"
| "reconcile_outputs a desired i (out # rest) owned h =
     (case out_list_visible out (ho_env h) of
        (Inl err, e) \<Rightarrow> (Some (ErrOutputList i (out_provider out) err), h\<lparr>ho_env := e\<rparr>)
      | (Inr visible, e) \<Rightarrow>
          (case reconcile_and_persist (store_save (app_store a)) (app_calendar a) (app_orders a e)
                  (output_input desired out visible owned) e (ho_fs h) of
             ((result, Some err), e', f) \<Rightarrow>
               (Some (ErrWrap (''reconcile output '' @ itoa i @ '' ('' @ provider_key (out_provider out) @ ''): '') err),
                \<lparr>ho_env = e', ho_fs = f\<rparr>)
           | ((result, None), e', f) \<Rightarrow>
               reconcile_outputs a desired (Suc i) rest (rr_next result) \<lparr>ho_env = e', ho_fs = f\<rparr>))"

definition reconcile_once :: "'w app \<Rightarrow> 'w host \<Rightarrow> go_error option \<times> 'w host" where
  "reconcile_once a h =
     (case store_load (app_store a) (ho_fs h) of
        (Inl err, f) \<Rightarrow> (Some (ErrWrap ''load owned state: '' err), h\<lparr>ho_fs := f\<rparr>)
      | (Inr owned, f) \<Rightarrow>
          (case collect_desired 0 (app_sources a) (ho_env h) of
             (Inl err, e) \<Rightarrow> (Some err, \<lparr>ho_env = e, ho_fs = f\<rparr>)
           | (Inr desired, e) \<Rightarrow>
               reconcile_outputs a desired 0 (app_outputs a) owned \<lparr>ho_env = e, ho_fs = f\<rparr>))"

section \<open>The retry loop\<close>

definition next_backoff_delay :: "duration \<Rightarrow> duration \<Rightarrow> duration" where
  "next_backoff_delay delay maxInterval =
     (if delay \<le> 0 then 0
      else if 0 < maxInterval \<and> maxInterval < delay then maxInterval
      else let next' = wrap64 (delay * 2)
           in if 0 < maxInterval \<and> maxInterval < next' then maxInterval else next')"

text \<open>\<^verbatim>\<open>sleepContext\<close>: the select takes the branch that the surroundings make ready.\<close>

definition sleep_context :: "'w app \<Rightarrow> duration \<Rightarrow> 'w env \<Rightarrow> go_error option \<times> 'w env" where
  "sleep_context a d e =
     (case app_wait a d e of (fired, e') \<Rightarrow> (if fired then None else ctx_err e', e'))"

text \<open>
  The end of an iteration that may be repeated: give up when the delay would exceed the budget,
  else sleep and go on with a longer delay.
\<close>

definition retry_after ::
  "'w app \<Rightarrow> time \<Rightarrow> duration \<Rightarrow> go_error \<Rightarrow> 'w host \<Rightarrow> (go_error option \<times> 'w host) + (duration \<times> 'w host)" where
  "retry_after a startedAt delay err h =
     (if rt_max_elapsed (app_retry a) < wrap64 (env_clock (ho_env h) - startedAt + delay)
      then Inl (Some err, h)
      else (case sleep_context a delay (ho_env h) of
              (Some err', e) \<Rightarrow> Inl (Some err', h\<lparr>ho_env := e\<rparr>)
            | (None, e) \<Rightarrow>
                Inr (next_backoff_delay delay (rt_max_interval (app_retry a)), h\<lparr>ho_env := e\<rparr>)))"

text \<open>
  One iteration of the loop: a result, or the delay and the state for the next iteration. A
  context that has ended hides the error.
\<close>

definition reconcile_attempt ::
  "'w app \<Rightarrow> time \<Rightarrow> duration \<Rightarrow> 'w host \<Rightarrow> (go_error option \<times> 'w host) + (duration \<times> 'w host)" where
  "reconcile_attempt a startedAt delay h =
     (case reconcile_once a h of
        (None, h') \<Rightarrow> Inl (None, h')
      | (Some err, h') \<Rightarrow>
          (case ctx_err (ho_env h') of
             Some e \<Rightarrow> Inl (Some e, h')
           | None \<Rightarrow>
               if err_as as_source_list_error err \<noteq> None \<and> is_temporary_error err
               then retry_after a startedAt delay err h'
               else if err_as as_output_list_error err \<noteq> None \<and> is_temporary_error err
               then retry_after a startedAt delay err h'
               else if err_as as_output_mutation_error err = None \<or> \<not> is_temporary_error err
               then Inl (Some err, h')
               else retry_after a startedAt delay err h'))"

partial_function (option) reconcile_loop ::
  "'w app \<Rightarrow> time \<Rightarrow> duration \<Rightarrow> 'w host \<Rightarrow> (go_error option \<times> 'w host) option" where
  "reconcile_loop a startedAt delay h =
     (case reconcile_attempt a startedAt delay h of
        Inl r \<Rightarrow> Some r
      | Inr (delay', h') \<Rightarrow> reconcile_loop a startedAt delay' h')"

definition reconcile :: "'w app \<Rightarrow> 'w host \<Rightarrow> (go_error option \<times> 'w host) option" where
  "reconcile a h = reconcile_loop a (env_clock (ho_env h)) (rt_initial (app_retry a)) h"

section \<open>The delays\<close>

text \<open>
  C39: The next delay of the retry loop is positive, at most the maximum interval, and either
  the double of the last one or the maximum; no wrap-around occurs below 2^62 nanoseconds.
\<close>

theorem backoff_bounded:
  assumes "0 < delay" "0 < maxInterval" "maxInterval < 2 ^ 62"
  shows "0 < next_backoff_delay delay maxInterval \<and> next_backoff_delay delay maxInterval \<le> maxInterval \<and>
    (next_backoff_delay delay maxInterval = 2 * delay \<or> next_backoff_delay delay maxInterval = maxInterval)"
proof (cases "maxInterval < delay")
  case False
  then have "is_int64 (delay * 2)" using assms by (simp add: is_int64_def)
  then show ?thesis using assms False by (auto simp: next_backoff_delay_def Let_def)
qed (use assms in \<open>simp add: next_backoff_delay_def\<close>)

text \<open>A delay that still fits the budget doubles without wrapping around.\<close>

lemma backoff_positive:
  assumes "0 < delay" "delay < 2 ^ 62"
  shows "0 < next_backoff_delay delay maxInterval"
proof -
  have "is_int64 (delay * 2)" using assms by (simp add: is_int64_def)
  then show ?thesis using assms by (auto simp: next_backoff_delay_def Let_def)
qed

section \<open>The loop ends\<close>

text \<open>
  What the loop relies on of its surroundings: a wait ends because the timer has fired, not
  before the time asked for, or because the context has ended; no pass turns the clock back
  (Go measures with the monotonic clock); and neither a wait nor a pass takes thirty-six years
  more than it should, so that the sums of elapsed times and delays stay within 63 bits.
\<close>

definition prompt_waits :: "'w app \<Rightarrow> bool" where
  "prompt_waits a \<longleftrightarrow>
     (\<forall>d e e'. app_wait a d e = (True, e') \<longrightarrow> env_clock e + d \<le> env_clock e' \<and> env_clock e' \<le> env_clock e + d + 2 ^ 60) \<and>
     (\<forall>d e e'. app_wait a d e = (False, e') \<longrightarrow> ctx_err e' \<noteq> None)"

definition prompt_passes :: "'w app \<Rightarrow> bool" where
  "prompt_passes a \<longleftrightarrow>
     (\<forall>h. env_clock (ho_env h) \<le> env_clock (ho_env (snd (reconcile_once a h))) \<and>
          env_clock (ho_env (snd (reconcile_once a h))) \<le> env_clock (ho_env h) + 2 ^ 60)"

lemma retry_after_progress:
  assumes waits: "prompt_waits a" and delay: "0 < delay" "delay \<le> 2 ^ 61"
    and elapsed: "0 \<le> env_clock (ho_env h) - startedAt" "env_clock (ho_env h) - startedAt \<le> 3 * 2 ^ 60"
    and budget: "rt_max_elapsed (app_retry a) \<le> 2 ^ 60"
    and retry: "retry_after a startedAt delay err h = Inr (delay', h')"
  shows "env_clock (ho_env h) < env_clock (ho_env h') \<and> env_clock (ho_env h') - startedAt \<le> 2 ^ 61 \<and>
    0 < delay' \<and> delay' \<le> 2 ^ 61"
proof -
  have "is_int64 (env_clock (ho_env h) - startedAt + delay)" using delay elapsed by (simp add: is_int64_def)
  then have within: "env_clock (ho_env h) - startedAt + delay \<le> 2 ^ 60"
    using retry budget by (auto simp: retry_after_def not_less split: if_splits)
  obtain fired e' where wait: "app_wait a delay (ho_env h) = (fired, e')" by fastforce
  have fired: fired
  proof (rule ccontr)
    assume "\<not> fired"
    then have "ctx_err e' \<noteq> None" using waits wait by (simp add: prompt_waits_def)
    with \<open>\<not> fired\<close> wait retry show False by (auto simp: retry_after_def sleep_context_def split: if_splits)
  qed
  then have h': "h' = h\<lparr>ho_env := e'\<rparr>" "delay' = next_backoff_delay delay (rt_max_interval (app_retry a))"
    using retry wait by (auto simp: retry_after_def sleep_context_def split: if_splits)
  have e': "env_clock (ho_env h) + delay \<le> env_clock e'" "env_clock e' \<le> env_clock (ho_env h) + delay + 2 ^ 60"
    using waits wait fired by (simp_all add: prompt_waits_def)
  have "delay \<le> 2 ^ 60" using within elapsed(1) by linarith
  moreover from this have "is_int64 (delay * 2)" using delay(1) by (simp add: is_int64_def)
  ultimately have "0 < delay' \<and> delay' \<le> 2 ^ 61"
    using delay(1) unfolding h' by (auto simp: next_backoff_delay_def Let_def)
  with e' within delay(1) h'(1) show ?thesis by auto
qed

lemma reconcile_attempt_progress:
  assumes "prompt_waits a" "prompt_passes a" "rt_max_elapsed (app_retry a) \<le> 2 ^ 60"
    and "0 < delay" "delay \<le> 2 ^ 61"
    and "0 \<le> env_clock (ho_env h) - startedAt" "env_clock (ho_env h) - startedAt \<le> 2 ^ 61"
    and "reconcile_attempt a startedAt delay h = Inr (delay', h')"
  shows "env_clock (ho_env h) < env_clock (ho_env h') \<and> env_clock (ho_env h') - startedAt \<le> 2 ^ 61 \<and>
    0 < delay' \<and> delay' \<le> 2 ^ 61"
proof -
  obtain r h1 where once: "reconcile_once a h = (r, h1)" by fastforce
  then have pass: "env_clock (ho_env h) \<le> env_clock (ho_env h1)" "env_clock (ho_env h1) \<le> env_clock (ho_env h) + 2 ^ 60"
    using assms(2) unfolding prompt_passes_def by (metis snd_conv)+
  obtain err where "retry_after a startedAt delay err h1 = Inr (delay', h')"
    using assms(8) once by (auto simp: reconcile_attempt_def split: option.splits if_splits)
  moreover have "0 \<le> env_clock (ho_env h1) - startedAt" "env_clock (ho_env h1) - startedAt \<le> 3 * 2 ^ 60"
    using pass assms(6,7) by simp_all
  ultimately have "env_clock (ho_env h1) < env_clock (ho_env h') \<and> env_clock (ho_env h') - startedAt \<le> 2 ^ 61 \<and>
      0 < delay' \<and> delay' \<le> 2 ^ 61"
    using retry_after_progress [OF assms(1,4,5) _ _ assms(3)] by blast
  then show ?thesis using pass(1) by linarith
qed

lemma reconcile_loop_returns:
  assumes "prompt_waits a" "prompt_passes a" "rt_max_elapsed (app_retry a) \<le> 2 ^ 60"
  shows "0 < delay \<Longrightarrow> delay \<le> 2 ^ 61 \<Longrightarrow> 0 \<le> env_clock (ho_env h) - startedAt \<Longrightarrow>
    env_clock (ho_env h) - startedAt \<le> 2 ^ 61 \<Longrightarrow> \<exists>r. reconcile_loop a startedAt delay h = Some r"
proof (induction "nat (2 ^ 61 - (env_clock (ho_env h) - startedAt))" arbitrary: delay h rule: less_induct)
  case less
  show ?case
  proof (cases "reconcile_attempt a startedAt delay h")
    case (Inl r)
    then show ?thesis by (simp add: reconcile_loop.simps [of a startedAt delay h])
  next
    case (Inr p)
    obtain delay' h' where p: "p = (delay', h')" by (cases p)
    note step = reconcile_attempt_progress [OF assms less.prems Inr [unfolded p]]
    have "\<exists>r. reconcile_loop a startedAt delay' h' = Some r"
      by (rule less.hyps) (use step less.prems in auto)
    with Inr p show ?thesis by (simp add: reconcile_loop.simps [of a startedAt delay h])
  qed
qed

text \<open>
  C15: Reconciliation returns: when waits end as timers do, passes take finite time and the
  delays of the policy are positive and fit the clock, the retry loop ends with a result.
\<close>

theorem reconcile_returns:
  assumes "prompt_waits a" "prompt_passes a"
    and "0 < rt_initial (app_retry a)" "rt_initial (app_retry a) \<le> 2 ^ 60" "rt_max_elapsed (app_retry a) \<le> 2 ^ 60"
  shows "\<exists>r h'. reconcile a h = Some (r, h')"
  using reconcile_loop_returns [OF assms(1,2,5,3), where h = h and startedAt = "env_clock (ho_env h)"] assms(4)
  by (auto simp: reconcile_def)

section \<open>Which failures are repeated\<close>

definition retryable :: "go_error \<Rightarrow> bool" where
  "retryable err \<longleftrightarrow> is_temporary_error err \<and>
     (err_as as_source_list_error err \<noteq> None \<or> err_as as_output_list_error err \<noteq> None \<or>
      err_as as_output_mutation_error err \<noteq> None)"

lemma reconcile_attempt_alt:
  "reconcile_attempt a startedAt delay h =
     (case reconcile_once a h of
        (None, h') \<Rightarrow> Inl (None, h')
      | (Some err, h') \<Rightarrow>
          (case ctx_err (ho_env h') of
             Some e \<Rightarrow> Inl (Some e, h')
           | None \<Rightarrow> if retryable err then retry_after a startedAt delay err h' else Inl (Some err, h')))"
  by (auto simp: reconcile_attempt_def retryable_def split: prod.split option.split)

text \<open>
  C29: An error that is not a temporary failure of listing a source, listing an output or
  changing an output ends the reconciliation after its first pass, with that error or with the
  error of the context when it has ended.
\<close>

theorem permanent_failures_not_retried:
  assumes "reconcile_once a h = (Some err, h')" "\<not> retryable err"
  shows "reconcile a h = Some (Some (case ctx_err (ho_env h') of None \<Rightarrow> err | Some e \<Rightarrow> e), h')"
  using assms
  by (simp add: reconcile_def reconcile_loop.simps [of a] reconcile_attempt_alt split: option.split)

text \<open>
  The loop succeeds only with a pass that succeeds, and the error it returns is the context's
  or that of the last pass.
\<close>

definition loop_outcome :: "'w app \<Rightarrow> go_error option \<times> 'w host \<Rightarrow> bool" where
  "loop_outcome a p \<longleftrightarrow>
     (case p of (r, h') \<Rightarrow>
        (r = None \<longrightarrow> (\<exists>h0. reconcile_once a h0 = (None, h'))) \<and>
        (\<forall>err. r = Some err \<longrightarrow> ctx_err (ho_env h') = Some err \<or>
           (\<exists>h0. reconcile_once a h0 = (Some err, h'))))"

lemma attempt_outcome:
  assumes "reconcile_attempt a startedAt delay h = Inl p"
  shows "loop_outcome a p"
  using assms
  by (force simp: loop_outcome_def reconcile_attempt_alt retry_after_def sleep_context_def
      split: prod.splits option.splits if_splits)

lemma reconcile_loop_outcome:
  assumes "reconcile_loop a startedAt delay h = Some p"
  shows "loop_outcome a p"
  using _ assms
proof (rule reconcile_loop.raw_induct)
  fix loop and a :: "'a app" and startedAt delay h p
  assume ih: "\<And>a startedAt delay h p. loop a startedAt delay h = Some p \<Longrightarrow> loop_outcome a p"
    and body: "(case reconcile_attempt a startedAt delay h of
        Inl r \<Rightarrow> Some r | Inr (delay', h') \<Rightarrow> loop a startedAt delay' h') = Some p"
  show "loop_outcome a p"
    using body attempt_outcome ih by (auto split: sum.splits prod.splits)
qed

text \<open>
  C30: Reconciliation reports success only after a pass that succeeded, with the state that
  this pass left; the error it reports is that of its last pass or that of the ended context.
\<close>

theorem reconcile_outcome:
  assumes "reconcile a h = Some (r, h')"
  shows "(r = None \<longrightarrow> (\<exists>h0. reconcile_once a h0 = (None, h'))) \<and>
    (\<forall>err. r = Some err \<longrightarrow> ctx_err (ho_env h') = Some err \<or> (\<exists>h0. reconcile_once a h0 = (Some err, h')))"
  using reconcile_loop_outcome [OF assms [unfolded reconcile_def]] by (simp add: loop_outcome_def)

end
