(* ===== verification/App_Safety.thy ===== *)
theory App_Safety
  imports App_Reconcile
begin

text \<open>
  What a reconciliation may do to the store and to the outputs: a source that cannot be listed
  stops the pass before anything is changed, and the state file stays readable and keeps the
  records of the outputs that are no longer configured.
\<close>

section \<open>A failed listing\<close>

definition quiet_source :: "'w env source_port \<Rightarrow> bool" where
  "quiet_source s \<longleftrightarrow> quiet_op (src_list_desired s)"

lemma collect_desired_quiet:
  assumes "\<forall>s \<in> set sources. quiet_source s"
  shows "env_log (snd (collect_desired i sources e)) = env_log e"
  using assms
proof (induction sources arbitrary: i e)
  case (Cons s rest)
  obtain r e' where s: "src_list_desired s e = (r, e')" by fastforce
  moreover have "env_log e' = env_log e" using Cons.prems s by (auto simp: quiet_source_def quiet_op_def dest: spec [of _ e])
  moreover have "env_log (snd (collect_desired (Suc i) rest e')) = env_log e'" using Cons by simp
  ultimately show ?case by (auto split: sum.split prod.split)
qed simp

text \<open>
  C28: When a source cannot be listed, the pass fails before any output is asked or changed
  and before anything is saved, and what outputs there are makes no difference.
\<close>

theorem failed_source_stops_the_pass:
  assumes "\<forall>s \<in> set (app_sources a). quiet_source s"
    and "collect_desired 0 (app_sources a) (ho_env h) = (Inl err, e)"
    and "reconcile_once a h = (r, h')"
  shows "r \<noteq> None \<and> env_log (ho_env h') = env_log (ho_env h) \<and> same_disk (ho_fs h) (ho_fs h') \<and>
    reconcile_once (a\<lparr>app_outputs := others\<rparr>) h = (r, h')"
proof -
  obtain l f where load: "store_load (app_store a) (ho_fs h) = (l, f)" by fastforce
  have "same_disk (ho_fs h) f"
    using load read_file_effect by (auto simp: store_load_def split: prod.splits sum.splits)
  moreover have "env_log e = env_log (ho_env h)"
    using collect_desired_quiet [OF assms(1), of 0 "ho_env h"] assms(2) by simp
  ultimately show ?thesis
    using assms(2,3) load by (cases l) (auto simp: reconcile_once_def)
qed

section \<open>The store stays readable\<close>

lemma owned_of_filter:
  assumes "p \<noteq> q"
  shows "owned_of p s = filter (\<lambda>m. m_output m = p) (filter (\<lambda>m. m_output m \<noteq> q) (sn_managed_records s))"
  using assms by (auto simp: owned_of_def intro: filter_cong)

lemma applied_others:
  assumes "applied clock ords input w = ((next, progressed, err), w')" "p \<noteq> out_provider (ri_output input)"
  shows "owned_of p next = owned_of p (ri_owned input)"
proof -
  let ?q = "out_provider (ri_output input)"
  let ?other = "filter (\<lambda>m. m_output m \<noteq> ?q) (sn_managed_records (ri_owned input))"
  obtain recs where wf: "lineage_wf ?q recs" and nxt: "next = snapshot_with_output_records ?other recs"
    using apply_result [OF _ assms(1) [unfolded applied_def]] plan_next_output by (metis plan_of_def)
  have "filter (\<lambda>m. m_output m = p) (map (\<lambda>l. the (fmlookup recs l)) (sorted_list_of_fset (fmdom recs))) = []"
    using lineage_wf_the [OF wf] assms(2) by (auto simp: filter_empty_conv)
  then show ?thesis
    unfolding owned_of_filter [OF assms(2), of "ri_owned input"] unfolding nxt owned_of_def snapshot_records
    by (simp del: filter_filter)
qed

lemma pass_store:
  assumes stored: "stored path d = Some (ri_owned input)"
    and clock: "valid_time ((case ri_now input of None \<Rightarrow> clock | Some f \<Rightarrow> f) w)"
    and run: "reconcile_and_persist (store_save path) clock ords input w d = ((res, e), w', d')"
  shows "\<exists>s. stored path d' = Some s \<and> (e = None \<longrightarrow> s = rr_next res) \<and>
    (\<forall>p. p \<noteq> out_provider (ri_output input) \<longrightarrow> owned_of p s = owned_of p (ri_owned input))"
proof (cases "unambiguous input")
  case True
  obtain nxt progressed err w1 where pass: "applied clock ords input w = ((nxt, progressed, err), w1)"
    by (metis prod_cases3 surj_pair)
  have "storable nxt"
    using applied_storable [OF stored_storable [OF stored] clock _ pass [unfolded applied_def]] by (simp add: plan_of_def)
  note saves = file_store.pass_saves [OF True pass run this]
  note others = applied_others [OF pass]
  from saves consider "stored path d' = Some nxt" "e = None \<longrightarrow> rr_next res = nxt"
    | "e \<noteq> None" "stored path d' = stored path d"
    by (cases "err = None \<or> progressed") auto
  then show ?thesis using others stored by cases auto
next
  case False
  then obtain k where "\<not> length (visible_with_key (out_provider (ri_output input)) (ri_visible input) k) \<le> 1"
    by (auto simp: unambiguous_def)
  then have "pl_ambiguities (plan_of ords input) \<noteq> []"
    by (auto simp: plan_of_def build_plan_lists find_ambiguities_iff)
  then have "d' = d" "e \<noteq> None"
    using run by (auto simp: reconcile_and_persist_def reconcile_output_def Let_def simp flip: plan_of_def
        split: list.splits)
  then show ?thesis using stored by auto
qed

definition keeps_store :: "'w app \<Rightarrow> 'w host \<Rightarrow> 'w host \<Rightarrow> bool" where
  "keeps_store a h h' \<longleftrightarrow>
     (\<forall>s. stored (app_store a) (ho_fs h) = Some s \<longrightarrow>
        (\<exists>s'. stored (app_store a) (ho_fs h') = Some s' \<and>
          (\<forall>p. p \<notin> out_provider ` set (app_outputs a) \<longrightarrow> owned_of p s' = owned_of p s)))"

lemma keeps_store_refl: "stored (app_store a) (ho_fs h') = stored (app_store a) (ho_fs h) \<Longrightarrow> keeps_store a h h'"
  by (simp add: keeps_store_def)

lemma keeps_store_trans: "keeps_store a h1 h2 \<Longrightarrow> keeps_store a h2 h3 \<Longrightarrow> keeps_store a h1 h3"
  unfolding keeps_store_def by metis

lemma outputs_keep_store:
  assumes calendar: "\<And>e. valid_time (app_calendar a e)" and outs: "set outs \<subseteq> set (app_outputs a)"
    and stored: "stored (app_store a) (ho_fs h) = Some owned"
    and run: "reconcile_outputs a desired i outs owned h = (r, h')"
  shows "keeps_store a h h'"
  using outs stored run
proof (induction outs arbitrary: i owned h)
  case Nil
  then show ?case by (simp add: keeps_store_refl)
next
  case (Cons out rest)
  obtain lv e1 where lv: "out_list_visible out (ho_env h) = (lv, e1)" by fastforce
  show ?case
  proof (cases lv)
    case (Inl err)
    then show ?thesis using Cons.prems(3) lv by (auto intro: keeps_store_refl)
  next
    case (Inr visible)
    let ?input = "output_input desired out visible owned"
    obtain res e e2 f where pass: "reconcile_and_persist (store_save (app_store a)) (app_calendar a)
        (app_orders a e1) ?input e1 (ho_fs h) = ((res, e), e2, f)" by (metis prod_cases3 surj_pair)
    have input: "ri_owned ?input = owned" "ri_output ?input = out" "ri_now ?input = None"
      by (simp_all add: output_input_def)
    obtain s where s: "stored (app_store a) f = Some s" "e = None \<longrightarrow> s = rr_next res"
      "\<forall>p. p \<noteq> out_provider out \<longrightarrow> owned_of p s = owned_of p owned"
      using pass_store [OF _ _ pass] Cons.prems(2) calendar unfolding input by auto
    have here: "keeps_store a h \<lparr>ho_env = e2, ho_fs = f\<rparr>"
      using s(1,3) Cons.prems(1,2) by (auto simp: keeps_store_def)
    show ?thesis
    proof (cases e)
      case None
      then have "reconcile_outputs a desired (Suc i) rest (rr_next res) \<lparr>ho_env = e2, ho_fs = f\<rparr> = (r, h')"
        using Cons.prems(3) lv Inr pass by simp
      from Cons.IH [OF _ _ this] Cons.prems(1) s(1,2) None
      have "keeps_store a \<lparr>ho_env = e2, ho_fs = f\<rparr> h'" by simp
      with here show ?thesis by (rule keeps_store_trans)
    next
      case (Some err)
      then show ?thesis using Cons.prems(3) lv Inr pass here by simp
    qed
  qed
qed

lemma once_keeps_store:
  assumes "\<And>e. valid_time (app_calendar a e)" "reconcile_once a h = (r, h')"
  shows "keeps_store a h h'"
proof -
  obtain l f where load: "store_load (app_store a) (ho_fs h) = (l, f)" by fastforce
  note same = file_store.load_keeps [OF load]
  show ?thesis
  proof (cases l)
    case (Inl err)
    then show ?thesis using assms(2) load same by (auto simp: reconcile_once_def intro: keeps_store_refl)
  next
    case (Inr owned)
    obtain c e where c: "collect_desired 0 (app_sources a) (ho_env h) = (c, e)" by fastforce
    have here: "keeps_store a h \<lparr>ho_env = e, ho_fs = f\<rparr>" using same by (simp add: keeps_store_refl)
    show ?thesis
    proof (cases c)
      case (Inl err)
      then show ?thesis using assms(2) load \<open>l = Inr owned\<close> c here by (auto simp: reconcile_once_def)
    next
      case (Inr desired)
      have "stored (app_store a) f = Some owned"
        using file_store.load_ok load \<open>l = Inr owned\<close> same by fastforce
      moreover have "reconcile_outputs a desired 0 (app_outputs a) owned \<lparr>ho_env = e, ho_fs = f\<rparr> = (r, h')"
        using assms(2) load \<open>l = Inr owned\<close> c Inr by (simp add: reconcile_once_def)
      ultimately have "keeps_store a \<lparr>ho_env = e, ho_fs = f\<rparr> h'"
        using outputs_keep_store [of a "app_outputs a" "\<lparr>ho_env = e, ho_fs = f\<rparr>" owned desired 0 r h'] assms(1)
        by simp
      with here show ?thesis by (rule keeps_store_trans)
    qed
  qed
qed

lemma attempt_keeps_store:
  assumes "\<And>e. valid_time (app_calendar a e)"
  shows "reconcile_attempt a startedAt delay h = Inl (r, h') \<Longrightarrow> keeps_store a h h'"
    and "reconcile_attempt a startedAt delay h = Inr (delay', h') \<Longrightarrow> keeps_store a h h'"
proof -
  obtain r1 h1 where once: "reconcile_once a h = (r1, h1)" by fastforce
  have here: "keeps_store a h h1" by (rule once_keeps_store [OF assms once])
  have "keeps_store a h h'" if "ho_fs h' = ho_fs h1" for h'
    using keeps_store_trans [OF here keeps_store_refl] that by simp
  then show "reconcile_attempt a startedAt delay h = Inl (r, h') \<Longrightarrow> keeps_store a h h'"
    "reconcile_attempt a startedAt delay h = Inr (delay', h') \<Longrightarrow> keeps_store a h h'"
    using once by (auto simp: reconcile_attempt_alt retry_after_def
        split: option.splits if_splits prod.splits)
qed

lemma loop_keeps_store:
  assumes "\<And>e. valid_time (app_calendar a e)"
    and "reconcile_loop a startedAt delay h = Some p"
  shows "keeps_store a h (snd p)"
proof -
  have "(\<forall>e. valid_time (app_calendar a e)) \<longrightarrow> keeps_store a h (snd p)"
    using _ assms(2)
  proof (rule reconcile_loop.raw_induct)
    fix loop and a :: "'a app" and startedAt delay h p
    assume ih: "\<And>a startedAt delay h p. loop a startedAt delay h = Some p \<Longrightarrow>
        (\<forall>e. valid_time (app_calendar a e)) \<longrightarrow> keeps_store a h (snd p)"
      and body: "(case reconcile_attempt a startedAt delay h of
          Inl r \<Rightarrow> Some r | Inr (delay', h') \<Rightarrow> loop a startedAt delay' h') = Some p"
    show "(\<forall>e. valid_time (app_calendar a e)) \<longrightarrow> keeps_store a h (snd p)"
    proof (intro impI)
      assume cal: "\<forall>e. valid_time (app_calendar a e)"
      show "keeps_store a h (snd p)"
      proof (cases "reconcile_attempt a startedAt delay h")
        case (Inl q)
        then show ?thesis using body attempt_keeps_store(1) [of a startedAt delay h] cal by (cases q) auto
      next
        case (Inr q)
        obtain delay' h' where q: "q = (delay', h')" by (cases q)
        have "keeps_store a h h'" using attempt_keeps_store(2) [of a startedAt delay h] cal Inr q by simp
        moreover have "keeps_store a h' (snd p)" using ih body Inr q cal by simp
        ultimately show ?thesis by (rule keeps_store_trans)
      qed
    qed
  qed
  then show ?thesis using assms(1) by blast
qed

text \<open>
  C18: Over a whole reconciliation with its retries, whatever sources, outputs and system
  calls do, a state file that held a snapshot still holds one, and the owned records of
  outputs that are not configured are still in it.
\<close>

theorem store_stays_readable:
  assumes "\<And>e. valid_time (app_calendar a e)"
    and "stored (app_store a) (ho_fs h) = Some s"
    and "reconcile a h = Some (r, h')"
  shows "\<exists>s'. stored (app_store a) (ho_fs h') = Some s' \<and>
    (\<forall>p. p \<notin> out_provider ` set (app_outputs a) \<longrightarrow> owned_of p s' = owned_of p s)"
  using loop_keeps_store [OF assms(1) assms(3) [unfolded reconcile_def]] assms(2)
  by (simp add: keeps_store_def)

end
