(* ===== verification/Steady_State.thy ===== *)
theory Steady_State
  imports App_Safety
begin

text \<open>
  The daemon after its first reconciliation, \<^verbatim>\<open>runSteadyState\<close> of
  \<^verbatim>\<open>internal/runtime/app.go\<close>: a loop over one channel of events, one goroutine per watched
  source that feeds it, and one goroutine per scheduled reconnect. The loop's handlers are
  functions; the interleaving of the loop with the goroutines is a labelled step relation.
  A handler is one step: while it runs the goroutines can only append to the channel, which
  they can as well do right after it.
\<close>

section \<open>State\<close>

record source_watch_event =
  se_source :: nat
  se_err :: "go_error option"
  se_hint :: bool
  se_reconnect :: bool

definition hint_event :: "nat \<Rightarrow> source_watch_event" where
  "hint_event i = \<lparr>se_source = i, se_err = None, se_hint = True, se_reconnect = False\<rparr>"

definition error_event :: "nat \<Rightarrow> go_error \<Rightarrow> source_watch_event" where
  "error_event i err = \<lparr>se_source = i, se_err = Some err, se_hint = False, se_reconnect = False\<rparr>"

definition reconnect_event :: "nat \<Rightarrow> source_watch_event" where
  "reconnect_event i = \<lparr>se_source = i, se_err = None, se_hint = False, se_reconnect = True\<rparr>"

definition err_source_watch_closed :: go_error where
  "err_source_watch_closed = ErrText ''source watch closed''"

text \<open>
  The goroutine of \<^verbatim>\<open>startSourceWatch\<close>: listening, with the channels for hints and for the error
  that are not nil, or sending an event. A stream that lacks a channel behaves like one that has closed it.
\<close>

datatype watch_stage = Listening bool bool | SendHint bool | SendLast go_error

record watch =
  wt_source :: nat
  wt_stage :: watch_stage

text \<open>The goroutine of \<^verbatim>\<open>scheduleSourceReconnect\<close>: sleeping, or ready to send.\<close>

record scheduled_reconnect =
  sr_source :: nat
  sr_delay :: duration
  sr_ready :: bool

datatype steady_log = LogReconcile string | LogHint nat | LogStart nat | LogDisconnect nat duration

text \<open>
  The variables of the loop, the channel, the goroutines, the log lines (newest first) and the
  error that \<^verbatim>\<open>runSteadyState\<close> has returned. Of the timer: whether it exists, and whether it has
  put its value into its channel.
\<close>

record 'w daemon =
  dm_host :: "'w host"
  dm_delays :: "(nat, duration) fmap"
  dm_pending :: "(nat, bool) fmap"
  dm_timer :: "bool option"
  dm_hints :: int
  dm_events :: "source_watch_event list"
  dm_watches :: "watch list"
  dm_reconnects :: "scheduled_reconnect list"
  dm_log :: "steady_log list"
  dm_done :: "go_error option"

text \<open>Reading a Go map gives the zero value for an absent key.\<close>

definition delay_of :: "'w daemon \<Rightarrow> nat \<Rightarrow> duration" where
  "delay_of d i = (case fmlookup (dm_delays d) i of None \<Rightarrow> 0 | Some x \<Rightarrow> x)"

definition pending_of :: "'w daemon \<Rightarrow> nat \<Rightarrow> bool" where
  "pending_of d i = (case fmlookup (dm_pending d) i of None \<Rightarrow> False | Some x \<Rightarrow> x)"

definition watchable_indices :: "'w app \<Rightarrow> nat list" where
  "watchable_indices a = filter (\<lambda>i. src_watchable (app_sources a ! i)) [0..<length (app_sources a)]"

section \<open>Handlers\<close>

definition log_line :: "steady_log \<Rightarrow> 'w daemon \<Rightarrow> 'w daemon" where
  "log_line x d = d\<lparr>dm_log := x # dm_log d\<rparr>"

definition run_pass :: "'w app \<Rightarrow> string \<Rightarrow> 'w daemon \<Rightarrow> 'w daemon option" where
  "run_pass a reason d =
     (case reconcile a (dm_host d) of
        None \<Rightarrow> None
      | Some (r, h) \<Rightarrow> Some ((log_line (LogReconcile reason) d)\<lparr>dm_host := h, dm_done := r\<rparr>))"

definition start_source_watch :: "nat \<Rightarrow> 'w daemon \<Rightarrow> 'w daemon" where
  "start_source_watch i d =
     (log_line (LogStart i) d)\<lparr>dm_watches := dm_watches d @ [\<lparr>wt_source = i, wt_stage = Listening True True\<rparr>]\<rparr>"

definition schedule_source_reconnect :: "nat \<Rightarrow> duration \<Rightarrow> 'w daemon \<Rightarrow> 'w daemon" where
  "schedule_source_reconnect i delay d =
     d\<lparr>dm_reconnects := dm_reconnects d @ [\<lparr>sr_source = i, sr_delay = delay, sr_ready = False\<rparr>]\<rparr>"

text \<open>\<^verbatim>\<open>stopTimer\<close>: a timer that has fired already loses the value in its channel.\<close>

definition stop_timer :: "bool option \<Rightarrow> bool option" where
  "stop_timer timer = map_option (\<lambda>fired. False) timer"

definition handle_timer :: "'w app \<Rightarrow> 'w daemon \<Rightarrow> 'w daemon option" where
  "handle_timer a d = run_pass a ''watch_hint'' (d\<lparr>dm_timer := None, dm_hints := 0\<rparr>)"

definition handle_hint :: "'w app \<Rightarrow> nat \<Rightarrow> 'w daemon \<Rightarrow> 'w daemon option" where
  "handle_hint a i d0 =
     (let d = log_line (LogHint i) (d0\<lparr>dm_delays := fmupd i (rt_initial (app_retry a)) (dm_delays d0)\<rparr>)
      in if app_debounce a \<le> 0 then run_pass a ''watch_hint'' d
         else if dm_timer d = None then Some (d\<lparr>dm_hints := 1, dm_timer := Some False\<rparr>)
         else Some (d\<lparr>dm_hints := dm_hints d + 1\<rparr>))"

definition handle_reconnect :: "'w app \<Rightarrow> nat \<Rightarrow> 'w daemon \<Rightarrow> 'w daemon option" where
  "handle_reconnect a i d0 =
     (let d1 = start_source_watch i (d0\<lparr>dm_pending := fmupd i False (dm_pending d0)\<rparr>);
          d2 = (if dm_timer d1 \<noteq> None
                then let stopped = d1\<lparr>dm_timer := stop_timer (dm_timer d1)\<rparr>
                     in stopped\<lparr>dm_timer := None, dm_hints := 0\<rparr>
                else d1)
      in case run_pass a ''watch_reconnect_repair'' d2 of
           None \<Rightarrow> None
         | Some d3 \<Rightarrow>
             if dm_done d3 \<noteq> None then Some d3
             else Some (d3\<lparr>dm_delays := fmupd i (rt_initial (app_retry a)) (dm_delays d3)\<rparr>))"

definition handle_disconnect :: "'w app \<Rightarrow> nat \<Rightarrow> 'w daemon \<Rightarrow> 'w daemon" where
  "handle_disconnect a i d =
     (if pending_of d i then d
      else let delay = delay_of d i
           in schedule_source_reconnect i delay
                ((log_line (LogDisconnect i delay) d)
                   \<lparr>dm_pending := fmupd i True (dm_pending d),
                    dm_delays := fmupd i (next_backoff_delay delay (rt_max_interval (app_retry a))) (dm_delays d)\<rparr>))"

definition handle_event :: "'w app \<Rightarrow> source_watch_event \<Rightarrow> 'w daemon \<Rightarrow> 'w daemon option" where
  "handle_event a event d =
     (if se_hint event then handle_hint a (se_source event) d
      else if se_reconnect event then handle_reconnect a (se_source event) d
      else Some (handle_disconnect a (se_source event) d))"

text \<open>
  What precedes the loop. The watches start in the order of the sources here; Go ranges over a
  map, and the goroutines are scheduled in any order anyway.
\<close>

definition idle_daemon :: "'w host \<Rightarrow> 'w daemon" where
  "idle_daemon h =
     \<lparr>dm_host = h, dm_delays = fmempty, dm_pending = fmempty, dm_timer = None, dm_hints = 0, dm_events = [],
      dm_watches = [], dm_reconnects = [], dm_log = [], dm_done = None\<rparr>"

definition start_watches :: "'w app \<Rightarrow> 'w daemon \<Rightarrow> 'w daemon" where
  "start_watches a d =
     fold (\<lambda>i d. start_source_watch i (d\<lparr>dm_delays := fmupd i (rt_initial (app_retry a)) (dm_delays d)\<rparr>))
       (watchable_indices a) d"

definition steady_start :: "'w app \<Rightarrow> 'w host \<Rightarrow> 'w daemon option" where
  "steady_start a h =
     (if watchable_indices a = [] then Some (idle_daemon h)
      else case run_pass a ''watch_startup_handoff'' (start_watches a (idle_daemon h)) of
             None \<Rightarrow> None
           | Some d \<Rightarrow>
               if dm_done d \<noteq> None then Some d
               else Some (d\<lparr>dm_delays := fmmap (\<lambda>_. rt_initial (app_retry a)) (dm_delays d)\<rparr>))"

section \<open>Steps\<close>

text \<open>
  A move of the watch goroutine that does not send: \<open>None\<close> when it returns. The context's error
  is a parameter; the errors come from the source.
\<close>

inductive watch_move :: "go_error option \<Rightarrow> watch_stage \<Rightarrow> watch_stage option \<Rightarrow> bool" for ctx where
  hint: "watch_move ctx (Listening True e) (Some (SendHint e))"
| hints_closed: "watch_move ctx (Listening True e) (Some (Listening False e))"
| err_closed: "watch_move ctx (Listening h True) (Some (Listening h False))"
| err_nil: "watch_move ctx (Listening h True) None"
| err_canceled: "err_is x ErrCanceled \<Longrightarrow> watch_move ctx (Listening h True) None"
| err: "\<not> err_is x ErrCanceled \<Longrightarrow> watch_move ctx (Listening h True) (Some (SendLast x))"
| closed: "ctx = None \<Longrightarrow> watch_move ctx (Listening False False) (Some (SendLast err_source_watch_closed))"
| ended: "ctx \<noteq> None \<Longrightarrow> watch_move ctx (Listening h e) None"
| hint_ended: "ctx \<noteq> None \<Longrightarrow> watch_move ctx (SendHint e) (Some (Listening True e))"
| last_ended: "ctx \<noteq> None \<Longrightarrow> watch_move ctx (SendLast x) None"

inductive_cases watch_move_ListeningE: "watch_move ctx (Listening h e) s"
inductive_cases watch_move_SendHintE: "watch_move ctx (SendHint e) s"
inductive_cases watch_move_SendLastE: "watch_move ctx (SendLast x) s"
inductive_simps watch_move_None_iff: "watch_move ctx s None"

datatype steady_label = Tau | Quits nat | TimerFires | Receives source_watch_event | Returns

definition ctx_of :: "'w daemon \<Rightarrow> go_error option" where
  "ctx_of d = ctx_err (ho_env (dm_host d))"

definition has_room :: "'w app \<Rightarrow> 'w daemon \<Rightarrow> bool" where
  "has_room a d \<longleftrightarrow> length (dm_events d) < length (watchable_indices a)"

definition send_event :: "source_watch_event \<Rightarrow> 'w daemon \<Rightarrow> 'w daemon" where
  "send_event ev d = d\<lparr>dm_events := dm_events d @ [ev]\<rparr>"

inductive steady_step :: "'w app \<Rightarrow> 'w daemon \<Rightarrow> steady_label \<Rightarrow> 'w daemon \<Rightarrow> bool" for a where
  outside: "env_log e = env_log (ho_env (dm_host d)) \<Longrightarrow>
    steady_step a d Tau (d\<lparr>dm_host := (dm_host d)\<lparr>ho_env := e\<rparr>\<rparr>)"
| watch_moves: "dm_watches d = xs @ w # ys \<Longrightarrow> watch_move (ctx_of d) (wt_stage w) (Some s) \<Longrightarrow>
    steady_step a d Tau (d\<lparr>dm_watches := xs @ w\<lparr>wt_stage := s\<rparr> # ys\<rparr>)"
| watch_quits: "dm_watches d = xs @ w # ys \<Longrightarrow> watch_move (ctx_of d) (wt_stage w) None \<Longrightarrow>
    steady_step a d (Quits (wt_source w)) (d\<lparr>dm_watches := xs @ ys\<rparr>)"
| watch_hints: "dm_watches d = xs @ w # ys \<Longrightarrow> wt_stage w = SendHint e \<Longrightarrow> has_room a d \<Longrightarrow>
    steady_step a d Tau
      (send_event (hint_event (wt_source w)) (d\<lparr>dm_watches := xs @ w\<lparr>wt_stage := Listening True e\<rparr> # ys\<rparr>))"
| watch_fails: "dm_watches d = xs @ w # ys \<Longrightarrow> wt_stage w = SendLast err \<Longrightarrow> has_room a d \<Longrightarrow>
    steady_step a d Tau (send_event (error_event (wt_source w) err) (d\<lparr>dm_watches := xs @ ys\<rparr>))"
| reconnect_wakes: "dm_reconnects d = xs @ r # ys \<Longrightarrow>
    steady_step a d Tau (d\<lparr>dm_reconnects := xs @ r\<lparr>sr_ready := True\<rparr> # ys\<rparr>)"
| reconnect_quits: "dm_reconnects d = xs @ r # ys \<Longrightarrow> ctx_of d \<noteq> None \<Longrightarrow>
    steady_step a d (Quits (sr_source r)) (d\<lparr>dm_reconnects := xs @ ys\<rparr>)"
| reconnect_sends: "dm_reconnects d = xs @ r # ys \<Longrightarrow> sr_ready r \<Longrightarrow> has_room a d \<Longrightarrow>
    steady_step a d Tau (send_event (reconnect_event (sr_source r)) (d\<lparr>dm_reconnects := xs @ ys\<rparr>))"
| timer_expires: "dm_timer d = Some False \<Longrightarrow> steady_step a d Tau (d\<lparr>dm_timer := Some True\<rparr>)"
| loop_timer: "dm_done d = None \<Longrightarrow> dm_timer d = Some True \<Longrightarrow> handle_timer a d = Some d' \<Longrightarrow>
    steady_step a d TimerFires d'"
| loop_event: "dm_done d = None \<Longrightarrow> dm_events d = ev # rest \<Longrightarrow>
    handle_event a ev (d\<lparr>dm_events := rest\<rparr>) = Some d' \<Longrightarrow> steady_step a d (Receives ev) d'"
| loop_ends: "dm_done d = None \<Longrightarrow> ctx_of d = Some err \<Longrightarrow>
    steady_step a d Returns (d\<lparr>dm_timer := stop_timer (dm_timer d), dm_done := Some err\<rparr>)"

inductive steady_run :: "'w app \<Rightarrow> 'w host \<Rightarrow> steady_label list \<Rightarrow> 'w daemon \<Rightarrow> bool" for a h where
  start: "steady_start a h = Some d \<Longrightarrow> steady_run a h [] d"
| step: "steady_run a h ls d \<Longrightarrow> steady_step a d l d' \<Longrightarrow> steady_run a h (ls @ [l]) d'"

lemma steady_run_invariant:
  assumes "steady_run a h ls d"
    and "\<And>d. steady_start a h = Some d \<Longrightarrow> I [] d"
    and "\<And>ls d l d'. I ls d \<Longrightarrow> steady_step a d l d' \<Longrightarrow> I (ls @ [l]) d'"
  shows "I ls d"
  using assms(1) by induction (auto intro: assms(2,3))

lemma start_watches_host [simp]: "dm_host (start_watches a (idle_daemon h)) = h"
proof -
  have "dm_host (fold (\<lambda>i d. start_source_watch i (d\<lparr>dm_delays := f i d\<rparr>)) is d) = dm_host d"
    for f "is" and d :: "'a daemon"
    by (induction "is" arbitrary: d) (simp_all add: start_source_watch_def log_line_def)
  then show ?thesis by (simp add: start_watches_def idle_daemon_def)
qed

end
