(* ===== verification/Steady_Correct.thy ===== *)
theory Steady_Correct
  imports Steady_State
begin

text \<open>
  Invariants of the daemon's steady state: every watched source has exactly one carrier (a
  watch, an error on its way, a scheduled reconnect, or a reconnect on its way), no hint is
  forgotten, and the loop ends for a cause only.
\<close>

section \<open>Carriers\<close>

definition watching :: "'w daemon \<Rightarrow> nat \<Rightarrow> nat" where
  "watching d i = length (filter (\<lambda>w. wt_source w = i) (dm_watches d))"

definition failing :: "'w daemon \<Rightarrow> nat \<Rightarrow> nat" where
  "failing d i = length (filter (\<lambda>ev. se_source ev = i \<and> \<not> se_hint ev \<and> \<not> se_reconnect ev) (dm_events d))"

definition reconnecting :: "'w daemon \<Rightarrow> nat \<Rightarrow> nat" where
  "reconnecting d i = length (filter (\<lambda>r. sr_source r = i) (dm_reconnects d)) +
     length (filter (\<lambda>ev. se_source ev = i \<and> \<not> se_hint ev \<and> se_reconnect ev) (dm_events d))"

definition quits :: "steady_label list \<Rightarrow> nat \<Rightarrow> nat" where
  "quits ls i = length (filter (\<lambda>l. l = Quits i) ls)"

lemmas carriers = watching_def failing_def reconnecting_def

lemmas event_defs = hint_event_def error_event_def reconnect_event_def send_event_def

text \<open>What a step outside the loop may change.\<close>

definition background :: "'w daemon \<Rightarrow> steady_label \<Rightarrow> 'w daemon \<Rightarrow> bool" where
  "background d l d' \<longleftrightarrow>
     dm_delays d' = dm_delays d \<and> dm_pending d' = dm_pending d \<and> dm_hints d' = dm_hints d \<and> dm_log d' = dm_log d \<and>
     (dm_timer d' = None \<longleftrightarrow> dm_timer d = None) \<and> (dm_done d' = None \<longrightarrow> dm_done d = None) \<and>
     sr_delay ` set (dm_reconnects d') \<subseteq> sr_delay ` set (dm_reconnects d) \<and>
     (\<forall>i. watching d' i + failing d' i \<le> watching d i + failing d i \<and> reconnecting d' i \<le> reconnecting d i \<and>
        watching d' i + failing d' i + reconnecting d' i + quits [l] i = watching d i + failing d i + reconnecting d i)"

lemma steady_step_cases:
  assumes "steady_step a d l d'"
  obtains "background d l d'"
  | "l = TimerFires" "dm_done d = None" "dm_timer d = Some True" "handle_timer a d = Some d'"
  | ev rest where "l = Receives ev" "dm_done d = None" "dm_events d = ev # rest"
      "handle_event a ev (d\<lparr>dm_events := rest\<rparr>) = Some d'"
  using assms
proof cases
  case outside then show ?thesis by (intro that(1)) (simp add: background_def carriers quits_def)
next
  case watch_moves then show ?thesis by (intro that(1)) (simp add: background_def carriers quits_def)
next
  case watch_quits then show ?thesis by (intro that(1)) (simp add: background_def carriers quits_def)
next
  case watch_hints then show ?thesis by (intro that(1)) (simp add: background_def carriers quits_def event_defs)
next
  case watch_fails then show ?thesis by (intro that(1)) (simp add: background_def carriers quits_def event_defs)
next
  case reconnect_wakes then show ?thesis by (intro that(1)) (simp add: background_def carriers quits_def)
next
  case reconnect_quits then show ?thesis by (intro that(1)) (auto simp: background_def carriers quits_def)
next
  case reconnect_sends then show ?thesis by (intro that(1)) (auto simp: background_def carriers quits_def event_defs)
next
  case timer_expires then show ?thesis by (intro that(1)) (simp add: background_def carriers quits_def)
next
  case loop_timer then show ?thesis using that(2) by blast
next
  case loop_event then show ?thesis using that(3) by blast
next
  case loop_ends then show ?thesis
    by (intro that(1)) (simp add: background_def carriers quits_def stop_timer_def)
qed

section \<open>What the handlers change\<close>

lemma run_pass_fields:
  assumes "run_pass a reason d = Some d'"
  shows "dm_delays d' = dm_delays d" "dm_pending d' = dm_pending d" "dm_timer d' = dm_timer d"
    "dm_hints d' = dm_hints d" "dm_events d' = dm_events d" "dm_watches d' = dm_watches d"
    "dm_reconnects d' = dm_reconnects d" "dm_log d' = LogReconcile reason # dm_log d"
  using assms by (auto simp: run_pass_def log_line_def split: option.splits)

lemma handle_timer_fields:
  assumes "handle_timer a d = Some d'"
  shows "dm_delays d' = dm_delays d" "dm_pending d' = dm_pending d" "dm_timer d' = None"
    "dm_hints d' = 0" "dm_events d' = dm_events d" "dm_watches d' = dm_watches d"
    "dm_reconnects d' = dm_reconnects d" "dm_log d' = LogReconcile ''watch_hint'' # dm_log d"
  using run_pass_fields [OF assms [unfolded handle_timer_def]] by simp_all

lemma handle_hint_cases:
  assumes "handle_hint a i d = Some d'"
  shows "dm_delays d' = fmupd i (rt_initial (app_retry a)) (dm_delays d)" "dm_pending d' = dm_pending d"
    "dm_events d' = dm_events d" "dm_watches d' = dm_watches d" "dm_reconnects d' = dm_reconnects d"
    "(dm_timer d' = dm_timer d \<and> dm_hints d' = dm_hints d \<and> dm_log d' = LogReconcile ''watch_hint'' # LogHint i # dm_log d) \<or>
     (dm_timer d = None \<and> dm_timer d' = Some False \<and> dm_hints d' = 1 \<and> dm_log d' = LogHint i # dm_log d) \<or>
     (dm_timer d \<noteq> None \<and> dm_timer d' = dm_timer d \<and> dm_hints d' = dm_hints d + 1 \<and> dm_log d' = LogHint i # dm_log d)"
proof -
  define d1 where "d1 = log_line (LogHint i) (d\<lparr>dm_delays := fmupd i (rt_initial (app_retry a)) (dm_delays d)\<rparr>)"
  have d1: "dm_delays d1 = fmupd i (rt_initial (app_retry a)) (dm_delays d)" "dm_pending d1 = dm_pending d"
    "dm_events d1 = dm_events d" "dm_watches d1 = dm_watches d" "dm_reconnects d1 = dm_reconnects d"
    "dm_timer d1 = dm_timer d" "dm_hints d1 = dm_hints d" "dm_log d1 = LogHint i # dm_log d"
    by (simp_all add: d1_def log_line_def)
  have "(if app_debounce a \<le> 0 then run_pass a ''watch_hint'' d1
      else if dm_timer d1 = None then Some (d1\<lparr>dm_hints := 1, dm_timer := Some False\<rparr>)
      else Some (d1\<lparr>dm_hints := dm_hints d1 + 1\<rparr>)) = Some d'"
    using assms unfolding handle_hint_def Let_def d1_def .
  then have "run_pass a ''watch_hint'' d1 = Some d' \<or>
      dm_timer d1 = None \<and> d1\<lparr>dm_hints := 1, dm_timer := Some False\<rparr> = d' \<or>
      dm_timer d1 \<noteq> None \<and> d1\<lparr>dm_hints := dm_hints d1 + 1\<rparr> = d'"
    by (simp only: split: if_splits) simp_all
  then consider "run_pass a ''watch_hint'' d1 = Some d'"
    | "dm_timer d1 = None \<and> d1\<lparr>dm_hints := 1, dm_timer := Some False\<rparr> = d'"
    | "dm_timer d1 \<noteq> None \<and> d1\<lparr>dm_hints := dm_hints d1 + 1\<rparr> = d'" by blast
  then have "(dm_delays d' = dm_delays d1 \<and> dm_pending d' = dm_pending d1 \<and> dm_events d' = dm_events d1 \<and>
      dm_watches d' = dm_watches d1 \<and> dm_reconnects d' = dm_reconnects d1) \<and>
    ((dm_timer d' = dm_timer d \<and> dm_hints d' = dm_hints d \<and> dm_log d' = LogReconcile ''watch_hint'' # LogHint i # dm_log d) \<or>
     (dm_timer d = None \<and> dm_timer d' = Some False \<and> dm_hints d' = 1 \<and> dm_log d' = LogHint i # dm_log d) \<or>
     (dm_timer d \<noteq> None \<and> dm_timer d' = dm_timer d \<and> dm_hints d' = dm_hints d + 1 \<and> dm_log d' = LogHint i # dm_log d))"
  proof cases
    case 1
    from run_pass_fields [OF this] d1 show ?thesis by simp
  qed (use d1 in auto)
  with d1 show "dm_delays d' = fmupd i (rt_initial (app_retry a)) (dm_delays d)" "dm_pending d' = dm_pending d"
    "dm_events d' = dm_events d" "dm_watches d' = dm_watches d" "dm_reconnects d' = dm_reconnects d"
    "(dm_timer d' = dm_timer d \<and> dm_hints d' = dm_hints d \<and> dm_log d' = LogReconcile ''watch_hint'' # LogHint i # dm_log d) \<or>
     (dm_timer d = None \<and> dm_timer d' = Some False \<and> dm_hints d' = 1 \<and> dm_log d' = LogHint i # dm_log d) \<or>
     (dm_timer d \<noteq> None \<and> dm_timer d' = dm_timer d \<and> dm_hints d' = dm_hints d + 1 \<and> dm_log d' = LogHint i # dm_log d)"
    by simp_all
qed

lemma handle_reconnect_fields:
  assumes "handle_reconnect a i d = Some d'"
  shows "dm_pending d' = fmupd i False (dm_pending d)" "dm_timer d' = None"
    "dm_events d' = dm_events d" "dm_reconnects d' = dm_reconnects d"
    "dm_watches d' = dm_watches d @ [\<lparr>wt_source = i, wt_stage = Listening True True\<rparr>]"
    "dm_log d' = LogReconcile ''watch_reconnect_repair'' # LogStart i # dm_log d"
    "dm_hints d' = (if dm_timer d = None then dm_hints d else 0)"
    "dm_done d' = None \<longrightarrow> dm_delays d' = fmupd i (rt_initial (app_retry a)) (dm_delays d)"
proof -
  define d1 where "d1 = start_source_watch i (d\<lparr>dm_pending := fmupd i False (dm_pending d)\<rparr>)"
  define d2 where "d2 = (if dm_timer d1 \<noteq> None
    then d1\<lparr>dm_timer := stop_timer (dm_timer d1)\<rparr>\<lparr>dm_timer := None, dm_hints := 0\<rparr> else d1)"
  have "(case run_pass a ''watch_reconnect_repair'' d2 of
      None \<Rightarrow> None
    | Some d3 \<Rightarrow> if dm_done d3 \<noteq> None then Some d3
        else Some (d3\<lparr>dm_delays := fmupd i (rt_initial (app_retry a)) (dm_delays d3)\<rparr>)) = Some d'"
    using assms unfolding handle_reconnect_def Let_def d1_def [symmetric] d2_def [symmetric] .
  then have "\<exists>d3. run_pass a ''watch_reconnect_repair'' d2 = Some d3 \<and>
      d' = (if dm_done d3 \<noteq> None then d3 else d3\<lparr>dm_delays := fmupd i (rt_initial (app_retry a)) (dm_delays d3)\<rparr>)"
    by (cases "run_pass a ''watch_reconnect_repair'' d2") (simp_all split: if_splits)
  then obtain d3 where pass: "run_pass a ''watch_reconnect_repair'' d2 = Some d3"
    and d': "d' = (if dm_done d3 \<noteq> None then d3 else d3\<lparr>dm_delays := fmupd i (rt_initial (app_retry a)) (dm_delays d3)\<rparr>)"
    by blast
  have d2: "dm_pending d2 = fmupd i False (dm_pending d)" "dm_timer d2 = None"
      "dm_events d2 = dm_events d" "dm_reconnects d2 = dm_reconnects d" "dm_delays d2 = dm_delays d"
      "dm_watches d2 = dm_watches d @ [\<lparr>wt_source = i, wt_stage = Listening True True\<rparr>]"
      "dm_log d2 = LogStart i # dm_log d" "dm_hints d2 = (if dm_timer d = None then dm_hints d else 0)"
    by (simp_all add: d2_def d1_def start_source_watch_def log_line_def)
  show "dm_pending d' = fmupd i False (dm_pending d)" "dm_timer d' = None"
    "dm_events d' = dm_events d" "dm_reconnects d' = dm_reconnects d"
    "dm_watches d' = dm_watches d @ [\<lparr>wt_source = i, wt_stage = Listening True True\<rparr>]"
    "dm_log d' = LogReconcile ''watch_reconnect_repair'' # LogStart i # dm_log d"
    "dm_hints d' = (if dm_timer d = None then dm_hints d else 0)"
    "dm_done d' = None \<longrightarrow> dm_delays d' = fmupd i (rt_initial (app_retry a)) (dm_delays d)"
    using d2 run_pass_fields [OF pass] unfolding d' by (cases "dm_done d3"; simp)+
qed

lemma start_watches_fields:
  "dm_delays (start_watches a d) = fold (\<lambda>i. fmupd i (rt_initial (app_retry a))) (watchable_indices a) (dm_delays d) \<and>
   dm_watches (start_watches a d) = dm_watches d @ map (\<lambda>i. \<lparr>wt_source = i, wt_stage = Listening True True\<rparr>) (watchable_indices a) \<and>
   dm_log (start_watches a d) = rev (map LogStart (watchable_indices a)) @ dm_log d \<and>
   dm_pending (start_watches a d) = dm_pending d \<and> dm_timer (start_watches a d) = dm_timer d \<and>
   dm_hints (start_watches a d) = dm_hints d \<and> dm_events (start_watches a d) = dm_events d \<and>
   dm_reconnects (start_watches a d) = dm_reconnects d"
proof -
  define f where "f i d = start_source_watch i (d\<lparr>dm_delays := fmupd i (rt_initial (app_retry a)) (dm_delays d)\<rparr>)"
    for i and d :: "'a daemon"
  have f: "dm_delays (f i d) = fmupd i (rt_initial (app_retry a)) (dm_delays d)"
    "dm_watches (f i d) = dm_watches d @ [\<lparr>wt_source = i, wt_stage = Listening True True\<rparr>]"
    "dm_log (f i d) = LogStart i # dm_log d" "dm_pending (f i d) = dm_pending d" "dm_timer (f i d) = dm_timer d"
    "dm_hints (f i d) = dm_hints d" "dm_events (f i d) = dm_events d" "dm_reconnects (f i d) = dm_reconnects d"
    for i d
    by (simp_all add: f_def start_source_watch_def log_line_def)
  have "dm_delays (fold f is d) = fold (\<lambda>i. fmupd i (rt_initial (app_retry a))) is (dm_delays d) \<and>
      dm_watches (fold f is d) = dm_watches d @ map (\<lambda>i. \<lparr>wt_source = i, wt_stage = Listening True True\<rparr>) is \<and>
      dm_log (fold f is d) = rev (map LogStart is) @ dm_log d \<and>
      dm_pending (fold f is d) = dm_pending d \<and> dm_timer (fold f is d) = dm_timer d \<and>
      dm_hints (fold f is d) = dm_hints d \<and>
      dm_events (fold f is d) = dm_events d \<and> dm_reconnects (fold f is d) = dm_reconnects d" for "is"
    by (induction "is" arbitrary: d) (simp_all add: f)
  then show ?thesis by (simp add: start_watches_def flip: f_def)
qed

lemma handle_event_cases:
  assumes "handle_event a ev d = Some d'"
  obtains (hint) "se_hint ev" "handle_hint a (se_source ev) d = Some d'"
  | (reconnect) "\<not> se_hint ev" "se_reconnect ev" "handle_reconnect a (se_source ev) d = Some d'"
  | (disconnect) "\<not> se_hint ev" "\<not> se_reconnect ev" "handle_disconnect a (se_source ev) d = d'"
proof (cases "se_hint ev")
  case True
  then show ?thesis using assms that(1) by (simp add: handle_event_def)
next
  case False
  then show ?thesis using assms that(2,3) by (cases "se_reconnect ev") (simp_all add: handle_event_def)
qed

section \<open>Every watched source has one carrier\<close>

definition carried :: "'w app \<Rightarrow> steady_label list \<Rightarrow> 'w daemon \<Rightarrow> bool" where
  "carried a ls d \<longleftrightarrow>
     (\<forall>i. watching d i + failing d i + reconnecting d i + quits ls i =
            (if i \<in> set (watchable_indices a) then 1 else 0) \<and>
          (pending_of d i \<longrightarrow> watching d i + failing d i = 0) \<and>
          (\<not> pending_of d i \<longrightarrow> reconnecting d i = 0))"

lemma quits_snoc [simp]: "quits (ls @ [l]) i = quits ls i + quits [l] i"
  by (simp add: quits_def)

lemma quits_loop [simp]: "quits [TimerFires] i = 0" "quits [Receives ev] i = 0"
  by (simp_all add: quits_def)

lemma carried_background:
  assumes "carried a ls d" "background d l d'"
  shows "carried a (ls @ [l]) d'"
  unfolding carried_def
proof (intro allI conjI impI)
  fix i
  have same: "pending_of d' i = pending_of d i" using assms(2) by (simp add: pending_of_def background_def)
  have le: "watching d' i + failing d' i \<le> watching d i + failing d i" "reconnecting d' i \<le> reconnecting d i"
    and eq: "watching d' i + failing d' i + reconnecting d' i + quits [l] i = watching d i + failing d i + reconnecting d i"
    using assms(2) unfolding background_def by blast+
  note old = assms(1) [unfolded carried_def, rule_format, of i]
  show "watching d' i + failing d' i + reconnecting d' i + quits (ls @ [l]) i =
      (if i \<in> set (watchable_indices a) then 1 else 0)"
    using old eq by simp
  show "watching d' i + failing d' i = 0" if "pending_of d' i" using old le that same by simp
  show "reconnecting d' i = 0" if "\<not> pending_of d' i" using old le that same by simp
qed

lemma count_start: "distinct xs \<Longrightarrow> length (filter (\<lambda>x. x = i) xs) = (if i \<in> set xs then 1 else 0)"
  by (induction xs) auto

lemma steady_start_fields:
  assumes "steady_start a h = Some d"
  shows "dm_watches d = map (\<lambda>i. \<lparr>wt_source = i, wt_stage = Listening True True\<rparr>) (watchable_indices a)"
    "dm_pending d = fmempty" "dm_timer d = None" "dm_hints d = 0" "dm_events d = []" "dm_reconnects d = []"
    "dm_log d = [] \<and> watchable_indices a = [] \<or>
      dm_log d = LogReconcile ''watch_startup_handoff'' # rev (map LogStart (watchable_indices a))"
    "dm_done d = None \<longrightarrow> (\<forall>i \<in> set (watchable_indices a). delay_of d i = rt_initial (app_retry a))"
proof -
  have dom: "\<forall>i \<in> set is. fmlookup (fold (\<lambda>i. fmupd i c) is f) i = Some c" for c :: duration and "is" :: "nat list" and f
    by (induction "is" rule: rev_induct) auto
  have fields: "dm_watches d = map (\<lambda>i. \<lparr>wt_source = i, wt_stage = Listening True True\<rparr>) (watchable_indices a) \<and>
    dm_pending d = fmempty \<and> dm_timer d = None \<and> dm_hints d = 0 \<and> dm_events d = [] \<and> dm_reconnects d = [] \<and>
    (dm_log d = [] \<and> watchable_indices a = [] \<or>
      dm_log d = LogReconcile ''watch_startup_handoff'' # rev (map LogStart (watchable_indices a))) \<and>
    (dm_done d = None \<longrightarrow> (\<forall>i \<in> set (watchable_indices a). delay_of d i = rt_initial (app_retry a)))"
  proof (cases "watchable_indices a = []")
    case True
    then have "d = idle_daemon h" using assms by (simp add: steady_start_def)
    with True show ?thesis by (simp add: idle_daemon_def)
  next
    case False
    let ?d1 = "start_watches a (idle_daemon h)"
    from False obtain d1 where pass: "run_pass a ''watch_startup_handoff'' ?d1 = Some d1"
      and d: "d = (if dm_done d1 \<noteq> None then d1 else d1\<lparr>dm_delays := fmmap (\<lambda>_. rt_initial (app_retry a)) (dm_delays d1)\<rparr>)"
      using assms by (cases "run_pass a ''watch_startup_handoff'' ?d1") (simp_all add: steady_start_def split: if_splits)
    note f = run_pass_fields [OF pass] start_watches_fields [of a "idle_daemon h"]
    have "\<forall>i \<in> set (watchable_indices a). fmlookup (dm_delays d1) i = Some (rt_initial (app_retry a))"
      using f dom by simp
    then show ?thesis
      using f unfolding d by (cases "dm_done d1") (simp_all add: idle_daemon_def delay_of_def)
  qed
  then show "dm_watches d = map (\<lambda>i. \<lparr>wt_source = i, wt_stage = Listening True True\<rparr>) (watchable_indices a)"
    "dm_pending d = fmempty" "dm_timer d = None" "dm_hints d = 0" "dm_events d = []" "dm_reconnects d = []"
    "dm_log d = [] \<and> watchable_indices a = [] \<or>
      dm_log d = LogReconcile ''watch_startup_handoff'' # rev (map LogStart (watchable_indices a))"
    "dm_done d = None \<longrightarrow> (\<forall>i \<in> set (watchable_indices a). delay_of d i = rt_initial (app_retry a))"
    by blast+
qed

lemma carried_start:
  assumes "steady_start a h = Some d"
  shows "carried a [] d"
proof -
  have "distinct (watchable_indices a)" by (simp add: watchable_indices_def)
  from count_start [OF this] have "watching d i = (if i \<in> set (watchable_indices a) then 1 else 0)" for i
    by (simp only: watching_def steady_start_fields(1) [OF assms] filter_map comp_def length_map watch.simps)
  moreover have "failing d i = 0" "reconnecting d i = 0" "\<not> pending_of d i" "quits [] i = 0" for i
    by (simp_all add: carriers pending_of_def quits_def steady_start_fields [OF assms])
  ultimately show ?thesis by (simp add: carried_def)
qed

lemma carried_event:
  assumes "carried a ls d" "dm_events d = ev # rest" "handle_event a ev (d\<lparr>dm_events := rest\<rparr>) = Some d'"
  shows "carried a (ls @ [Receives ev]) d'"
proof -
  let ?d = "d\<lparr>dm_events := rest\<rparr>"
  note old = assms(1) [unfolded carried_def carriers assms(2), rule_format]
  from assms(3) show ?thesis
  proof (cases rule: handle_event_cases)
    case hint
    note 1 = this
    show ?thesis
      using old handle_hint_cases(2-5) [OF 1(2)] 1(1)
      by (simp add: carried_def carriers pending_of_def cong: conj_cong)
  next
    case reconnect
    note 2 = this
    note f = handle_reconnect_fields [OF 2(3)]
    show ?thesis
      unfolding carried_def
    proof
      fix i
      show "watching d' i + failing d' i + reconnecting d' i + quits (ls @ [Receives ev]) i =
            (if i \<in> set (watchable_indices a) then 1 else 0) \<and>
          (pending_of d' i \<longrightarrow> watching d' i + failing d' i = 0) \<and>
          (\<not> pending_of d' i \<longrightarrow> reconnecting d' i = 0)"
        using old [of i] f(1,3,4,5) 2(1,2)
        by (cases "i = se_source ev"; cases "i \<in> set (watchable_indices a)")
          (auto simp: carriers pending_of_def)
    qed
  next
    case disconnect
    note 3 = this
    have unpending: "\<not> pending_of ?d (se_source ev)" using old [of "se_source ev"] 3(1,2) by (auto simp: pending_of_def)
    have f: "dm_pending d' = fmupd (se_source ev) True (dm_pending d)" "dm_events d' = rest" "dm_watches d' = dm_watches d"
      "dm_reconnects d' = dm_reconnects d @
        [\<lparr>sr_source = se_source ev, sr_delay = delay_of ?d (se_source ev), sr_ready = False\<rparr>]"
      using 3(3) [symmetric] unpending by (simp_all add: handle_disconnect_def schedule_source_reconnect_def log_line_def Let_def)
    show ?thesis
      unfolding carried_def
    proof
      fix i
      show "watching d' i + failing d' i + reconnecting d' i + quits (ls @ [Receives ev]) i =
            (if i \<in> set (watchable_indices a) then 1 else 0) \<and>
          (pending_of d' i \<longrightarrow> watching d' i + failing d' i = 0) \<and>
          (\<not> pending_of d' i \<longrightarrow> reconnecting d' i = 0)"
        using old [of i] f 3(1,2)
        by (cases "i = se_source ev"; cases "i \<in> set (watchable_indices a)")
          (auto simp: carriers pending_of_def)
    qed
  qed
qed

lemma carried_step:
  assumes "carried a ls d" "steady_step a d l d'"
  shows "carried a (ls @ [l]) d'"
  using assms(2)
proof (cases rule: steady_step_cases)
  case 1
  with assms(1) show ?thesis by (rule carried_background)
next
  case 2
  with assms(1) handle_timer_fields [OF 2(4)] show ?thesis
    by (simp add: carried_def carriers pending_of_def)
next
  case 3
  with carried_event [OF assms(1) 3(3,4)] show ?thesis by simp
qed

lemma carried_run: "steady_run a h ls d \<Longrightarrow> carried a ls d"
  by (rule steady_run_invariant [where I = "carried a"]) (auto intro: carried_start carried_step)

text \<open>
  C9: In every interleaving of the supervision each watched source is carried by exactly one
  of: a watch, an error in the channel, a scheduled reconnect or a reconnect in the channel,
  or its goroutine has given up; so no source has two watches, an error never meets a pending
  reconnect, and a pending reconnect is really under way.
\<close>

theorem watched_exactly_once:
  assumes "steady_run a h ls d" "i \<in> set (watchable_indices a)"
  shows "watching d i + failing d i + reconnecting d i + quits ls i = 1 \<and>
    (0 < failing d i \<longrightarrow> \<not> pending_of d i) \<and> (pending_of d i \<longrightarrow> reconnecting d i + quits ls i = 1)"
  using carried_run [OF assms(1)] assms(2) unfolding carried_def by (metis add_0 add_is_0 less_numeral_extra(3))

text \<open>When a goroutine gives its source up: the context has ended, or the source said so.\<close>

lemma quits_only:
  assumes "steady_step a d (Quits i) d'"
  shows "ctx_of d \<noteq> None \<or> (\<exists>w h. w \<in> set (dm_watches d) \<and> wt_source w = i \<and> wt_stage w = Listening h True)"
  using assms by cases (auto simp: watch_move_None_iff)

section \<open>The reconnect delay\<close>

definition initial_delays :: "'w app \<Rightarrow> 'w daemon \<Rightarrow> bool" where
  "initial_delays a d \<longleftrightarrow>
     (dm_done d = None \<longrightarrow>
        (\<forall>i \<in> set (watchable_indices a). \<not> pending_of d i \<longrightarrow> delay_of d i = rt_initial (app_retry a))) \<and>
     sr_delay ` set (dm_reconnects d) \<subseteq> {rt_initial (app_retry a)}"

lemma delay_of_upd: "delay_of d i = (if i = j then x else delay_of d0 i)" if "dm_delays d = fmupd j x (dm_delays d0)"
  using that by (simp add: delay_of_def)

lemma initial_delays_event:
  assumes inv: "initial_delays a d" and carried: "carried a ls d" and running: "dm_done d = None"
    and ev: "dm_events d = ev # rest" "handle_event a ev (d\<lparr>dm_events := rest\<rparr>) = Some d'"
  shows "initial_delays a d'"
proof -
  let ?d = "d\<lparr>dm_events := rest\<rparr>" and ?i = "se_source ev"
  have d: "delay_of ?d = delay_of d" "pending_of ?d = pending_of d" by (simp_all add: delay_of_def pending_of_def fun_eq_iff)
  from ev(2) show ?thesis
  proof (cases rule: handle_event_cases)
    case hint
    note 1 = this
    note f = handle_hint_cases(1,2,5) [OF 1(2)]
    show ?thesis
      using inv running f delay_of_upd [OF f(1)] d by (auto simp: initial_delays_def pending_of_def)
  next
    case reconnect
    note 2 = this
    note f = handle_reconnect_fields(1,4,8) [OF 2(3)]
    show ?thesis
      using inv running f delay_of_upd [of d' ?i "rt_initial (app_retry a)" ?d] d
      by (auto simp: initial_delays_def pending_of_def)
  next
    case disconnect
    note 3 = this
    have "0 < failing d ?i" using ev(1) 3(1,2) by (simp add: failing_def)
    then have "\<not> pending_of d ?i" "?i \<in> set (watchable_indices a)"
      using carried unfolding carried_def by (metis add_is_0 less_irrefl)+
    moreover have "delay_of d ?i = rt_initial (app_retry a)"
      using calculation inv running by (auto simp: initial_delays_def)
    moreover have d': "d' = schedule_source_reconnect ?i (delay_of d ?i) ((log_line (LogDisconnect ?i (delay_of d ?i)) ?d)
        \<lparr>dm_pending := fmupd ?i True (dm_pending d),
         dm_delays := fmupd ?i (next_backoff_delay (delay_of d ?i) (rt_max_interval (app_retry a))) (dm_delays d)\<rparr>)"
      unfolding 3(3) [symmetric] using calculation(1) by (simp add: handle_disconnect_def Let_def d)
    moreover have "pending_of d' i = (i = ?i \<or> pending_of d i)" "i \<noteq> ?i \<Longrightarrow> delay_of d' i = delay_of d i" for i
      unfolding d' by (simp_all add: schedule_source_reconnect_def log_line_def pending_of_def delay_of_def)
    moreover have "dm_done d' = dm_done d" "dm_reconnects d' = dm_reconnects d @
        [\<lparr>sr_source = ?i, sr_delay = delay_of d ?i, sr_ready = False\<rparr>]"
      unfolding d' by (simp_all add: schedule_source_reconnect_def log_line_def)
    ultimately show ?thesis using inv running unfolding initial_delays_def by auto
  qed
qed

lemma initial_delays_run: "steady_run a h ls d \<Longrightarrow> initial_delays a d \<and> carried a ls d"
proof (erule steady_run_invariant)
  fix d assume "steady_start a h = Some d"
  then show "initial_delays a d \<and> carried a [] d"
    using steady_start_fields(6,8) [of a h d] carried_start [of a h d] by (simp add: initial_delays_def)
next
  fix ls d l d'
  assume old: "initial_delays a d \<and> carried a ls d" and step: "steady_step a d l d'"
  from step have "initial_delays a d'"
  proof (cases rule: steady_step_cases)
    case 1
    then have "sr_delay ` set (dm_reconnects d') \<subseteq> sr_delay ` set (dm_reconnects d)"
      and "dm_done d' = None \<longrightarrow> dm_done d = None" "pending_of d' = pending_of d" "delay_of d' = delay_of d"
      by (auto simp: background_def pending_of_def delay_of_def)
    then show ?thesis using old unfolding initial_delays_def by (metis subset_trans)
  next
    case 2
    then show ?thesis using old handle_timer_fields [OF 2(4)] by (simp add: initial_delays_def pending_of_def delay_of_def)
  next
    case 3
    then show ?thesis using old initial_delays_event by blast
  qed
  moreover have "carried a (ls @ [l]) d'" using carried_step step old by blast
  ultimately show "initial_delays a d' \<and> carried a (ls @ [l]) d'" ..
qed

text \<open>
  C38: Every reconnect that is ever scheduled waits exactly the initial interval: the doubling
  of the delay never takes effect, because a reconnect resets it before the next disconnect
  can be seen.
\<close>

theorem reconnect_delay_constant:
  assumes "steady_run a h ls d"
  shows "\<forall>r \<in> set (dm_reconnects d). sr_delay r = rt_initial (app_retry a)"
  using initial_delays_run [OF assms] by (auto simp: initial_delays_def)

section \<open>No hint is forgotten\<close>

text \<open>The log lines since the start of the newest pass.\<close>

fun is_pass :: "steady_log \<Rightarrow> bool" where
  "is_pass (LogReconcile r) = True"
| "is_pass _ = False"

fun is_hint :: "steady_log \<Rightarrow> bool" where
  "is_hint (LogHint i) = True"
| "is_hint _ = False"

fun is_start :: "steady_log \<Rightarrow> bool" where
  "is_start (LogStart i) = True"
| "is_start _ = False"

definition since_pass :: "'w daemon \<Rightarrow> steady_log list" where
  "since_pass d = takeWhile (\<lambda>x. \<not> is_pass x) (dm_log d)"

definition hints_counted :: "'w app \<Rightarrow> 'w daemon \<Rightarrow> bool" where
  "hints_counted a d \<longleftrightarrow>
     dm_hints d = int (length (filter is_hint (since_pass d))) \<and>
     (dm_timer d \<noteq> None \<longleftrightarrow> 0 < dm_hints d) \<and>
     (app_debounce a \<le> 0 \<longrightarrow> dm_timer d = None) \<and>
     filter is_start (since_pass d) = []"

lemma hints_counted_event:
  assumes "hints_counted a d" "handle_event a ev (d\<lparr>dm_events := rest\<rparr>) = Some d'"
  shows "hints_counted a d'"
  using assms(2)
proof (cases rule: handle_event_cases)
  case hint
  have "app_debounce a \<le> 0 \<Longrightarrow> dm_timer d' = dm_timer d \<and> dm_log d' = LogReconcile ''watch_hint'' # LogHint (se_source ev) # dm_log d"
    using hint(2) run_pass_fields(3,8) [of a "''watch_hint''" _ d'] by (fastforce simp: handle_hint_def log_line_def Let_def)
  moreover have "\<not> app_debounce a \<le> 0 \<Longrightarrow> dm_log d' = LogHint (se_source ev) # dm_log d"
    using hint(2) by (auto simp: handle_hint_def log_line_def Let_def split: if_splits)
  ultimately show ?thesis
    using handle_hint_cases(6) [OF hint(2)] assms(1)
    by (auto simp: hints_counted_def since_pass_def)
next
  case reconnect
  from handle_reconnect_fields(2,6,7) [OF reconnect(3)] assms(1) show ?thesis
    by (auto simp: hints_counted_def since_pass_def)
next
  case disconnect
  then have "dm_timer d' = dm_timer d \<and> dm_hints d' = dm_hints d \<and>
      (dm_log d' = dm_log d \<or> (\<exists>i x. dm_log d' = LogDisconnect i x # dm_log d))"
    unfolding disconnect(3) [symmetric]
    by (simp add: handle_disconnect_def schedule_source_reconnect_def log_line_def Let_def)
  then show ?thesis using assms(1) by (auto simp: hints_counted_def since_pass_def)
qed

lemma hints_counted_start:
  assumes "steady_start a h = Some d"
  shows "hints_counted a d"
  using steady_start_fields(3,4,7) [OF assms] by (auto simp: hints_counted_def since_pass_def)

lemma hints_counted_step:
  assumes "hints_counted a d" "steady_step a d l d'"
  shows "hints_counted a d'"
  using assms(2)
proof (cases rule: steady_step_cases)
  case 1
  then show ?thesis using assms(1) by (simp add: hints_counted_def since_pass_def background_def)
next
  case 2
  from handle_timer_fields [OF 2(4)] show ?thesis by (simp add: hints_counted_def since_pass_def)
next
  case 3
  then show ?thesis using assms(1) hints_counted_event by blast
qed

text \<open>
  C19: Whenever the loop is waiting, the count of coalesced hints is the number of hints since
  the start of the last pass, a timer is set exactly when there is one, without debouncing
  there is none, and no watch was started after the last pass began.
\<close>

theorem no_hint_forgotten:
  assumes "steady_run a h ls d"
  shows "dm_hints d = int (length (filter is_hint (since_pass d))) \<and>
    (filter is_hint (since_pass d) \<noteq> [] \<longleftrightarrow> dm_timer d \<noteq> None) \<and>
    (app_debounce a \<le> 0 \<longrightarrow> filter is_hint (since_pass d) = []) \<and>
    filter is_start (since_pass d) = []"
proof -
  have "hints_counted a d"
    using assms by (rule steady_run_invariant [where I = "\<lambda>_. hints_counted a"])
      (auto intro: hints_counted_start hints_counted_step)
  then show ?thesis unfolding hints_counted_def by (cases "dm_timer d") auto
qed

section \<open>How the loop ends\<close>

text \<open>
  What a daemon that has ended leaves alone: the file system, its log lines, and the log of the
  mutations. Only goroutines still move, without sending to the loop.
\<close>

definition rests :: "'w daemon \<Rightarrow> 'w daemon \<Rightarrow> bool" where
  "rests d d' \<longleftrightarrow> ho_fs (dm_host d') = ho_fs (dm_host d) \<and> dm_log d' = dm_log d \<and>
     env_log (ho_env (dm_host d')) = env_log (ho_env (dm_host d))"

definition outside_loop :: "steady_label \<Rightarrow> bool" where
  "outside_loop l \<longleftrightarrow> l \<notin> {TimerFires, Returns} \<union> range Receives"

definition ended_by :: "'w app \<Rightarrow> 'w host \<Rightarrow> steady_label list \<Rightarrow> go_error \<Rightarrow> 'w daemon \<Rightarrow> bool" where
  "ended_by a h ls err d \<longleftrightarrow>
     (\<exists>d0. steady_start a h = Some d0 \<and> reconcile a h = Some (Some err, dm_host d0) \<and>
        list_all outside_loop ls \<and> rests d0 d) \<or>
     (\<exists>ls1 d1 l ls2 d2. ls = ls1 @ l # ls2 \<and> steady_run a h ls1 d1 \<and> steady_step a d1 l d2 \<and>
        (if l = Returns then ctx_of d1 = Some err else reconcile a (dm_host d1) = Some (Some err, dm_host d2)) \<and>
        list_all outside_loop ls2 \<and> rests d2 d)"

lemma run_pass_result: "run_pass a reason d = Some d' \<Longrightarrow> reconcile a (dm_host d) = Some (dm_done d', dm_host d')"
  by (auto simp: run_pass_def split: option.splits)

lemma handle_timer_end: "handle_timer a d = Some d' \<Longrightarrow> reconcile a (dm_host d) = Some (dm_done d', dm_host d')"
  unfolding handle_timer_def by (drule run_pass_result) simp

lemma handle_event_end:
  assumes "handle_event a ev d = Some d'" "dm_done d = None" "dm_done d' = Some err"
  shows "reconcile a (dm_host d) = Some (Some err, dm_host d')"
  using assms(1)
proof (cases rule: handle_event_cases)
  case hint
  then obtain d1 where "run_pass a ''watch_hint'' d1 = Some d'" "dm_host d1 = dm_host d"
    using assms(2,3) by (auto simp: handle_hint_def log_line_def Let_def split: if_splits)
  then show ?thesis using run_pass_result assms(3) by metis
next
  case reconnect
  then obtain d1 where "run_pass a ''watch_reconnect_repair'' d1 = Some d'" "dm_host d1 = dm_host d"
    using assms(3)
    by (auto simp: handle_reconnect_def start_source_watch_def log_line_def Let_def split: option.splits if_splits)
  then show ?thesis using run_pass_result assms(3) by metis
next
  case disconnect
  then show ?thesis
    using assms(2,3) by (auto simp: handle_disconnect_def schedule_source_reconnect_def log_line_def Let_def split: if_splits)
qed

lemma steady_start_end:
  assumes "steady_start a h = Some d" "dm_done d = Some err"
  shows "reconcile a h = Some (Some err, dm_host d)"
proof -
  have "watchable_indices a \<noteq> []" using assms by (auto simp: steady_start_def idle_daemon_def)
  then have "run_pass a ''watch_startup_handoff'' (start_watches a (idle_daemon h)) = Some d"
    using assms by (auto simp: steady_start_def split: option.splits if_splits)
  then show ?thesis using run_pass_result assms(2) by fastforce
qed

lemma ended_step:
  assumes "steady_step a d l d'" "dm_done d = Some err"
  shows "outside_loop l \<and> rests d d' \<and> dm_done d' = Some err"
  using assms(1) by cases (use assms(2) in \<open>auto simp: outside_loop_def rests_def send_event_def\<close>)

lemma ending_step:
  assumes "steady_step a d l d'" "dm_done d = None" "dm_done d' = Some err"
  shows "if l = Returns then ctx_of d = Some err else reconcile a (dm_host d) = Some (Some err, dm_host d')"
  using assms(1)
proof cases
  case loop_timer
  then show ?thesis using handle_timer_end assms(3) by fastforce
next
  case (loop_event ev rest)
  then show ?thesis using handle_event_end [OF loop_event(4) _ assms(3)] by simp
qed (use assms(2,3) in \<open>auto simp: send_event_def\<close>)

lemma rests_trans: "rests d d1 \<Longrightarrow> rests d1 d2 \<Longrightarrow> rests d d2"
  by (simp add: rests_def)

text \<open>
  C37: The loop of the supervision ends only with the error of its context, or with the error
  of the pass that it has just run; once it has ended no event, timer or pass is handled any
  more, and the state file, the log of mutations and the log of the daemon stay as they are,
  whatever the goroutines do.
\<close>

theorem loop_ends_for_cause:
  assumes "steady_run a h ls d" "dm_done d = Some err"
  shows "ended_by a h ls err d"
  using assms
proof (induction arbitrary: err rule: steady_run.induct)
  case (start d)
  then show ?case unfolding ended_by_def using steady_start_end by (auto simp: rests_def)
next
  case (step ls d l d')
  show ?case
  proof (cases "dm_done d")
    case None
    from ending_step [OF step.hyps(2) None step.prems] show ?thesis
      unfolding ended_by_def using step.hyps(1,2)
      by (intro disjI2 exI [of _ ls] exI [of _ d] exI [of _ l] exI [of _ "[]"] exI [of _ d']) (simp add: rests_def)
  next
    case (Some err')
    note idle = ended_step [OF step.hyps(2) Some]
    have "err' = err" using idle step.prems by simp
    with step.IH [OF Some] have "ended_by a h ls err d" by simp
    then show ?thesis
      unfolding ended_by_def
    proof (elim disjE exE conjE, goal_cases)
      case (1 d0)
      then show ?case using idle rests_trans [of d0 d d'] by (intro disjI1 exI [of _ d0]) simp
    next
      case (2 ls1 d1 l1 ls2 d2)
      then show ?case using idle rests_trans [of d2 d d']
        by (intro disjI2 exI [of _ ls1] exI [of _ d1] exI [of _ l1] exI [of _ "ls2 @ [l]"] exI [of _ d2]) simp
    qed
  qed
qed

end
