(* ===== verification/Store_Refine.thy ===== *)
theory Store_Refine
  imports State_Store
begin

text \<open>
  The state store against an abstract one. The abstract store is a cell that holds at most one
  snapshot; a history of \<^verbatim>\<open>Load\<close> and \<^verbatim>\<open>Save\<close> calls (\<^verbatim>\<open>internal/state/store.go\<close>) with their
  answers is one that the cell allows.
\<close>

section \<open>Histories\<close>

datatype store_call = CallSave snapshot | CallLoad

datatype store_answer = Saved "go_error option" | Loaded "go_error + snapshot"

primrec store_history ::
  "(snapshot \<Rightarrow> 'd \<Rightarrow> go_error option \<times> 'd) \<Rightarrow> ('d, snapshot) io \<Rightarrow> store_call list \<Rightarrow> 'd \<Rightarrow>
     (store_call \<times> store_answer) list \<times> 'd" where
  "store_history save load [] d = ([], d)"
| "store_history save load (c # cs) d =
     (let (answer, d1) = (case c of
             CallSave s \<Rightarrow> (let (e, d1) = save s d in (Saved e, d1))
           | CallLoad \<Rightarrow> (let (r, d1) = load d in (Loaded r, d1)));
          (rest, d2) = store_history save load cs d1
      in ((c, answer) # rest, d2))"

text \<open>
  The cell: a save that succeeds replaces its contents, one that fails may or may not have; a
  load that succeeds reads them. When the device is reliable a load fails on an empty cell only.
\<close>

fun cell_allows :: "bool \<Rightarrow> snapshot option \<Rightarrow> (store_call \<times> store_answer) list \<Rightarrow> snapshot option \<Rightarrow> bool" where
  "cell_allows reliable c [] c' \<longleftrightarrow> c = c'"
| "cell_allows reliable c ((CallSave s, Saved None) # h) c' \<longleftrightarrow> cell_allows reliable (Some s) h c'"
| "cell_allows reliable c ((CallSave s, Saved (Some e)) # h) c' \<longleftrightarrow>
     cell_allows reliable c h c' \<or> cell_allows reliable (Some s) h c'"
| "cell_allows reliable c ((CallLoad, Loaded (Inr s)) # h) c' \<longleftrightarrow> c = Some s \<and> cell_allows reliable c h c'"
| "cell_allows reliable c ((CallLoad, Loaded (Inl e)) # h) c' \<longleftrightarrow>
     (reliable \<longrightarrow> c = None) \<and> cell_allows reliable c h c'"
| "cell_allows reliable c _ c' \<longleftrightarrow> False"

definition call_storable :: "store_call \<Rightarrow> bool" where
  "call_storable c = (case c of CallSave s \<Rightarrow> storable s | CallLoad \<Rightarrow> True)"

locale reliable_store = snapshot_store +
  fixes reliable :: "'a \<Rightarrow> bool"
  assumes reliable_save: "reliable d \<Longrightarrow> reliable (snd (save s d))"
    and reliable_load: "reliable d \<Longrightarrow> reliable (snd (load d))"
    and load_succeeds: "reliable d \<Longrightarrow> holds d = Some s \<Longrightarrow> fst (load d) = Inr s"
begin

lemma history_allowed:
  assumes "list_all call_storable calls" "q \<longrightarrow> reliable d" "store_history save load calls d = (h, d')"
  shows "cell_allows q (holds d) h (holds d')"
  using assms
proof (induction calls arbitrary: d h)
  case Nil
  then show ?case by simp
next
  case (Cons c cs)
  show ?case
  proof (cases c)
    case (CallSave s)
    obtain e d1 where save: "save s d = (e, d1)" by fastforce
    obtain rest where rest: "store_history save load cs d1 = (rest, d')" "h = (c, Saved e) # rest"
      using Cons.prems(3) CallSave save by (auto split: prod.splits)
    have "storable s" using Cons.prems(1) CallSave by (simp add: call_storable_def)
    moreover have "cell_allows q (holds d1) rest (holds d')"
      using Cons.IH [of d1 rest] Cons.prems(1,2) rest(1) reliable_save [of d s] save by auto
    ultimately show ?thesis
      using save_ok [of s d d1] save_failed [of s d _ d1] save rest(2) CallSave by (cases e) auto
  next
    case CallLoad
    obtain r d1 where load: "load d = (r, d1)" by fastforce
    obtain rest where rest: "store_history save load cs d1 = (rest, d')" "h = (c, Loaded r) # rest"
      using Cons.prems(3) CallLoad load by (auto split: prod.splits)
    have "cell_allows q (holds d) rest (holds d')"
      using Cons.IH [of d1 rest] Cons.prems(1,2) rest(1) reliable_load [of d] load load_keeps [OF load] by auto
    then show ?thesis
      using load_ok [of d _ d1] load_succeeds [of d] load Cons.prems(2) rest(2) CallLoad
      by (cases r; cases "holds d") auto
  qed
qed

end

section \<open>A file system without faults\<close>

definition faultless :: "fs \<Rightarrow> bool" where
  "faultless fs \<longleftrightarrow> fs_faults fs = []"

abbreviation stays_faultless :: "fs \<Rightarrow> fs \<Rightarrow> bool" where
  "stays_faultless fs fs' \<equiv> faultless fs \<longrightarrow> faultless fs'"

lemma faultless_set_files [simp]: "faultless (set_files files fs) = faultless fs"
  by (simp add: faultless_def set_files_def)

lemma faultless_on_file [simp]: "faultless (on_file p f fs) = faultless fs"
  by (simp add: on_file_def split: option.split)

lemma faultless_updates [simp]:
  "faultless (fs\<lparr>fs_dirty := x\<rparr>) = faultless fs" "faultless (fs\<lparr>fs_random := n\<rparr>) = faultless fs"
  "faultless (make_dirs ps fs) = faultless fs"
  by (simp_all add: faultless_def make_dirs_def)

lemma faultless_syscall:
  "(\<And>fs. faultless fs \<Longrightarrow> faultless (snd (op fs))) \<Longrightarrow> stays stays_faultless (syscall part op)"
  by (auto simp: stays_def syscall_def faultless_def)

lemma faultless_mkdir: "stays stays_faultless (os_mkdir_all p)"
  unfolding os_mkdir_all_def by (rule faultless_syscall) (simp add: Let_def)

interpretation keep_faultless: fs_calls stays_faultless
proof unfold_locales
  fix p x m
  show "stays stays_faultless (os_stat p)" "stays stays_faultless (os_open_dir p)"
    "stays stays_faultless (os_sync_dir p)" "stays stays_faultless (os_create_temp p x)"
    "stays stays_faultless (os_chmod p m)" "stays stays_faultless (os_write p x)"
    "stays stays_faultless (os_sync p)" "stays stays_faultless os_close"
    "stays stays_faultless (os_rename p x)" "stays stays_faultless (os_remove p)"
    "stays stays_faultless (os_read_file p)"
    unfolding os_stat_def os_open_dir_def os_sync_dir_def os_create_temp_def os_chmod_def os_write_def
      os_sync_def os_close_def os_rename_def os_remove_def os_read_file_def
    by (rule faultless_syscall, simp split: option.split)+
qed auto

lemma faultless_write:
  assumes "faultless fs" "atomic_write_file path data mode fs = (e, fs')"
  shows "faultless fs'"
  using assms(2)
proof (cases rule: keep_faultless.atomic_write_frame)
  case early
  then show ?thesis using assms(1) by simp
next
  case (made created s1 r s2)
  then show ?thesis using assms(1) keep_faultless.staysD [OF faultless_mkdir made(3)] by simp
qed

lemma faultless_store:
  "faultless fs \<Longrightarrow> faultless (snd (store_save path s fs))"
  "faultless fs \<Longrightarrow> faultless (snd (store_load path fs))"
  using keep_faultless.staysD [OF keep_faultless.calls(11)]
  by (auto simp: store_save_def store_load_def split: sum.split prod.split intro: faultless_write)
    (metis faultless_write prod.collapse)

section \<open>The refinement\<close>

interpretation file_cell: reliable_store "store_save path" "store_load path" "stored path" faultless for path
proof (unfold_locales, goal_cases)
  case (1 d s)
  then show ?case by (rule faultless_store(1))
next
  case (2 d)
  then show ?case by (rule faultless_store(2))
next
  case (3 d s)
  then show ?case using load_stored by (simp add: faultless_def)
qed

text \<open>
  C17: The state store on a file refines an abstract store that is a cell with at most one
  snapshot: every history of loads and saves, with every outcome of every system call, is one
  the cell allows. A save that succeeds replaces the contents, one that fails leaves the old
  or the new, a load that succeeds reads what the cell holds, and without faults a load fails
  only while the cell is empty.
\<close>

theorem store_refines_cell:
  assumes "list_all call_storable calls"
  shows "case store_history (store_save path) (store_load path) calls fs of
    (h, fs') \<Rightarrow> map fst h = calls \<and> cell_allows (fs_faults fs = []) (stored path fs) h (stored path fs')"
proof -
  obtain h fs' where run: "store_history (store_save path) (store_load path) calls fs = (h, fs')" by fastforce
  have "map fst h = calls"
    using run by (induction calls arbitrary: fs h) (auto split: prod.splits)
  then show ?thesis
    using file_cell.history_allowed [OF assms _ run, of "fs_faults fs = []"] run by (simp add: faultless_def)
qed

end
