(* ===== verification/App_Witness.thy ===== *)
theory App_Witness
  imports Apply_Witness Steady_Correct Store_Refine
begin

text \<open>
  A daemon with one watched source, the example server and a state file, and the theorems on
  files, passes and supervision applied to it.
\<close>

section \<open>The example\<close>

definition ex_path :: string where
  "ex_path = ''/var/dds/s.json''"

definition ex_disk :: fs where
  "ex_disk = \<lparr>fs_files = fmempty, fs_dirs = {|''/'', ''/var''|}, fs_dirty = {||}, fs_faults = [], fs_random = 7, fs_trace = []\<rparr>"

definition ex_saved :: "go_error option \<times> fs" where
  "ex_saved = store_save ex_path ex_snapshot ex_disk"

definition ex_feed :: "(nat env, desired_record list) io \<Rightarrow> nat env source_port" where
  "ex_feed listing = \<lparr>src_provider = \<lparr>pr_type = ''docker'', pr_name = ''local''\<rparr>, src_list_desired = listing, src_watchable = True\<rparr>"

definition ex_app :: "(nat env, desired_record list) io \<Rightarrow> nat env output_port list \<Rightarrow> nat app" where
  "ex_app listing outs =
     \<lparr>app_store = ex_path, app_sources = [ex_feed listing], app_outputs = outs,
      app_retry = \<lparr>rt_initial = 1000, rt_max_interval = 8000, rt_max_elapsed = 20000\<rparr>, app_debounce = 500,
      app_calendar = (\<lambda>e. zero_time), app_orders = (\<lambda>e. ex_orders),
      app_wait = (\<lambda>d e. (True, e\<lparr>env_clock := env_clock e + d\<rparr>))\<rparr>"

lemma ex_saved_ok: "fst ex_saved = None"
  by code_simp

lemma ex_saved_fs: "fs_faults (snd ex_saved) = []"
  by code_simp

lemma ex_storable: "storable ex_snapshot"
  by (simp add: storable_def ex_snapshot_def ex_managed_def snapshot_version_def zero_time_valid)

lemma ex_stored: "stored ex_path (snd ex_saved) = Some ex_snapshot"
  using file_store.save_ok [OF ex_storable] ex_saved_ok unfolding ex_saved_def by (metis prod.collapse)

lemma ex_load: "store_load ex_path (snd ex_saved) = (Inr ex_snapshot, snd ex_saved)"
  using ex_stored ex_saved_fs by (rule load_stored)

definition ex_host :: "nat host" where
  "ex_host = \<lparr>ho_env = ex_env, ho_fs = snd ex_saved\<rparr>"

section \<open>Files\<close>

theorem state_file_old_or_new_witness:
  "list_all (\<lambda>t. fmlookup t ex_path \<in> {None, Some \<lparr>fi_data = ''new'', fi_mode = 384, fi_synced = True\<rparr>})
     (fs_trace (snd (atomic_write_file ex_path ''new'' 384 ex_disk)))"
  using state_file_old_or_new [of ex_path "''new''" 384 ex_disk "fst (atomic_write_file ex_path ''new'' 384 ex_disk)"
    "snd (atomic_write_file ex_path ''new'' 384 ex_disk)"]
  by (auto simp: ex_disk_def list_all_iff)

theorem atomic_write_outcome_witness:
  "fmlookup (fs_files (snd (atomic_write_file ex_path ''new'' 384 ex_disk))) ex_path =
     Some \<lparr>fi_data = ''new'', fi_mode = 384, fi_synced = True\<rparr>"
proof -
  have "fst (atomic_write_file ex_path ''new'' 384 ex_disk) = None" by code_simp
  then have "atomic_write_file ex_path ''new'' 384 ex_disk = (None, snd (atomic_write_file ex_path ''new'' 384 ex_disk))"
    by (metis prod.collapse)
  from atomic_write_outcome [OF this] show ?thesis by simp
qed

theorem save_load_round_trip_witness: "store_load ex_path (snd ex_saved) = (Inr ex_snapshot, snd ex_saved)"
  using save_load_round_trip [OF ex_storable, of ex_path ex_disk "snd ex_saved"] ex_saved_ok ex_saved_fs
  unfolding ex_saved_def by (metis prod.collapse)

theorem store_refines_cell_witness:
  "case store_history (store_save ex_path) (store_load ex_path) [CallLoad, CallSave ex_snapshot, CallLoad] ex_disk of
     (h, fs') \<Rightarrow> map fst h = [CallLoad, CallSave ex_snapshot, CallLoad] \<and>
       cell_allows True None h (stored ex_path fs')"
  using store_refines_cell [of "[CallLoad, CallSave ex_snapshot, CallLoad]" ex_disk ex_path] ex_storable
  by (simp add: call_storable_def ex_disk_def stored_def del: store_history.simps)

text \<open>A state file that the first call cannot read is left alone.\<close>

definition ex_denied :: fs where
  "ex_denied = (snd ex_saved)\<lparr>fs_faults := [Some (os_error ''permission denied'', 0)]\<rparr>"


section \<open>Passes\<close>

definition ex_input :: "visible_record list \<Rightarrow> nat env reconcile_input" where
  "ex_input visible = \<lparr>ri_output = logging_output (ex_port True), ri_desired = ex_desired, ri_visible = visible,
     ri_owned = ex_snapshot, ri_now = None\<rparr>"

theorem ambiguous_output_untouched_witness:
  "\<exists>k n. reconcile_and_persist (\<lambda>s d. (None, d)) (\<lambda>e. zero_time) ex_orders (ex_input (ex_visible @ ex_visible)) ex_env (0::nat) =
     ((no_result, Some (ErrVisibleRecordAmbiguous ''adguard/home'' k n)), ex_env, 0)"
proof -
  have "1 < length (visible_with_key (out_provider (ri_output (ex_input (ex_visible @ ex_visible))))
      (ri_visible (ex_input (ex_visible @ ex_visible))) (visible_record_key ''web.lan'' ''10.0.0.9''))" by code_simp
  from ambiguous_output_untouched [OF this] show ?thesis
    by (fastforce simp: ex_input_def provider_key_def ex_output_def)
qed

lemma ex_unambiguous: "unambiguous (ex_input ex_visible)"
proof -
  have "pl_ambiguities (plan_of ex_orders (ex_input ex_visible)) = []" by code_simp
  then show ?thesis by (simp add: plan_of_def build_plan_lists find_ambiguities_iff unambiguous_def)
qed

theorem mutations_reach_the_store_witness:
  "\<exists>next. stored ex_path (snd (snd (reconcile_and_persist (store_save ex_path) (\<lambda>e. zero_time) ex_orders (ex_input ex_visible)
     ex_env ex_disk))) = Some next"
proof -
  let ?run = "reconcile_and_persist (store_save ex_path) (\<lambda>e. zero_time) ex_orders (ex_input ex_visible) ex_env ex_disk"
  obtain next' progressed err e1 where pass: "applied (\<lambda>e. zero_time) ex_orders (ex_input ex_visible) ex_env = ((next', progressed, err), e1)"
    by (metis prod.collapse)
  obtain res failure e' fs' where run: "?run = ((res, failure), e', fs')" by (metis prod.collapse)
  have "snd (fst ?run) = None" by code_simp
  then have "failure = None" using run by simp
  moreover have "storable (ri_owned (ex_input ex_visible))" using ex_storable by (simp add: ex_input_def)
  moreover have "ri_output (ex_input ex_visible) = logging_output (ex_port True)" by (simp add: ex_input_def)
  moreover have "valid_time ((case ri_now (ex_input ex_visible) of None \<Rightarrow> \<lambda>e. zero_time | Some f \<Rightarrow> f) ex_env)"
    by (simp add: ex_input_def zero_time_valid)
  ultimately show ?thesis
    using mutations_reach_the_store [OF _ quiet_ex_port ex_unambiguous _ _ pass run] run by auto
qed

theorem logged_mutations_owned_witness:
  "\<exists>prov. managed_of ex_output (ex_wanted ''c2'' ''api'' ''api.lan'' ''10.0.0.2'') prov zero_time \<in>
     set (owned_of ex_output (fst (fst (ex_apply False))))"
proof -
  obtain next' progressed e' where
    run: "apply_reconcile_plan (logging_output (ex_port False)) ex_snapshot ex_plan zero_time ex_env =
      ((next', progressed, snd (snd (fst (ex_apply False)))), e')"
    and r: "ex_apply False = ((next', progressed, snd (snd (fst (ex_apply False)))), e')"
    by (rule ex_apply_split [OF refl])
  have plan: "ex_plan = build_reconcile_plan ex_orders (out_provider (ex_port False)) ex_desired ex_visible ex_snapshot"
    by (simp add: ex_plan_def)
  have plain: "plain_input (out_provider (ex_port False)) ex_desired ex_snapshot"
    and hosts: "distinct_hosts (out_provider (ex_port False)) ex_desired"
    by code_simp+
  have mem: "ex_wanted ''c2'' ''api'' ''api.lan'' ''10.0.0.2'' \<in> set (pl_creates ex_plan) \<and> ''create'' = ''create'' \<or>
      ex_wanted ''c2'' ''api'' ''api.lan'' ''10.0.0.2'' \<in> u_to ` set (pl_updates ex_plan) \<and> ''create'' = ''update''"
    using ex_create_mem by (simp add: ex_plan_def)
  have "entry ''create'' (out_provider (ex_port False)) (d_hostname (ex_wanted ''c2'' ''api'' ''api.lan'' ''10.0.0.2'')) \<in>
      set (drop (length (env_log ex_env)) (env_log (snd (ex_apply False))))" by code_simp
  then have log: "entry ''create'' (out_provider (ex_port False)) (d_hostname (ex_wanted ''c2'' ''api'' ''api.lan'' ''10.0.0.2'')) \<in>
      set (drop (length (env_log ex_env)) (env_log e'))" using arg_cong [OF r, of snd] by simp
  from logged_mutations_owned [OF plan plain hosts quiet_ex_port run mem log] show ?thesis
    using arg_cong [OF r, of "\<lambda>x. fst (fst x)"] by simp
qed

section \<open>Reconciliations\<close>

definition offers :: "desired_record list \<Rightarrow> (nat env, desired_record list) io" where
  "offers records e = (Inr records, e)"

definition refuses :: "(nat env, desired_record list) io" where
  "refuses e = (Inl (ErrText ''no docker''), e)"

lemma ex_app_fields [simp]:
  "app_store (ex_app listing outs) = ex_path" "app_sources (ex_app listing outs) = [ex_feed listing]"
  "app_outputs (ex_app listing outs) = outs"
  "src_list_desired (ex_feed listing) = listing" "src_watchable (ex_feed listing)"
  "src_provider (ex_feed listing) = \<lparr>pr_type = ''docker'', pr_name = ''local''\<rparr>"
  by (simp_all add: ex_app_def ex_feed_def)

lemma ex_once:
  "reconcile_once (ex_app (offers records) []) ex_host = (None, ex_host)"
  "reconcile_once (ex_app refuses outs) ex_host =
     (Some (ErrSourceList 0 \<lparr>pr_type = ''docker'', pr_name = ''local''\<rparr> (ErrText ''no docker'')), ex_host)"
  by (simp_all add: reconcile_once_def ex_host_def offers_def refuses_def ex_load)

lemma ex_reconcile: "reconcile (ex_app (offers records) []) ex_host = Some (None, ex_host)"
  by (simp add: reconcile_def reconcile_loop.simps [of "ex_app (offers records) []"] reconcile_attempt_alt ex_once)

lemma ex_prompt: "prompt_waits (ex_app listing outs)" "prompt_passes (ex_app (offers records) [])"
proof -
  show "prompt_waits (ex_app listing outs)" by (auto simp: prompt_waits_def ex_app_def)
  have "ho_env (snd (reconcile_once (ex_app (offers records) []) h)) = ho_env h" for h
    by (simp add: reconcile_once_def offers_def split: prod.split sum.split)
  then show "prompt_passes (ex_app (offers records) [])" by (simp add: prompt_passes_def)
qed

theorem backoff_bounded_witness: "next_backoff_delay 5000 8000 \<le> 8000 \<and> next_backoff_delay 5000 8000 = 8000"
proof -
  have "next_backoff_delay 5000 8000 = 8000" by (simp add: next_backoff_delay_def wrap64_def)
  with backoff_bounded [of 5000 8000] show ?thesis by simp
qed

theorem reconcile_returns_witness: "\<exists>r h'. reconcile (ex_app (offers []) []) ex_host = Some (r, h')"
  by (rule reconcile_returns [OF ex_prompt]) (simp_all add: ex_app_def)

theorem permanent_failures_not_retried_witness:
  "reconcile (ex_app refuses []) ex_host =
     Some (Some (ErrSourceList 0 \<lparr>pr_type = ''docker'', pr_name = ''local''\<rparr> (ErrText ''no docker'')), ex_host)"
proof -
  have "\<not> retryable (ErrSourceList 0 \<lparr>pr_type = ''docker'', pr_name = ''local''\<rparr> (ErrText ''no docker''))"
    by (simp add: retryable_def is_temporary_error_def err_as_def)
  from permanent_failures_not_retried [OF ex_once(2) this] show ?thesis
    by (simp add: ctx_err_def ex_host_def ex_env_def)
qed

theorem reconcile_outcome_witness: "\<exists>h0. reconcile_once (ex_app (offers []) []) h0 = (None, ex_host)"
  using reconcile_outcome [OF ex_reconcile [of "[]"]] by simp

theorem failed_source_stops_the_pass_witness:
  "fst (reconcile_once (ex_app refuses [ex_port True]) ex_host) \<noteq> None \<and>
   same_disk (ho_fs ex_host) (ho_fs (snd (reconcile_once (ex_app refuses [ex_port True]) ex_host)))"
proof -
  have "\<forall>s \<in> set (app_sources (ex_app refuses [ex_port True])). quiet_source s"
    by (simp add: ex_app_def ex_feed_def quiet_source_def quiet_op_def refuses_def)
  moreover have "collect_desired 0 (app_sources (ex_app refuses [ex_port True])) (ho_env ex_host) =
      (Inl (ErrSourceList 0 \<lparr>pr_type = ''docker'', pr_name = ''local''\<rparr> (ErrText ''no docker'')), ho_env ex_host)"
    by (simp add: ex_app_def ex_feed_def refuses_def)
  ultimately show ?thesis using failed_source_stops_the_pass [OF _ _ ex_once(2)] by (simp add: ex_once)
qed

theorem store_stays_readable_witness:
  "\<exists>s'. stored ex_path (ho_fs ex_host) = Some s' \<and>
     owned_of ex_output s' = owned_of ex_output ex_snapshot"
proof -
  have "\<And>e. valid_time (app_calendar (ex_app (offers []) []) e)" by (simp add: ex_app_def zero_time_valid)
  moreover have "stored (app_store (ex_app (offers []) [])) (ho_fs ex_host) = Some ex_snapshot"
    using ex_stored by (simp add: ex_app_def ex_host_def)
  ultimately show ?thesis
    using store_stays_readable [OF _ _ ex_reconcile [of "[]"]] by (simp add: ex_app_def)
qed

section \<open>Supervision\<close>

text \<open>The watch starts, and hands over a hint or fails.\<close>

definition ex_d0 :: "nat daemon" where
  "ex_d0 = the (steady_start (ex_app (offers []) []) ex_host)"

lemma ex_watchable: "watchable_indices (ex_app (offers []) []) = [0]"
  by code_simp

lemma ex_start:
  "steady_start (ex_app (offers []) []) ex_host = Some ex_d0"
  "dm_watches ex_d0 = [\<lparr>wt_source = 0, wt_stage = Listening True True\<rparr>]"
  "dm_done ex_d0 = None" "delay_of ex_d0 0 = 1000" "dm_pending ex_d0 = fmempty" "dm_events ex_d0 = []"
  "dm_reconnects ex_d0 = []" "dm_timer ex_d0 = None" "ctx_of ex_d0 = None"
proof -
  let ?a = "ex_app (offers []) []"
  have pass: "run_pass ?a reason d = Some ((log_line (LogReconcile reason) d)\<lparr>dm_host := ex_host, dm_done := None\<rparr>)"
    if "dm_host d = ex_host" for reason and d :: "nat daemon"
    using that by (simp add: run_pass_def ex_reconcile)
  have host: "dm_host (start_watches ?a (idle_daemon ex_host)) = ex_host"
    by (simp add: start_watches_def ex_watchable start_source_watch_def log_line_def idle_daemon_def)
  have d0: "steady_start ?a ex_host = Some ((log_line (LogReconcile ''watch_startup_handoff'')
        (start_watches ?a (idle_daemon ex_host)))\<lparr>dm_host := ex_host, dm_done := None,
      dm_delays := fmmap (\<lambda>_. rt_initial (app_retry ?a)) (dm_delays (start_watches ?a (idle_daemon ex_host)))\<rparr>)"
    by (simp add: steady_start_def ex_watchable pass [OF host]) (simp add: log_line_def)
  then show start: "steady_start ?a ex_host = Some ex_d0" by (simp add: ex_d0_def)
  note f = steady_start_fields [OF start]
  have ended: "dm_done ex_d0 = None" "dm_host ex_d0 = ex_host"
    unfolding ex_d0_def d0 by simp_all
  then show "dm_done ex_d0 = None" "ctx_of ex_d0 = None"
    by (simp_all add: ctx_of_def ctx_err_def ex_host_def ex_env_def)
  show "delay_of ex_d0 0 = 1000" using f(8) ended by (simp add: ex_watchable) (simp add: ex_app_def)
  show "dm_watches ex_d0 = [\<lparr>wt_source = 0, wt_stage = Listening True True\<rparr>]" "dm_pending ex_d0 = fmempty"
    "dm_events ex_d0 = []" "dm_reconnects ex_d0 = []" "dm_timer ex_d0 = None"
    using f by (simp_all add: ex_watchable)
qed

definition ex_moved :: "watch_stage \<Rightarrow> nat daemon" where
  "ex_moved s = ex_d0\<lparr>dm_watches := [\<lparr>wt_source = 0, wt_stage = s\<rparr>]\<rparr>"

lemma ex_moves:
  assumes "watch_move None (Listening True True) (Some s)"
  shows "steady_run (ex_app (offers []) []) ex_host [Tau] (ex_moved s)"
  using steady_run.step [OF steady_run.start [OF ex_start(1)] steady_step.watch_moves [of ex_d0 "[]" _ "[]" s]] assms
  by (simp add: ex_start ex_moved_def)

definition ex_sent :: "source_watch_event \<Rightarrow> watch list \<Rightarrow> nat daemon" where
  "ex_sent ev ws = send_event ev (ex_d0\<lparr>dm_watches := ws\<rparr>)"

lemma ex_sends:
  "steady_run (ex_app (offers []) []) ex_host [Tau, Tau]
     (ex_sent (hint_event 0) [\<lparr>wt_source = 0, wt_stage = Listening True True\<rparr>])"
  "steady_run (ex_app (offers []) []) ex_host [Tau, Tau] (ex_sent (error_event 0 (ErrText ''gone'')) [])"
proof -
  have room: "has_room (ex_app (offers []) []) (ex_moved s)" for s
    by (simp add: has_room_def ex_watchable ex_moved_def ex_start)
  have "watch_move None (Listening True True) (Some (SendHint True))" by (rule watch_move.hint)
  from steady_run.step [OF ex_moves [OF this] steady_step.watch_hints [OF _ _ room, of _ "[]" "\<lparr>wt_source = 0, wt_stage = SendHint True\<rparr>" "[]" True]]
  show "steady_run (ex_app (offers []) []) ex_host [Tau, Tau]
     (ex_sent (hint_event 0) [\<lparr>wt_source = 0, wt_stage = Listening True True\<rparr>])"
    by (simp add: ex_moved_def ex_sent_def)
  have "watch_move None (Listening True True) (Some (SendLast (ErrText ''gone'')))"
    by (rule watch_move.err) (simp add: err_is_def)
  from steady_run.step [OF ex_moves [OF this] steady_step.watch_fails [OF _ _ room, of _ "[]"
      "\<lparr>wt_source = 0, wt_stage = SendLast (ErrText ''gone'')\<rparr>" "[]" "ErrText ''gone''"]]
  show "steady_run (ex_app (offers []) []) ex_host [Tau, Tau] (ex_sent (error_event 0 (ErrText ''gone'')) [])"
    by (simp add: ex_moved_def ex_sent_def)
qed

lemma ex_received:
  assumes "steady_run (ex_app (offers []) []) ex_host [Tau, Tau] (ex_sent ev ws)"
    and "handle_event (ex_app (offers []) []) ev (ex_d0\<lparr>dm_watches := ws\<rparr>) = Some d"
  shows "steady_run (ex_app (offers []) []) ex_host [Tau, Tau, Receives ev] d"
proof -
  have "dm_events (ex_sent ev ws) = [ev]" "dm_done (ex_sent ev ws) = None"
    "(ex_sent ev ws)\<lparr>dm_events := []\<rparr> = ex_d0\<lparr>dm_watches := ws\<rparr>"
    using ex_start(3,6) by (simp_all add: ex_sent_def send_event_def)
  with steady_run.step [OF assms(1) steady_step.loop_event [of _ ev "[]"]] assms(2) show ?thesis by simp
qed

definition ex_down :: "nat daemon" where
  "ex_down = handle_disconnect (ex_app (offers []) []) 0 (ex_d0\<lparr>dm_watches := []\<rparr>)"

lemma ex_down_run:
  "steady_run (ex_app (offers []) []) ex_host [Tau, Tau, Receives (error_event 0 (ErrText ''gone''))] ex_down"
  by (rule ex_received [OF ex_sends(2)]) (simp add: handle_event_def error_event_def ex_down_def)

lemma ex_down_reconnects: "dm_reconnects ex_down = [\<lparr>sr_source = 0, sr_delay = 1000, sr_ready = False\<rparr>]"
proof -
  have "delay_of (ex_d0\<lparr>dm_watches := []\<rparr>) 0 = 1000" "\<not> pending_of (ex_d0\<lparr>dm_watches := []\<rparr>) 0"
    using ex_start(4,5) by (simp_all add: delay_of_def pending_of_def)
  then show ?thesis
    by (simp add: ex_down_def handle_disconnect_def Let_def schedule_source_reconnect_def log_line_def ex_start)
qed

theorem watched_exactly_once_witness: "watching ex_down 0 + failing ex_down 0 = 0 \<and> reconnecting ex_down 0 = 1"
proof -
  have "reconnecting ex_down 0 \<ge> 1" by (simp add: reconnecting_def ex_down_reconnects)
  moreover have "0 \<in> set (watchable_indices (ex_app (offers []) []))" by (simp add: ex_watchable)
  ultimately show ?thesis using watched_exactly_once [OF ex_down_run, of 0] by auto
qed

theorem reconnect_delay_constant_witness: "dm_reconnects ex_down \<noteq> [] \<and> sr_delay (hd (dm_reconnects ex_down)) = 1000"
proof -
  have "dm_reconnects ex_down \<noteq> []" by (simp add: ex_down_reconnects)
  moreover from this have "sr_delay (hd (dm_reconnects ex_down)) = rt_initial (app_retry (ex_app (offers []) []))"
    using reconnect_delay_constant [OF ex_down_run] by (metis hd_in_set)
  ultimately show ?thesis by (simp add: ex_app_def)
qed

theorem no_hint_forgotten_witness:
  "\<exists>d. steady_run (ex_app (offers []) []) ex_host [Tau, Tau, Receives (hint_event 0)] d \<and> dm_hints d = 1 \<and> dm_timer d \<noteq> None"
proof -
  let ?w = "ex_d0\<lparr>dm_watches := [\<lparr>wt_source = 0, wt_stage = Listening True True\<rparr>]\<rparr>"
  have "app_debounce (ex_app (offers []) []) = 500" by (simp add: ex_app_def)
  then obtain d where d: "handle_hint (ex_app (offers []) []) 0 ?w = Some d" "dm_hints d = 1"
    by (simp add: handle_hint_def Let_def log_line_def ex_start)
  then have run: "steady_run (ex_app (offers []) []) ex_host [Tau, Tau, Receives (hint_event 0)] d"
    using ex_received [OF ex_sends(1)] by (simp add: handle_event_def hint_event_def)
  with no_hint_forgotten [OF run] d(2) show ?thesis by (intro exI [of _ d]) auto
qed

text \<open>The source refuses at the first pass of the supervision: the daemon ends before it waits.\<close>

theorem loop_ends_for_cause_witness:
  "\<exists>d err. steady_run (ex_app refuses []) ex_host [] d \<and> dm_done d = Some err \<and> ended_by (ex_app refuses []) ex_host [] err d"
proof -
  let ?a = "ex_app refuses [] :: nat app"
  have watchable: "watchable_indices ?a = [0]" by code_simp
  let ?err = "ErrSourceList 0 \<lparr>pr_type = ''docker'', pr_name = ''local''\<rparr> (ErrText ''no docker'')"
  have "\<not> retryable ?err" by (simp add: retryable_def is_temporary_error_def err_as_def)
  moreover have "ctx_err (ho_env ex_host) = None" by (simp add: ctx_err_def ex_host_def ex_env_def)
  ultimately have "\<exists>err. reconcile ?a ex_host = Some (Some err, ex_host)"
    by (simp add: reconcile_def reconcile_loop.simps [of ?a] reconcile_attempt_alt ex_once(2))
  then obtain err where "reconcile ?a ex_host = Some (Some err, ex_host)" by blast
  then have "\<exists>d. run_pass ?a ''watch_startup_handoff'' (start_watches ?a (idle_daemon ex_host)) = Some d \<and> dm_done d = Some err"
    by (simp add: run_pass_def)
  then obtain d where d: "steady_start ?a ex_host = Some d" "dm_done d = Some err"
    by (auto simp: steady_start_def watchable)
  from steady_run.start [OF d(1)] have run: "steady_run ?a ex_host [] d" .
  from loop_ends_for_cause [OF run d(2)] run d(2) show ?thesis by blast
qed

end
