(* ===== verification/Config_Check.thy ===== *)
theory Config_Check
  imports Contracts
begin

text \<open>
  \<^verbatim>\<open>internal/config\<close>: the configuration, its validation and the resolution of secrets. The
  parsers of the standard library (durations, addresses) are arguments.
\<close>

section \<open>Model\<close>

record source_config =
  sc_type :: string
  sc_name :: string
  sc_endpoint :: string
  sc_host_ip :: string
  sc_base_domain :: string

record output_config =
  oc_type :: string
  oc_name :: string
  oc_enabled :: "bool option"
  oc_url :: string
  oc_username :: string
  oc_password :: string
  oc_password_ref :: string
  oc_zone_id :: string
  oc_api_key :: string
  oc_api_key_ref :: string

record logging_config =
  lc_level :: string
  lc_format :: string

record retry_config =
  rc_initial_interval :: string
  rc_max_interval :: string
  rc_max_elapsed_time :: string

text \<open>The structs \<^verbatim>\<open>StateConfig\<close> and \<^verbatim>\<open>RuntimeConfig\<close> have a single field each.\<close>

record config =
  cf_sources :: "source_config list"
  cf_outputs :: "output_config list"
  cf_state_path :: string
  cf_logging :: logging_config
  cf_operation_timeout :: string
  cf_retry :: retry_config

definition is_enabled :: "output_config \<Rightarrow> bool" where
  "is_enabled c \<longleftrightarrow> oc_enabled c = None \<or> oc_enabled c = Some True"

text \<open>\<^verbatim>\<open>time.ParseDuration\<close> and whether \<^verbatim>\<open>netip.ParseAddr\<close> accepts.\<close>

record parsers =
  parse_duration :: "string \<Rightarrow> go_error + int"
  parse_addr_ok :: "string \<Rightarrow> bool"

section \<open>Validation\<close>

definition blank :: "string \<Rightarrow> bool" where
  "blank s \<longleftrightarrow> trim_space s = []"

definition normalize_domain_name :: "string \<Rightarrow> string" where
  "normalize_domain_name v = trim_suffix (trim_space (to_lower v)) ''.''"

text \<open>
  Characters from 128 up are parts of runes beyond the allowed ones, so that the loop over
  runes refuses them byte by byte just as well.
\<close>

definition label_char :: "char \<Rightarrow> bool" where
  "label_char ch \<longleftrightarrow>
     \<not> ((ch < CHR ''a'' \<or> CHR ''z'' < ch) \<and> (ch < CHR ''0'' \<or> CHR ''9'' < ch) \<and> ch \<noteq> CHR ''-'')"

definition is_valid_domain_name :: "string \<Rightarrow> bool" where
  "is_valid_domain_name v \<longleftrightarrow>
     (if v = [] \<or> has_prefix v ''.'' \<or> contains v ''..'' then False
      else list_all (\<lambda>lab. \<not> (lab = [] \<or> has_prefix lab ''-'' \<or> has_suffix lab ''-'') \<and> list_all label_char lab)
             (split_on (CHR ''.'') v))"

definition validate_duration :: "parsers \<Rightarrow> string \<Rightarrow> string \<Rightarrow> go_error option" where
  "validate_duration lib field raw =
     (let v = trim_space raw
      in if v = [] then Some (ErrText (field @ '' is required''))
         else case parse_duration lib v of
                Inl err \<Rightarrow> Some (ErrWrap (field @ '' must be a valid duration: '') err)
              | Inr duration \<Rightarrow>
                  if duration \<le> 0 then Some (ErrText (field @ '' must be greater than zero'')) else None)"

definition indexed :: "string \<Rightarrow> nat \<Rightarrow> string \<Rightarrow> go_error option" where
  "indexed what i rest = Some (ErrText (what @ ''['' @ itoa i @ '']'' @ rest))"

definition validate_source :: "parsers \<Rightarrow> nat \<times> source_config \<Rightarrow> go_error option" where
  "validate_source lib entry =
     (let (i, source) = entry;
          endpoint = trim_space (sc_endpoint source);
          hostIP = trim_space (sc_host_ip source)
      in if trim_space (sc_type source) = [] then indexed ''sources'' i ''.type is required''
         else if trim_space (sc_name source) = [] then indexed ''sources'' i ''.name is required''
         else if endpoint = [] then indexed ''sources'' i ''.endpoint is required''
         else if \<not> has_prefix endpoint ''unix://'' \<and> \<not> has_prefix endpoint ''tcp://''
         then indexed ''sources'' i ''.endpoint must use unix:// or tcp://''
         else if hostIP \<noteq> [] \<and> \<not> parse_addr_ok lib hostIP
         then indexed ''sources'' i ''.host_ip must be a valid IP address''
         else if trim_space (sc_base_domain source) \<noteq> [] \<and>
           \<not> is_valid_domain_name (normalize_domain_name (sc_base_domain source))
         then indexed ''sources'' i ''.base_domain must be a valid domain name''
         else None)"

text \<open>The format \<^verbatim>\<open>%q\<close> quotes its argument; of the characters it escapes, the quote and the backslash.\<close>

definition quoted :: "string \<Rightarrow> string" where
  "quoted s = CHR 0x22 # concat (map (\<lambda>c. if c = CHR 0x22 \<or> c = CHR 0x5C then [CHR 0x5C, c] else [c]) s) @ [CHR 0x22]"

definition validate_output :: "nat \<times> output_config \<Rightarrow> go_error option" where
  "validate_output entry =
     (let (i, out) = entry; kind = to_lower (trim_space (oc_type out))
      in if trim_space (oc_type out) = [] then indexed ''outputs'' i ''.type is required''
         else if trim_space (oc_name out) = [] then indexed ''outputs'' i ''.name is required''
         else if \<not> is_enabled out then None
         else if kind = ''adguard''
         then (if trim_space (oc_url out) = [] then indexed ''outputs'' i ''.url is required''
               else if trim_space (oc_username out) = [] then indexed ''outputs'' i ''.username is required''
               else if (trim_space (oc_password out) \<noteq> []) = (trim_space (oc_password_ref out) \<noteq> [])
               then indexed ''outputs'' i '' must set exactly one of password or password_ref''
               else None)
         else if kind = ''cloudflare''
         then (if trim_space (oc_zone_id out) = [] then indexed ''outputs'' i ''.zone_id is required''
               else if (trim_space (oc_api_key out) \<noteq> []) = (trim_space (oc_api_key_ref out) \<noteq> [])
               then indexed ''outputs'' i '' must set exactly one of api_key or api_key_ref''
               else None)
         else indexed ''outputs'' i (''.type '' @ quoted (oc_type out) @ '' is not supported''))"

definition log_levels :: "string list" where
  "log_levels = [''trace'', ''debug'', ''info'', ''warn'', ''error'']"

definition validate :: "parsers \<Rightarrow> config \<Rightarrow> go_error option" where
  "validate lib cfg =
     (if cf_sources cfg = [] then Some (ErrText ''at least one source must be configured'')
      else if cf_outputs cfg = [] then Some (ErrText ''at least one output must be configured'')
      else case first_some (validate_source lib) (enumerate 0 (cf_sources cfg)) of Some e \<Rightarrow> Some e | None \<Rightarrow>
      (case first_some validate_output (enumerate 0 (cf_outputs cfg)) of Some e \<Rightarrow> Some e | None \<Rightarrow>
      (if trim_space (cf_state_path cfg) = [] then Some (ErrText ''state.path is required'')
       else if to_lower (trim_space (lc_level (cf_logging cfg))) \<notin> set log_levels
       then Some (ErrText ''logging.level must be one of trace, debug, info, warn, error'')
       else if to_lower (trim_space (lc_format (cf_logging cfg))) \<notin> {''json'', ''text''}
       then Some (ErrText ''logging.format must be one of json or text'')
       else case (if trim_space (cf_operation_timeout cfg) \<noteq> []
                  then validate_duration lib ''runtime.operation_timeout'' (cf_operation_timeout cfg)
                  else None) of Some e \<Rightarrow> Some e | None \<Rightarrow>
      (case validate_duration lib ''retry.initial_interval'' (rc_initial_interval (cf_retry cfg)) of Some e \<Rightarrow> Some e | None \<Rightarrow>
      (case validate_duration lib ''retry.max_interval'' (rc_max_interval (cf_retry cfg)) of Some e \<Rightarrow> Some e | None \<Rightarrow>
       validate_duration lib ''retry.max_elapsed_time'' (rc_max_elapsed_time (cf_retry cfg)))))))"

section \<open>Secrets\<close>

definition env_ref_prefix :: string where
  "env_ref_prefix = ''ENV:''"

definition parse_env_ref :: "string \<Rightarrow> go_error + string" where
  "parse_env_ref ref =
     (if \<not> has_prefix ref env_ref_prefix then Inl (ErrText (''must start with '' @ quoted env_ref_prefix))
      else let nm = trim_space (trim_prefix ref env_ref_prefix)
           in if nm = [] then Inl (ErrText ''must include an environment variable name'') else Inr nm)"

text \<open>One reference: \<open>None\<close> when there is none, else the value of the variable.\<close>

definition resolve_ref ::
  "(string \<Rightarrow> string option) \<Rightarrow> nat \<Rightarrow> string \<Rightarrow> string \<Rightarrow> go_error + string option" where
  "resolve_ref lookup i field raw =
     (let ref = trim_space raw
      in if ref = [] then Inr None
         else case parse_env_ref ref of
                Inl err \<Rightarrow> Inl (ErrWrap (''outputs['' @ itoa i @ ''].'' @ field @ '': '') err)
              | Inr nm \<Rightarrow>
                  (case lookup nm of
                     None \<Rightarrow> Inl (ErrText (''outputs['' @ itoa i @ ''].'' @ field @ '' references an unset environment variable''))
                   | Some v \<Rightarrow>
                       if trim_space v = []
                       then Inl (ErrText (''outputs['' @ itoa i @ ''].'' @ field @ '' references an unset environment variable''))
                       else Inr (Some v)))"

definition resolve_output ::
  "(string \<Rightarrow> string option) \<Rightarrow> nat \<Rightarrow> output_config \<Rightarrow> go_error + output_config" where
  "resolve_output lookup i out =
     (if \<not> is_enabled out then Inr out
      else case resolve_ref lookup i ''password_ref'' (oc_password_ref out) of
             Inl err \<Rightarrow> Inl err
           | Inr password \<Rightarrow>
               (let out1 = (case password of None \<Rightarrow> out | Some v \<Rightarrow> out\<lparr>oc_password := v, oc_password_ref := []\<rparr>)
                in case resolve_ref lookup i ''api_key_ref'' (oc_api_key_ref out1) of
                     Inl err \<Rightarrow> Inl err
                   | Inr None \<Rightarrow> Inr out1
                   | Inr (Some v) \<Rightarrow> Inr (out1\<lparr>oc_api_key := v, oc_api_key_ref := []\<rparr>)))"

fun resolve_outputs ::
  "(string \<Rightarrow> string option) \<Rightarrow> nat \<Rightarrow> output_config list \<Rightarrow> go_error + output_config list" where
  "resolve_outputs lookup i [] = Inr []"
| "resolve_outputs lookup i (out # rest) =
     (case resolve_output lookup i out of
        Inl err \<Rightarrow> Inl err
      | Inr out' \<Rightarrow>
          (case resolve_outputs lookup (Suc i) rest of
             Inl err \<Rightarrow> Inl err
           | Inr rest' \<Rightarrow> Inr (out' # rest')))"

definition resolve_secrets ::
  "config \<Rightarrow> (string \<Rightarrow> string option) option \<Rightarrow> go_error + config" where
  "resolve_secrets cfg lookup =
     (case lookup of
        None \<Rightarrow> Inl (ErrText ''secret lookup is required'')
      | Some f \<Rightarrow>
          (case resolve_outputs f 0 (cf_outputs cfg) of
             Inl err \<Rightarrow> Inl err
           | Inr outs \<Rightarrow> Inr (cfg\<lparr>cf_outputs := outs\<rparr>)))"

section \<open>What validation establishes\<close>

lemma first_some_None: "first_some f xs = None \<longleftrightarrow> (\<forall>x \<in> set xs. f x = None)"
  by (induction xs) (auto split: option.splits)

lemma validate_durationD:
  assumes "validate_duration lib field raw = None"
  obtains d where "parse_duration lib (trim_space raw) = Inr d" "0 < d"
  using assms by (auto simp: validate_duration_def Let_def split: if_splits sum.splits)

lemma validateD:
  assumes "validate lib cfg = None"
  shows "cf_sources cfg \<noteq> []" "cf_outputs cfg \<noteq> []"
    "\<forall>x \<in> set (enumerate 0 (cf_sources cfg)). validate_source lib x = None"
    "\<forall>x \<in> set (enumerate 0 (cf_outputs cfg)). validate_output x = None"
    "trim_space (cf_state_path cfg) \<noteq> []"
    "to_lower (trim_space (lc_level (cf_logging cfg))) \<in> set log_levels"
    "to_lower (trim_space (lc_format (cf_logging cfg))) \<in> {''json'', ''text''}"
    "trim_space (cf_operation_timeout cfg) \<noteq> [] \<longrightarrow>
       validate_duration lib ''runtime.operation_timeout'' (cf_operation_timeout cfg) = None"
    "validate_duration lib ''retry.initial_interval'' (rc_initial_interval (cf_retry cfg)) = None"
    "validate_duration lib ''retry.max_interval'' (rc_max_interval (cf_retry cfg)) = None"
    "validate_duration lib ''retry.max_elapsed_time'' (rc_max_elapsed_time (cf_retry cfg)) = None"
proof -
  note v = assms [unfolded validate_def]
  show "cf_sources cfg \<noteq> []" "cf_outputs cfg \<noteq> []" using v by (simp_all split: if_splits)
  then have v1: "first_some (validate_source lib) (enumerate 0 (cf_sources cfg)) = None"
    "first_some validate_output (enumerate 0 (cf_outputs cfg)) = None"
    using v by (simp_all split: option.splits)
  then show "\<forall>x \<in> set (enumerate 0 (cf_sources cfg)). validate_source lib x = None"
    "\<forall>x \<in> set (enumerate 0 (cf_outputs cfg)). validate_output x = None"
    unfolding first_some_None by blast+
  note v2 = v [unfolded v1, simplified \<open>cf_sources cfg \<noteq> []\<close> \<open>cf_outputs cfg \<noteq> []\<close> if_False option.simps]
  show "trim_space (cf_state_path cfg) \<noteq> []"
    "to_lower (trim_space (lc_level (cf_logging cfg))) \<in> set log_levels"
    "to_lower (trim_space (lc_format (cf_logging cfg))) \<in> {''json'', ''text''}"
    using v2 by (simp_all only: split: if_split_asm) simp_all
  note v3 = v2 [simplified this if_False if_True not_True_eq_False]
  show "trim_space (cf_operation_timeout cfg) \<noteq> [] \<longrightarrow>
       validate_duration lib ''runtime.operation_timeout'' (cf_operation_timeout cfg) = None"
    "validate_duration lib ''retry.initial_interval'' (rc_initial_interval (cf_retry cfg)) = None"
    "validate_duration lib ''retry.max_interval'' (rc_max_interval (cf_retry cfg)) = None"
    "validate_duration lib ''retry.max_elapsed_time'' (rc_max_elapsed_time (cf_retry cfg)) = None"
    using v3 by (simp_all split: option.splits if_split_asm)
qed

end
