(* ===== verification/Runtime_Deps.thy ===== *)
theory Runtime_Deps
  imports Config_Check App_Reconcile
begin

text \<open>
  \<^verbatim>\<open>internal/runtime/deps.go\<close>: the logger, the policy and the timeouts that the runtime makes
  of a validated configuration, the guards of its debug and trace lines, and the generic retry
  helper (which nothing calls at present).
\<close>

section \<open>Log levels\<close>

datatype slog_level = LevelTrace | LevelDebug | LevelInfo | LevelWarn | LevelError

primrec level_value :: "slog_level \<Rightarrow> int" where
  "level_value LevelTrace = - 8"
| "level_value LevelDebug = - 4"
| "level_value LevelInfo = 0"
| "level_value LevelWarn = 4"
| "level_value LevelError = 8"

lemma level_value_inject: "level_value l = level_value m \<longleftrightarrow> l = m"
  by (cases l; cases m) simp_all

instantiation slog_level :: linorder
begin

definition less_eq_slog_level :: "slog_level \<Rightarrow> slog_level \<Rightarrow> bool" where
  "less_eq_slog_level l m \<longleftrightarrow> level_value l \<le> level_value m"

definition less_slog_level :: "slog_level \<Rightarrow> slog_level \<Rightarrow> bool" where
  "less_slog_level l m \<longleftrightarrow> level_value l < level_value m"

instance
  by standard (auto simp: less_eq_slog_level_def less_slog_level_def level_value_inject)

end

lemma level_order: "LevelTrace < LevelDebug" "LevelDebug < LevelInfo" "LevelInfo < LevelWarn" "LevelWarn < LevelError"
  by (simp_all add: less_slog_level_def)

datatype log_format = FormatJson | FormatText | FormatDiscard

record logger =
  lg_format :: log_format
  lg_level :: slog_level
  lg_lines :: "(slog_level \<times> string) list"

definition logger_enabled :: "logger \<Rightarrow> slog_level \<Rightarrow> bool" where
  "logger_enabled lg l \<longleftrightarrow> lg_level lg \<le> l"

definition log_at :: "slog_level \<Rightarrow> string \<Rightarrow> logger \<Rightarrow> logger" where
  "log_at l msg lg = (if logger_enabled lg l then lg\<lparr>lg_lines := lg_lines lg @ [(l, msg)]\<rparr> else lg)"

definition log_debug :: "logger option \<Rightarrow> string \<Rightarrow> logger option" where
  "log_debug lg msg =
     (case lg of
        None \<Rightarrow> None
      | Some g \<Rightarrow> if \<not> logger_enabled g LevelDebug then Some g else Some (log_at LevelDebug msg g))"

definition log_trace :: "logger option \<Rightarrow> string \<Rightarrow> logger option" where
  "log_trace lg msg =
     (case lg of
        None \<Rightarrow> None
      | Some g \<Rightarrow> if \<not> logger_enabled g LevelTrace then Some g else Some (log_at LevelTrace msg g))"

definition parse_log_level :: "string \<Rightarrow> go_error + slog_level" where
  "parse_log_level raw =
     (let v = to_lower (trim_space raw)
      in if v = ''trace'' then Inr LevelTrace
         else if v = ''debug'' then Inr LevelDebug
         else if v = ''info'' then Inr LevelInfo
         else if v = ''warn'' then Inr LevelWarn
         else if v = ''error'' then Inr LevelError
         else Inl (ErrText ''logging.level must be one of trace, debug, info, warn, error''))"

lemma parse_log_level_total: "(\<exists>l. parse_log_level raw = Inr l) \<longleftrightarrow> to_lower (trim_space raw) \<in> set log_levels"
  by (simp add: parse_log_level_def log_levels_def Let_def)

text \<open>A line of a higher level is written whenever one of a lower level is.\<close>

lemma log_at_mono:
  assumes "l \<le> m" "log_at l msg lg \<noteq> lg"
  shows "lg_lines (log_at m msg' lg) = lg_lines lg @ [(m, msg')]"
  using assms by (auto simp: log_at_def logger_enabled_def split: if_splits)

section \<open>Policy and timeouts\<close>

definition default_watch_hint_debounce :: duration where
  "default_watch_hint_debounce = 500 * 10 ^ 6"

definition default_operation_timeout :: duration where
  "default_operation_timeout = 10 * 10 ^ 9"

record runtime_deps =
  rd_logger :: logger
  rd_log_level :: slog_level
  rd_operation_timeout :: duration
  rd_retry :: retry_policy
  rd_watch_hint_debounce :: duration

definition parse_retry_policy :: "parsers \<Rightarrow> retry_config \<Rightarrow> go_error + retry_policy" where
  "parse_retry_policy lib cfg =
     (case parse_duration lib (rc_initial_interval cfg) of
        Inl err \<Rightarrow> Inl (ErrWrap ''parse retry.initial_interval: '' err)
      | Inr initial \<Rightarrow>
     (case parse_duration lib (rc_max_interval cfg) of
        Inl err \<Rightarrow> Inl (ErrWrap ''parse retry.max_interval: '' err)
      | Inr maxInterval \<Rightarrow>
     (case parse_duration lib (rc_max_elapsed_time cfg) of
        Inl err \<Rightarrow> Inl (ErrWrap ''parse retry.max_elapsed_time: '' err)
      | Inr maxElapsed \<Rightarrow>
          Inr \<lparr>rt_initial = initial, rt_max_interval = maxInterval, rt_max_elapsed = maxElapsed\<rparr>)))"

definition parse_operation_timeout :: "parsers \<Rightarrow> string \<Rightarrow> go_error + duration" where
  "parse_operation_timeout lib raw =
     (let v = trim_space raw
      in if v = [] then Inr default_operation_timeout
         else case parse_duration lib v of
                Inl err \<Rightarrow> Inl (ErrWrap ''parse runtime.operation_timeout: '' err)
              | Inr d \<Rightarrow> if d \<le> 0 then Inl (ErrText ''runtime.operation_timeout must be greater than zero'') else Inr d)"

definition log_format_of :: "string \<Rightarrow> log_format" where
  "log_format_of raw =
     (let v = to_lower (trim_space raw)
      in if v = ''json'' then FormatJson else if v = ''text'' then FormatText else FormatDiscard)"

definition new_runtime_deps :: "parsers \<Rightarrow> config \<Rightarrow> go_error + runtime_deps" where
  "new_runtime_deps lib cfg =
     (case parse_log_level (lc_level (cf_logging cfg)) of Inl err \<Rightarrow> Inl err | Inr level \<Rightarrow>
     (case parse_retry_policy lib (cf_retry cfg) of Inl err \<Rightarrow> Inl err | Inr retry \<Rightarrow>
     (case parse_operation_timeout lib (cf_operation_timeout cfg) of Inl err \<Rightarrow> Inl err | Inr timeout \<Rightarrow>
        Inr \<lparr>rd_logger = \<lparr>lg_format = log_format_of (lc_format (cf_logging cfg)), lg_level = level, lg_lines = []\<rparr>,
             rd_log_level = level, rd_operation_timeout = timeout, rd_retry = retry,
             rd_watch_hint_debounce = default_watch_hint_debounce\<rparr>)))"

text \<open>
  The parser of durations accepts no text with blanks around it; so what validation has
  accepted after trimming is parsed again without, or refused.
\<close>

definition strict_durations :: "parsers \<Rightarrow> bool" where
  "strict_durations lib \<longleftrightarrow> (\<forall>s d. parse_duration lib s = Inr d \<longrightarrow> trim_space s = s)"

definition sound_deps :: "runtime_deps \<Rightarrow> bool" where
  "sound_deps deps \<longleftrightarrow> 0 < rd_operation_timeout deps \<and> 0 < rt_initial (rd_retry deps) \<and>
     0 < rt_max_interval (rd_retry deps) \<and> 0 < rt_max_elapsed (rd_retry deps) \<and> 0 < rd_watch_hint_debounce deps \<and>
     lg_format (rd_logger deps) \<noteq> FormatDiscard \<and> lg_level (rd_logger deps) = rd_log_level deps"

lemma validated_duration_positive:
  assumes "strict_durations lib" "validate_duration lib field raw = None" "parse_duration lib raw = Inr d"
  shows "0 < d"
proof -
  obtain d' where "parse_duration lib (trim_space raw) = Inr d'" "0 < d'" using assms(2) by (rule validate_durationD)
  moreover have "trim_space raw = raw" using assms(1,3) unfolding strict_durations_def by blast
  ultimately show ?thesis using assms(3) by simp
qed

lemma new_runtime_deps_sound:
  assumes strict: "strict_durations lib" and valid: "validate lib cfg = None" and deps: "new_runtime_deps lib cfg = Inr deps"
  shows "sound_deps deps"
proof -
  note v = validateD [OF valid]
  obtain level retry timeout where l: "parse_log_level (lc_level (cf_logging cfg)) = Inr level"
    "parse_retry_policy lib (cf_retry cfg) = Inr retry" "parse_operation_timeout lib (cf_operation_timeout cfg) = Inr timeout"
    "deps = \<lparr>rd_logger = \<lparr>lg_format = log_format_of (lc_format (cf_logging cfg)), lg_level = level, lg_lines = []\<rparr>,
             rd_log_level = level, rd_operation_timeout = timeout, rd_retry = retry,
             rd_watch_hint_debounce = default_watch_hint_debounce\<rparr>"
    using deps by (auto simp: new_runtime_deps_def split: sum.splits)
  have "0 < timeout"
    using l(3) by (auto simp: parse_operation_timeout_def Let_def default_operation_timeout_def split: sum.splits if_splits)
  moreover obtain x y z where "parse_duration lib (rc_initial_interval (cf_retry cfg)) = Inr x"
    "parse_duration lib (rc_max_interval (cf_retry cfg)) = Inr y"
    "parse_duration lib (rc_max_elapsed_time (cf_retry cfg)) = Inr z"
    "retry = \<lparr>rt_initial = x, rt_max_interval = y, rt_max_elapsed = z\<rparr>"
    using l(2) by (auto simp: parse_retry_policy_def split: sum.splits)
  moreover note validated_duration_positive [OF strict v(9)] validated_duration_positive [OF strict v(10)]
    validated_duration_positive [OF strict v(11)]
  moreover have "log_format_of (lc_format (cf_logging cfg)) \<noteq> FormatDiscard"
    using v(7) by (auto simp: log_format_of_def Let_def)
  ultimately show ?thesis by (simp add: sound_deps_def l(4) default_watch_hint_debounce_def)
qed

section \<open>retryWithBackoff\<close>

text \<open>The surroundings \<open>a\<close> decide how a sleep ends, as for the loop of a reconciliation.\<close>

partial_function (option) retry_backoff_loop ::
  "'w app \<Rightarrow> retry_policy \<Rightarrow> (nat \<Rightarrow> 'w env \<Rightarrow> go_error option \<times> 'w env) \<Rightarrow>
   (nat \<Rightarrow> duration \<Rightarrow> go_error \<Rightarrow> 'w env \<Rightarrow> 'w env) option \<Rightarrow> time \<Rightarrow> nat \<Rightarrow> duration \<Rightarrow> 'w env \<Rightarrow>
   (go_error option \<times> 'w env) option" where
  "retry_backoff_loop a policy operation onRetry startedAt attempt delay e =
     (case operation attempt e of
        (None, e1) \<Rightarrow> Some (None, e1)
      | (Some err, e1) \<Rightarrow>
          if is_context_cancellation_error err then Some (Some err, e1)
          else if ctx_err e1 \<noteq> None then Some (ctx_err e1, e1)
          else if rt_max_elapsed policy < wrap64 (env_clock e1 - startedAt + delay) then Some (Some err, e1)
          else (case sleep_context a delay (case onRetry of None \<Rightarrow> e1 | Some f \<Rightarrow> f attempt delay err e1) of
                  (Some err', e2) \<Rightarrow> Some (Some err', e2)
                | (None, e2) \<Rightarrow>
                    retry_backoff_loop a policy operation onRetry startedAt (Suc attempt)
                      (let doubled = wrap64 (delay * 2)
                       in if rt_max_interval policy < doubled then rt_max_interval policy else doubled) e2))"

definition retry_with_backoff ::
  "'w app \<Rightarrow> retry_policy \<Rightarrow> (nat \<Rightarrow> 'w env \<Rightarrow> go_error option \<times> 'w env) \<Rightarrow>
   (nat \<Rightarrow> duration \<Rightarrow> go_error \<Rightarrow> 'w env \<Rightarrow> 'w env) option \<Rightarrow> 'w env \<Rightarrow> (go_error option \<times> 'w env) option" where
  "retry_with_backoff a policy operation onRetry e =
     retry_backoff_loop a policy operation onRetry (env_clock e) 1 (rt_initial policy) e"

text \<open>It succeeds only when the operation has succeeded, with the state that the operation left.\<close>

lemma retry_backoff_success:
  assumes "retry_backoff_loop a policy operation onRetry startedAt attempt delay e = Some (None, e')"
  shows "\<exists>n e0. operation n e0 = (None, e')"
proof -
  have "fst p = None \<longrightarrow> (\<exists>n e0. operation n e0 = (None, snd p))"
    if "retry_backoff_loop a policy operation onRetry startedAt attempt delay e = Some p" for p
    using _ that
  proof (rule retry_backoff_loop.raw_induct)
    fix loop and a :: "'a app" and policy operation and onRetry startedAt attempt delay and e :: "'a env" and p
    assume ih: "\<And>a policy operation onRetry startedAt attempt delay e p.
        loop a policy operation onRetry startedAt attempt delay e = Some p \<Longrightarrow>
        fst p = None \<longrightarrow> (\<exists>n e0. operation n e0 = (None, snd p))"
      and body: "(case operation attempt e of
        (None, e1) \<Rightarrow> Some (None, e1)
      | (Some err, e1) \<Rightarrow>
          if is_context_cancellation_error err then Some (Some err, e1)
          else if ctx_err e1 \<noteq> None then Some (ctx_err e1, e1)
          else if rt_max_elapsed policy < wrap64 (env_clock e1 - startedAt + delay) then Some (Some err, e1)
          else (case sleep_context a delay (case onRetry of None \<Rightarrow> e1 | Some f \<Rightarrow> f attempt delay err e1) of
                  (Some err', e2) \<Rightarrow> Some (Some err', e2)
                | (None, e2) \<Rightarrow>
                    loop a policy operation onRetry startedAt (Suc attempt)
                      (let doubled = wrap64 (delay * 2)
                       in if rt_max_interval policy < doubled then rt_max_interval policy else doubled) e2)) = Some p"
    show "fst p = None \<longrightarrow> (\<exists>n e0. operation n e0 = (None, snd p))"
    proof (intro impI)
      assume none: "fst p = None"
      obtain r e1 where op: "operation attempt e = (r, e1)" by fastforce
      show "\<exists>n e0. operation n e0 = (None, snd p)"
      proof (cases r)
        case None
        then have "p = (None, e1)" using body op by simp
        with None op show ?thesis by (intro exI [of _ attempt] exI [of _ e]) simp
      next
        case (Some err)
        obtain q e2 where sl: "sleep_context a delay (case onRetry of None \<Rightarrow> e1 | Some f \<Rightarrow> f attempt delay err e1) = (q, e2)"
          by fastforce
        show ?thesis
          using body none ih by (cases q) (auto simp: op Some sl split: if_splits)
      qed
    qed
  qed
  with assms show ?thesis by fastforce
qed

end
