(* ===== verification/Config_Secrets.thy ===== *)
theory Config_Secrets
  imports Config_Check
begin

text \<open>
  What the resolution of secrets (\<^verbatim>\<open>internal/config/secrets.go\<close>) makes of a configuration, and
  exactly when it refuses one.
\<close>

text \<open>The value of a reference, when it is one to a variable that is set.\<close>

definition env_secret :: "(string \<Rightarrow> string option) \<Rightarrow> string \<Rightarrow> string option" where
  "env_secret lookup raw =
     (let ref = trim_space raw; nm = trim_space (drop (length env_ref_prefix) ref)
      in if \<not> has_prefix ref env_ref_prefix \<or> nm = [] then None
         else case lookup nm of None \<Rightarrow> None | Some v \<Rightarrow> if blank v then None else Some v)"

lemma parse_env_ref_Inr:
  "parse_env_ref ref = Inr nm \<longleftrightarrow>
     has_prefix ref env_ref_prefix \<and> nm = trim_space (drop (length env_ref_prefix) ref) \<and> nm \<noteq> []"
  by (auto simp: parse_env_ref_def trim_prefix_def Let_def)

lemma resolve_ref_cases:
  "resolve_ref lookup i field raw = Inr r \<longleftrightarrow>
     (if blank raw then r = None else r = env_secret lookup raw \<and> r \<noteq> None)"
  by (auto simp: resolve_ref_def blank_def env_secret_def Let_def parse_env_ref_def trim_prefix_def
      split: sum.splits option.splits if_splits)

lemma resolve_ref_fails:
  "(\<exists>err. resolve_ref lookup i field raw = Inl err) \<longleftrightarrow> \<not> blank raw \<and> env_secret lookup raw = None"
proof -
  have "(\<exists>err. resolve_ref lookup i field raw = Inl err) \<longleftrightarrow> \<not> (\<exists>r. resolve_ref lookup i field raw = Inr r)"
    by (cases "resolve_ref lookup i field raw") auto
  then show ?thesis unfolding resolve_ref_cases by (auto split: if_splits)
qed

text \<open>An output after the resolution: its references replaced by their values.\<close>

definition with_secrets :: "(string \<Rightarrow> string option) \<Rightarrow> output_config \<Rightarrow> output_config" where
  "with_secrets lookup out =
     (if \<not> is_enabled out then out
      else let out1 = (if blank (oc_password_ref out) then out
                       else out\<lparr>oc_password := the (env_secret lookup (oc_password_ref out)), oc_password_ref := []\<rparr>)
           in if blank (oc_api_key_ref out) then out1
              else out1\<lparr>oc_api_key := the (env_secret lookup (oc_api_key_ref out)), oc_api_key_ref := []\<rparr>)"

definition dangling :: "(string \<Rightarrow> string option) \<Rightarrow> output_config \<Rightarrow> bool" where
  "dangling lookup out \<longleftrightarrow> is_enabled out \<and>
     (\<not> blank (oc_password_ref out) \<and> env_secret lookup (oc_password_ref out) = None \<or>
      \<not> blank (oc_api_key_ref out) \<and> env_secret lookup (oc_api_key_ref out) = None)"

lemma resolve_output_Inr:
  "resolve_output lookup i out = Inr out' \<longleftrightarrow> \<not> dangling lookup out \<and> out' = with_secrets lookup out"
proof (cases "is_enabled out")
  case True
  obtain p q where p: "resolve_ref lookup i ''password_ref'' (oc_password_ref out) = p"
    and q: "resolve_ref lookup i ''api_key_ref'' (oc_api_key_ref out) = q" by blast
  note cases = resolve_ref_cases [of lookup i "''password_ref''" "oc_password_ref out", unfolded p]
    resolve_ref_cases [of lookup i "''api_key_ref''" "oc_api_key_ref out", unfolded q]
    resolve_ref_fails [of lookup i "''password_ref''" "oc_password_ref out", unfolded p]
    resolve_ref_fails [of lookup i "''api_key_ref''" "oc_api_key_ref out", unfolded q]
  have keep: "oc_api_key_ref (case x of None \<Rightarrow> out | Some v \<Rightarrow> out\<lparr>oc_password := v, oc_password_ref := []\<rparr>) = oc_api_key_ref out" for x
    by (cases x) simp_all
  show ?thesis
  proof (cases p)
    case (Inl err)
    then have "dangling lookup out" using cases(3) True by (auto simp: dangling_def)
    then show ?thesis using Inl p True by (simp add: resolve_output_def)
  next
    case pr: (Inr x)
    show ?thesis
    proof (cases q)
      case (Inl err)
      then have "dangling lookup out" using cases(4) True by (auto simp: dangling_def)
      then show ?thesis using pr Inl p q True by (simp add: resolve_output_def Let_def keep)
    next
      case (Inr y)
      then have "\<not> dangling lookup out" using pr cases True by (auto simp: dangling_def split: if_splits)
      moreover have "with_secrets lookup out =
          (let out1 = (case x of None \<Rightarrow> out | Some v \<Rightarrow> out\<lparr>oc_password := v, oc_password_ref := []\<rparr>)
           in case y of None \<Rightarrow> out1 | Some v \<Rightarrow> out1\<lparr>oc_api_key := v, oc_api_key_ref := []\<rparr>)"
        using cases(1) [of x] cases(2) [of y] pr Inr True
        by (auto simp: with_secrets_def Let_def split: if_splits option.splits)
      ultimately show ?thesis using pr Inr p q True
        by (auto simp: resolve_output_def Let_def keep split: option.splits)
    qed
  qed
qed (auto simp: resolve_output_def dangling_def with_secrets_def)

lemma resolve_outputs_Inr:
  "resolve_outputs lookup i outs = Inr outs' \<longleftrightarrow>
     (\<forall>out \<in> set outs. \<not> dangling lookup out) \<and> outs' = map (with_secrets lookup) outs"
proof (induction outs arbitrary: i outs')
  case (Cons out outs)
  show ?case
  proof (cases "resolve_output lookup i out")
    case (Inl err)
    then show ?thesis using resolve_output_Inr [of lookup i out] by auto
  next
    case (Inr out')
    with Cons.IH [of "Suc i"] show ?thesis
      using resolve_output_Inr [of lookup i out out'] by (cases "resolve_outputs lookup (Suc i) outs") auto
  qed
qed auto

text \<open>The secret with which an output signs in, by its kind.\<close>

definition secret_of :: "output_config \<Rightarrow> string" where
  "secret_of out = (if to_lower (trim_space (oc_type out)) = ''adguard'' then oc_password out else oc_api_key out)"

lemma env_secret_not_blank: "env_secret lookup raw = Some v \<Longrightarrow> \<not> blank v"
  by (auto simp: env_secret_def Let_def split: if_splits option.splits)

lemma resolved_secret:
  assumes "validate_output (i, out) = None" "is_enabled out" "\<not> dangling lookup out"
  shows "\<not> blank (secret_of (with_secrets lookup out))"
proof -
  note d = assms(3) [unfolded dangling_def]
  consider "to_lower (trim_space (oc_type out)) = ''adguard''"
      "(trim_space (oc_password out) \<noteq> []) \<noteq> (trim_space (oc_password_ref out) \<noteq> [])"
    | "to_lower (trim_space (oc_type out)) \<noteq> ''adguard''"
      "(trim_space (oc_api_key out) \<noteq> []) \<noteq> (trim_space (oc_api_key_ref out) \<noteq> [])"
    using assms(1,2) by (auto simp: validate_output_def indexed_def Let_def split: if_splits)
  then show ?thesis
  proof cases
    case 1
    then show ?thesis
      using d assms(2) env_secret_not_blank [of lookup "oc_password_ref out"]
      by (auto simp: secret_of_def with_secrets_def Let_def blank_def)
  next
    case 2
    then show ?thesis
      using d assms(2) env_secret_not_blank [of lookup "oc_api_key_ref out"]
      by (auto simp: secret_of_def with_secrets_def Let_def blank_def)
  qed
qed

text \<open>What an output needs for signing in: a secret, and no reference left to resolve.\<close>

definition signs_in :: "output_config \<Rightarrow> bool" where
  "signs_in out \<longleftrightarrow> \<not> is_enabled out \<or>
     \<not> blank (secret_of out) \<and> blank (oc_password_ref out) \<and> blank (oc_api_key_ref out)"

lemma with_secrets_enabled [simp]: "is_enabled (with_secrets lookup out) = is_enabled out"
  by (simp add: with_secrets_def is_enabled_def Let_def)

lemma with_secrets_refs:
  assumes "is_enabled out"
  shows "blank (oc_password_ref (with_secrets lookup out))" "blank (oc_api_key_ref (with_secrets lookup out))"
  using assms by (simp_all add: with_secrets_def Let_def) (simp_all add: blank_def)

lemma validated_signs_in:
  assumes "validate lib cfg = None" "out \<in> set (cf_outputs cfg)" "\<not> dangling lookup out"
  shows "signs_in (with_secrets lookup out)"
proof (cases "is_enabled out")
  case True
  obtain i where "i < length (cf_outputs cfg)" "cf_outputs cfg ! i = out" using assms(2) by (auto simp: in_set_conv_nth)
  then have "(i, out) \<in> set (enumerate 0 (cf_outputs cfg))" by (simp add: in_set_enumerate_eq)
  then have "validate_output (i, out) = None" using validateD(4) [OF assms(1)] by blast
  from resolved_secret [OF this True assms(3)] with_secrets_refs [OF True] show ?thesis by (simp add: signs_in_def)
qed (simp add: signs_in_def)

text \<open>
  C20: Of a valid configuration the resolution of secrets fails exactly when an enabled output
  refers to a variable that is unset or blank or names none; otherwise it replaces references
  by their values and nothing else, and every enabled output has its secret and no reference
  left.
\<close>

theorem secrets_resolved:
  assumes "validate lib cfg = None"
  shows "((\<exists>err. resolve_secrets cfg (Some lookup) = Inl err) \<longleftrightarrow> list_ex (dangling lookup) (cf_outputs cfg)) \<and>
    (\<forall>cfg'. resolve_secrets cfg (Some lookup) = Inr cfg' \<longrightarrow>
       cfg' = cfg\<lparr>cf_outputs := map (with_secrets lookup) (cf_outputs cfg)\<rparr> \<and>
       list_all signs_in (cf_outputs cfg'))"
proof -
  let ?r = "resolve_outputs lookup 0 (cf_outputs cfg)"
  have "(\<exists>err. resolve_secrets cfg (Some lookup) = Inl err) \<longleftrightarrow> \<not> (\<exists>outs. ?r = Inr outs)"
    by (cases ?r) (simp_all add: resolve_secrets_def)
  also have "\<dots> \<longleftrightarrow> list_ex (dangling lookup) (cf_outputs cfg)" unfolding resolve_outputs_Inr by (auto simp: list_ex_iff)
  finally have fails: "(\<exists>err. resolve_secrets cfg (Some lookup) = Inl err) \<longleftrightarrow> list_ex (dangling lookup) (cf_outputs cfg)" .
  have ok: "cfg' = cfg\<lparr>cf_outputs := map (with_secrets lookup) (cf_outputs cfg)\<rparr> \<and> list_all signs_in (cf_outputs cfg')"
    if r: "resolve_secrets cfg (Some lookup) = Inr cfg'" for cfg'
  proof -
    have "resolve_outputs lookup 0 (cf_outputs cfg) = Inr (cf_outputs cfg')" "cfg' = cfg\<lparr>cf_outputs := cf_outputs cfg'\<rparr>"
      using r by (auto simp: resolve_secrets_def split: sum.splits)
    then have outs: "cf_outputs cfg' = map (with_secrets lookup) (cf_outputs cfg)"
      and ok: "\<forall>out \<in> set (cf_outputs cfg). \<not> dangling lookup out" unfolding resolve_outputs_Inr by simp_all
    have "signs_in (with_secrets lookup out)" if "out \<in> set (cf_outputs cfg)" for out
      using validated_signs_in [OF assms that] ok that by blast
    with outs show ?thesis using \<open>cfg' = cfg\<lparr>cf_outputs := cf_outputs cfg'\<rparr>\<close> by (simp add: list_all_iff)
  qed
  show ?thesis using fails ok by blast
qed

end
