(* ===== verification/Docker_Labels.thy ===== *)
theory Docker_Labels
  imports Contracts
begin

text \<open>
  \<^verbatim>\<open>internal/providers/docker/labels.go\<close>: which DNS records the labels of a container ask
  for. Labels are a finite map whose missing keys read as the empty string; the loops over them
  take the iteration order as an argument. \<open>publishes\<close> states without loops which hostnames a
  container asks for (\<open>Docker_Derive\<close>), and the derivation is shown to implement it.
\<close>

section \<open>Labels\<close>

text \<open>The fields of the client library's \<^verbatim>\<open>container.Summary\<close> that the code reads.\<close>

record container_summary =
  ct_id :: string
  ct_names :: "string list"
  ct_labels :: "(string, string) fmap"
  ct_state :: string

definition label :: "(string, string) fmap \<Rightarrow> string \<Rightarrow> string" where
  "label labels key = (case fmlookup labels key of None \<Rightarrow> [] | Some v \<Rightarrow> v)"

definition normalize_name :: "string \<Rightarrow> string" where
  "normalize_name v = trim_suffix (trim_space (to_lower v)) ''.''"

definition normalize_answer_target :: "string \<Rightarrow> string" where
  "normalize_answer_target v = trim_suffix (trim_space (to_lower v)) ''.''"

definition normalize_port_value :: "string \<Rightarrow> string" where
  "normalize_port_value v = trim_space v"

definition container_display_name :: "container_summary \<Rightarrow> string" where
  "container_display_name container =
     (case find (\<lambda>trimmed. trimmed \<noteq> []) (map (\<lambda>nm. trim_space (trim_prefix nm ''/'')) (ct_names container)) of
        Some trimmed \<Rightarrow> trimmed
      | None \<Rightarrow> trim_space (ct_id container))"

definition is_excluded :: "(string, string) fmap \<Rightarrow> bool" where
  "is_excluded labels \<longleftrightarrow> trim_space (to_lower (label labels ''proxy.exclude'')) = ''true''"

definition dns_output_type :: "(string, string) fmap \<Rightarrow> string \<times> bool" where
  "dns_output_type labels =
     (let v = trim_space (to_lower (label labels ''proxy.dns''))
      in if v = [] \<or> v = ''true'' then ([], True)
         else if v = ''false'' then ([], False)
         else (v, True))"

definition supported_named_port_alias :: "string \<Rightarrow> string option" where
  "supported_named_port_alias key =
     (if \<not> has_prefix key ''proxy.'' then None
      else let parts = split_on (CHR ''.'') key
           in if length parts \<noteq> 3 \<or> parts ! 0 \<noteq> ''proxy'' then None
              else if parts ! 1 = [] \<or> parts ! 1 = ''*'' \<or> has_prefix (parts ! 1) ''#'' then None
              else if parts ! 2 \<noteq> ''port'' then None
              else Some (normalize_name (parts ! 1)))"

definition has_port_for_alias :: "(string, string) fmap \<Rightarrow> string \<Rightarrow> nat \<Rightarrow> bool" where
  "has_port_for_alias labels alias index \<longleftrightarrow>
     (if normalize_port_value (label labels (''proxy.'' @ alias @ ''.port'')) \<noteq> [] then True
      else if 0 < index \<and> normalize_port_value (label labels (''proxy.#'' @ itoa index @ ''.port'')) \<noteq> [] then True
      else normalize_port_value (label labels ''proxy.*.port'') \<noteq> [])"

definition explicit_host_override :: "(string, string) fmap \<Rightarrow> string \<Rightarrow> nat \<Rightarrow> string" where
  "explicit_host_override labels alias index =
     (let named = normalize_answer_target (label labels (''proxy.'' @ alias @ ''.host''));
          indexed = normalize_answer_target (label labels (''proxy.#'' @ itoa index @ ''.host''))
      in if named \<noteq> [] then named
         else if 0 < index \<and> indexed \<noteq> [] then indexed
         else normalize_answer_target (label labels ''proxy.*.host''))"

definition wildcard_or_indexed_key :: "(string, string) fmap \<Rightarrow> string \<Rightarrow> bool" where
  "wildcard_or_indexed_key labels key \<longleftrightarrow>
     (has_prefix key ''proxy.*.'' \<or> has_prefix key ''proxy.#'') \<and>
     has_suffix key ''.port'' \<and> normalize_port_value (label labels key) \<noteq> []"

definition has_wildcard_or_indexed_port :: "range_order \<Rightarrow> (string, string) fmap \<Rightarrow> bool" where
  "has_wildcard_or_indexed_port ord labels \<longleftrightarrow>
     list_ex (wildcard_or_indexed_key labels) (range_keys ord (fmdom labels))"

section \<open>Aliases\<close>

record alias_ref =
  al_name :: string
  al_position :: nat

text \<open>The two loops with their shared set \<^verbatim>\<open>seen\<close>.\<close>

definition add_listed ::
  "(string, string) fmap \<Rightarrow> nat \<times> string \<Rightarrow> string fset \<times> alias_ref list \<Rightarrow> string fset \<times> alias_ref list" where
  "add_listed labels entry st =
     (let (position, raw) = entry; (seen, ordered) = st; alias = normalize_name raw
      in if alias = [] then st
         else if \<not> has_port_for_alias labels alias position then st
         else if alias |\<in>| seen then st
         else (finsert alias seen, ordered @ [\<lparr>al_name = alias, al_position = position\<rparr>]))"

definition add_discovered ::
  "(string, string) fmap \<Rightarrow> string \<Rightarrow> string fset \<times> string list \<Rightarrow> string fset \<times> string list" where
  "add_discovered labels key st =
     (let (seen, discovered) = st
      in case supported_named_port_alias key of
           None \<Rightarrow> st
         | Some alias \<Rightarrow>
             if normalize_port_value (label labels key) = [] then st
             else if alias |\<in>| seen then st
             else (finsert alias seen, discovered @ [alias]))"

definition collect_aliases :: "range_order \<Rightarrow> container_summary \<Rightarrow> alias_ref list" where
  "collect_aliases ord container =
     (let labels = ct_labels container;
          (seen, ordered) = fold (add_listed labels)
            (enumerate 1 (split_on (CHR '','') (label labels ''proxy.aliases''))) ({||}, []);
          (seen', discovered) = fold (add_discovered labels) (range_keys ord (fmdom labels)) (seen, []);
          ordered' = ordered @ map (\<lambda>alias. \<lparr>al_name = alias, al_position = 0\<rparr>) (sort discovered)
      in if ordered' = [] \<and> has_wildcard_or_indexed_port ord labels
         then let fallback = normalize_name (container_display_name container)
              in if fallback \<noteq> [] then [\<lparr>al_name = fallback, al_position = 0\<rparr>] else []
         else ordered')"

definition qualify_hostname :: "string \<Rightarrow> string \<Rightarrow> string" where
  "qualify_hostname hostname baseDomain =
     (let host = normalize_name hostname; base = normalize_name baseDomain
      in if host = [] then []
         else if contains host ''.'' then host
         else if base = [] \<or> host = base \<or> has_suffix host (''.'' @ base) then host
         else host @ ''.'' @ base)"

section \<open>Records\<close>

record derivation_diagnostic =
  dg_alias :: string
  dg_hostname :: string
  dg_reason :: string
  dg_hint :: string

definition desired_record_sort_key :: "desired_record \<Rightarrow> string" where
  "desired_record_sort_key d = d_hostname d @ ''|'' @ d_answer d @ ''|'' @ so_id (d_source d)"

definition desired_record_less :: "desired_record \<Rightarrow> desired_record \<Rightarrow> bool" where
  "desired_record_less left right \<longleftrightarrow> desired_record_sort_key left < desired_record_sort_key right"

definition skip_all :: "string \<Rightarrow> string \<Rightarrow> desired_record list \<times> derivation_diagnostic list" where
  "skip_all reason hint = ([], [\<lparr>dg_alias = [], dg_hostname = [], dg_reason = reason, dg_hint = hint\<rparr>])"

text \<open>The body of the loop over the aliases: a record or a diagnostic.\<close>

definition derive_alias ::
  "container_summary \<Rightarrow> source_object_ref \<Rightarrow> string \<Rightarrow> string \<Rightarrow> string \<Rightarrow> alias_ref \<Rightarrow>
     derivation_diagnostic + desired_record" where
  "derive_alias container source outputType answer baseDomain alias =
     (let hostname = qualify_hostname (al_name alias) baseDomain
      in if hostname = []
         then Inl \<lparr>dg_alias = al_name alias, dg_hostname = [], dg_reason = ''invalid/empty hostname'',
                dg_hint = ''set proxy.aliases to a valid hostname value''\<rparr>
         else let override = explicit_host_override (ct_labels container) (al_name alias) (al_position alias);
                  target = (if override = [] then answer else override)
              in if target = []
                 then Inl \<lparr>dg_alias = al_name alias, dg_hostname = hostname, dg_reason = ''empty_answer_target'',
                        dg_hint = ''set sources[].host_ip or proxy.*.host / proxy.<alias>.host''\<rparr>
                 else Inr \<lparr>d_hostname = hostname, d_answer = normalize_answer_target target,
                        d_source = source, d_output = outputType\<rparr>)"

definition oks :: "('e + 'a) list \<Rightarrow> 'a list" where
  "oks rs = concat (map (\<lambda>r. case r of Inl e \<Rightarrow> [] | Inr x \<Rightarrow> [x]) rs)"

definition errs :: "('e + 'a) list \<Rightarrow> 'e list" where
  "errs rs = concat (map (\<lambda>r. case r of Inl e \<Rightarrow> [e] | Inr x \<Rightarrow> []) rs)"

definition source_of_container :: "provider_ref \<Rightarrow> container_summary \<Rightarrow> source_object_ref" where
  "source_of_container provider container =
     \<lparr>so_provider = provider, so_id = trim_space (ct_id container),
      so_display_name = container_display_name container\<rparr>"

definition derive_desired_records_detailed ::
  "range_order \<Rightarrow> provider_ref \<Rightarrow> string \<Rightarrow> string \<Rightarrow> container_summary \<Rightarrow>
     desired_record list \<times> derivation_diagnostic list" where
  "derive_desired_records_detailed ord provider defaultTarget baseDomain container =
     (if is_excluded (ct_labels container)
      then skip_all ''proxy.exclude'' ''remove proxy.exclude=true to let this container publish DNS records''
      else let (outputType, include') = dns_output_type (ct_labels container)
      in if \<not> include'
         then skip_all ''proxy.dns=false'' ''set proxy.dns=true or remove proxy.dns to enable DNS derivation''
      else let aliases = collect_aliases ord container
      in if aliases = []
         then skip_all ''no supported alias/port''
           ''set proxy.aliases with matching proxy.<alias>.port labels, or define proxy.*.port / proxy.#.port''
      else let answer = normalize_answer_target defaultTarget;
               results = map (derive_alias container (source_of_container provider container) outputType answer baseDomain) aliases
           in (sort_key desired_record_sort_key (oks results), errs results))"

definition derive_desired_records ::
  "range_order \<Rightarrow> provider_ref \<Rightarrow> string \<Rightarrow> string \<Rightarrow> container_summary \<Rightarrow> desired_record list" where
  "derive_desired_records ord provider defaultTarget baseDomain container =
     fst (derive_desired_records_detailed ord provider defaultTarget baseDomain container)"

text \<open>Endpoints; the parser of package \<^verbatim>\<open>net/url\<close>, with \<^verbatim>\<open>Hostname\<close>, is an argument.\<close>

definition is_local_endpoint :: "string \<Rightarrow> bool" where
  "is_local_endpoint endpoint \<longleftrightarrow> has_prefix endpoint ''unix://'' \<or> has_prefix endpoint ''npipe://'' \<or> endpoint = []"

definition endpoint_host :: "(string \<Rightarrow> string option) \<Rightarrow> string \<Rightarrow> string" where
  "endpoint_host url_hostname endpoint =
     (case url_hostname endpoint of None \<Rightarrow> [] | Some host \<Rightarrow> normalize_answer_target host)"

section \<open>Normal forms\<close>

interpretation name_norm: field_normalizer normalize_name
  by unfold_locales (simp_all add: normalize_name_def trim_space_to_lower trim_suffix_dot_to_lower)

interpretation target_norm: field_normalizer normalize_answer_target
  by unfold_locales (simp_all add: normalize_answer_target_def trim_space_to_lower trim_suffix_dot_to_lower)

end
