(* ===== verification/Docker_Derive.thy ===== *)
theory Docker_Derive
  imports Docker_Labels
begin

text \<open>
  The derivation of \<^verbatim>\<open>labels.go\<close> against a specification without loops: which aliases a
  container asks for, and which records follow from them, whatever order the labels are visited in.
\<close>

section \<open>Specification\<close>

text \<open>
  What a container asks for, in terms of its label values. \<open>tidy\<close> is the normal form of names
  and answers: lower case, no blanks around, without one final dot. A port label is given when
  it holds something that is not blank.
\<close>

definition tidy :: "string \<Rightarrow> string" where
  "tidy s = (let t = trim_space (to_lower s) in if t \<noteq> [] \<and> last t = CHR ''.'' then butlast t else t)"

definition given :: "(string, string) fmap \<Rightarrow> string \<Rightarrow> bool" where
  "given labels key \<longleftrightarrow> (\<exists>v. fmlookup labels key = Some v \<and> (\<exists>ch \<in> set v. \<not> is_space ch))"

definition said :: "(string, string) fmap \<Rightarrow> string \<Rightarrow> string" where
  "said labels key = (case fmlookup labels key of None \<Rightarrow> [] | Some v \<Rightarrow> tidy v)"

text \<open>The first of several texts that is not empty.\<close>

definition first_said :: "string list \<Rightarrow> string" where
  "first_said xs = (case filter (\<lambda>x. x \<noteq> []) xs of [] \<Rightarrow> [] | x # _ \<Rightarrow> x)"

text \<open>The name of the container without its leading slash, or else its identifier.\<close>

definition shown_name :: "container_summary \<Rightarrow> string" where
  "shown_name c =
     first_said (map (\<lambda>nm. trim_space (if nm \<noteq> [] \<and> hd nm = CHR ''/'' then tl nm else nm)) (ct_names c) @
       [trim_space (ct_id c)])"

text \<open>
  An alias is listed at a position of \<^verbatim>\<open>proxy.aliases\<close> when a port is given for it by name, for
  the position, or for all; it is named by a port label; a port that is not for a single alias
  stands for the name of the container, if there is no alias at all. The position is the first
  at which the alias is listed, or 0.
\<close>

definition listed_alias :: "(string, string) fmap \<Rightarrow> string \<Rightarrow> nat \<Rightarrow> bool" where
  "listed_alias labels a i \<longleftrightarrow>
     (let parts = split_on (CHR '','') (case fmlookup labels ''proxy.aliases'' of None \<Rightarrow> [] | Some v \<Rightarrow> v)
      in 1 \<le> i \<and> i \<le> length parts \<and> a = tidy (parts ! (i - 1)) \<and> a \<noteq> [] \<and>
         (given labels (''proxy.'' @ a @ ''.port'') \<or> given labels (''proxy.#'' @ itoa i @ ''.port'') \<or>
          given labels ''proxy.*.port''))"

definition port_alias :: "(string, string) fmap \<Rightarrow> string \<Rightarrow> bool" where
  "port_alias labels a \<longleftrightarrow>
     (\<exists>x. given labels (''proxy.'' @ x @ ''.port'') \<and> x \<noteq> [] \<and> x \<noteq> ''*'' \<and> hd x \<noteq> CHR ''#'' \<and>
        CHR ''.'' \<notin> set x \<and> a = tidy x)"

definition general_port :: "(string, string) fmap \<Rightarrow> bool" where
  "general_port labels \<longleftrightarrow>
     (\<exists>key. given labels key \<and> (prefix ''proxy.*.'' key \<or> prefix ''proxy.#'' key) \<and> suffix ''.port'' key)"

definition wants :: "container_summary \<Rightarrow> string \<Rightarrow> nat \<Rightarrow> bool" where
  "wants c a i \<longleftrightarrow>
     (let labels = ct_labels c
      in listed_alias labels a i \<and> (\<forall>j < i. \<not> listed_alias labels a j) \<or>
         i = 0 \<and> port_alias labels a \<and> (\<forall>j. \<not> listed_alias labels a j) \<or>
         i = 0 \<and> general_port labels \<and> (\<forall>b. \<not> port_alias labels b \<and> (\<forall>j. \<not> listed_alias labels b j)) \<and>
           a = tidy (shown_name c) \<and> a \<noteq> [])"

text \<open>A name without a dot is completed by the base domain.\<close>

definition full_name :: "string \<Rightarrow> string \<Rightarrow> string" where
  "full_name base a =
     (let h = tidy a; z = tidy base
      in if h = [] \<or> CHR ''.'' \<in> set h \<or> z = [] \<or> h = z then h else h @ ''.'' @ z)"

definition answer_of :: "(string, string) fmap \<Rightarrow> string \<Rightarrow> string \<Rightarrow> nat \<Rightarrow> string" where
  "answer_of labels defaultTarget a i =
     first_said ([said labels (''proxy.'' @ a @ ''.host'')] @
       (if i = 0 then [] else [said labels (''proxy.#'' @ itoa i @ ''.host'')]) @
       [said labels ''proxy.*.host'', tidy defaultTarget])"

definition for_output :: "(string, string) fmap \<Rightarrow> string option" where
  "for_output labels =
     (case fmlookup labels ''proxy.dns'' of
        None \<Rightarrow> Some []
      | Some v \<Rightarrow> (let x = trim_space (to_lower v)
                   in if x = ''true'' then Some [] else if x = ''false'' then None else Some x))"

definition opted_out :: "(string, string) fmap \<Rightarrow> bool" where
  "opted_out labels \<longleftrightarrow> (\<exists>v. fmlookup labels ''proxy.exclude'' = Some v \<and> trim_space (to_lower v) = ''true'')"

definition record_for ::
  "provider_ref \<Rightarrow> string \<Rightarrow> string \<Rightarrow> container_summary \<Rightarrow> string \<Rightarrow> string \<Rightarrow> nat \<Rightarrow> desired_record option" where
  "record_for provider defaultTarget baseDomain c out a i =
     (let h = full_name baseDomain a; x = answer_of (ct_labels c) defaultTarget a i
      in if h = [] \<or> x = [] then None
         else Some \<lparr>d_hostname = h, d_answer = tidy x,
                d_source = \<lparr>so_provider = provider, so_id = trim_space (ct_id c), so_display_name = shown_name c\<rparr>,
                d_output = out\<rparr>)"

definition wanted_records ::
  "provider_ref \<Rightarrow> string \<Rightarrow> string \<Rightarrow> container_summary \<Rightarrow> desired_record multiset" where
  "wanted_records provider defaultTarget baseDomain c =
     (case (opted_out (ct_labels c), for_output (ct_labels c)) of
        (False, Some out) \<Rightarrow>
          image_mset the (filter_mset (\<lambda>x. x \<noteq> None)
            (image_mset (\<lambda>(a, i). record_for provider defaultTarget baseDomain c out a i) (mset_set {(a, i). wants c a i})))
      | _ \<Rightarrow> {#})"

definition publishes ::
  "provider_ref \<Rightarrow> string \<Rightarrow> string \<Rightarrow> container_summary \<Rightarrow> desired_record \<Rightarrow> bool" where
  "publishes provider defaultTarget baseDomain c d \<longleftrightarrow> d \<in># wanted_records provider defaultTarget baseDomain c"

section \<open>The aliases as the code reads them\<close>

definition listed_at :: "(string, string) fmap \<Rightarrow> string \<Rightarrow> nat \<Rightarrow> bool" where
  "listed_at labels a i \<longleftrightarrow>
     (\<exists>raw. (i, raw) \<in> set (enumerate 1 (split_on (CHR '','') (label labels ''proxy.aliases''))) \<and> a = normalize_name raw) \<and>
     a \<noteq> [] \<and> has_port_for_alias labels a i"

definition named_alias :: "(string, string) fmap \<Rightarrow> string \<Rightarrow> bool" where
  "named_alias labels a \<longleftrightarrow>
     (\<exists>key. key |\<in>| fmdom labels \<and> supported_named_port_alias key = Some a \<and> normalize_port_value (label labels key) \<noteq> [])"

definition has_fallback_port :: "(string, string) fmap \<Rightarrow> bool" where
  "has_fallback_port labels \<longleftrightarrow> (\<exists>key. key |\<in>| fmdom labels \<and> wildcard_or_indexed_key labels key)"

text \<open>
  The aliases with the position that decides which indexed label applies: the first position at
  which the alias is listed, or none.
\<close>

definition asks :: "container_summary \<Rightarrow> string \<Rightarrow> nat \<Rightarrow> bool" where
  "asks c a i \<longleftrightarrow>
     (let labels = ct_labels c
      in listed_at labels a i \<and> (\<forall>j. listed_at labels a j \<longrightarrow> i \<le> j) \<or>
         i = 0 \<and> named_alias labels a \<and> (\<forall>j. \<not> listed_at labels a j) \<or>
         i = 0 \<and> (\<forall>b. \<not> named_alias labels b \<and> (\<forall>j. \<not> listed_at labels b j)) \<and>
           has_fallback_port labels \<and> a = normalize_name (container_display_name c) \<and> a \<noteq> [])"

lemma tidy_name: "normalize_name s = tidy s" "normalize_answer_target s = tidy s"
  by (simp_all add: normalize_name_def normalize_answer_target_def tidy_def Let_def trim_suffix_dot has_suffix_dot_iff)

lemma tidy_Nil [simp]: "tidy [] = []"
  by (simp add: tidy_def to_lower_def trim_space_def trim_left_def)

lemma trim_space_blank: "trim_space s = [] \<longleftrightarrow> (\<forall>ch \<in> set s. is_space ch)"
proof -
  have left: "trim_left t = [] \<longleftrightarrow> (\<forall>ch \<in> set t. is_space ch)" for t by (simp add: trim_left_def)
  have "\<exists>ch \<in> set (trim_left s). \<not> is_space ch" if "trim_left s \<noteq> []"
    using trim_left_hd [OF that] hd_in_set [OF that] by blast
  then have "(\<forall>ch \<in> set (trim_left s). is_space ch) \<longleftrightarrow> trim_left s = []" by auto
  then show ?thesis by (simp add: trim_space_def left)
qed

lemma given_port: "normalize_port_value (label labels key) \<noteq> [] \<longleftrightarrow> given labels key"
  by (cases "fmlookup labels key") (simp_all add: normalize_port_value_def given_def label_def trim_space_blank)

lemma listed_alias_iff: "listed_at labels a i \<longleftrightarrow> listed_alias labels a i"
proof -
  define parts where "parts = split_on (CHR '','') (label labels ''proxy.aliases'')"
  have "(i, raw) \<in> set (enumerate 1 parts) \<longleftrightarrow> 1 \<le> i \<and> i \<le> length parts \<and> raw = parts ! (i - 1)" for raw
    by (auto simp: in_set_enumerate_eq)
  then have "(\<exists>raw. (i, raw) \<in> set (enumerate 1 parts) \<and> a = tidy raw) \<longleftrightarrow>
      1 \<le> i \<and> i \<le> length parts \<and> a = tidy (parts ! (i - 1))" by auto
  moreover have "has_port_for_alias labels a i \<longleftrightarrow> given labels (''proxy.'' @ a @ ''.port'') \<or>
      (0 < i \<and> given labels (''proxy.#'' @ itoa i @ ''.port'')) \<or> given labels ''proxy.*.port''"
    unfolding has_port_for_alias_def given_port by auto
  ultimately show ?thesis
    unfolding listed_at_def listed_alias_def parts_def tidy_name label_def Let_def by auto
qed

lemma split_on_Cons:
  "split_on c s = w # v # vs \<Longrightarrow> \<exists>t. s = w @ c # t \<and> split_on c t = v # vs"
proof (induction s arbitrary: w)
  case (Cons x xs)
  show ?case
  proof (cases "x = c")
    case True
    then show ?thesis using Cons.prems by auto
  next
    case False
    then obtain u where "split_on c xs = u # v # vs" "w = x # u"
      using Cons.prems by (auto split: list.splits)
    from Cons.IH [OF this(1)] this(2) show ?thesis by auto
  qed
qed simp

lemma split_on_one: "split_on c s = [w] \<Longrightarrow> s = w"
  by (induction s arbitrary: w) (auto split: list.splits if_splits)

lemma three_parts:
  "split_on (CHR ''.'') key = [u, x, v] \<longleftrightarrow>
     key = u @ ''.'' @ x @ ''.'' @ v \<and> CHR ''.'' \<notin> set u \<and> CHR ''.'' \<notin> set x \<and> CHR ''.'' \<notin> set v"
proof
  assume parts: "split_on (CHR ''.'') key = [u, x, v]"
  obtain t where t: "key = u @ CHR ''.'' # t" "split_on (CHR ''.'') t = [x, v]"
    using split_on_Cons [OF parts] by blast
  obtain t' where "t = x @ CHR ''.'' # t'" "split_on (CHR ''.'') t' = [v]"
    using split_on_Cons [OF t(2)] by blast
  moreover from this(2) have "t' = v" by (rule split_on_one)
  moreover have "CHR ''.'' \<notin> set w" if "w \<in> {u, x, v}" for w
    using split_on_parts [of w "CHR ''.''" key] that unfolding parts by auto
  ultimately show "key = u @ ''.'' @ x @ ''.'' @ v \<and> CHR ''.'' \<notin> set u \<and> CHR ''.'' \<notin> set x \<and> CHR ''.'' \<notin> set v"
    using t by simp
qed (simp add: split_on_append split_on_no_sep)

lemma length_three: "length xs = 3 \<longleftrightarrow> (\<exists>u x v. xs = [u, x, v])"
  by (auto simp: numeral_3_eq_3 length_Suc_conv)

lemma port_alias_key:
  "supported_named_port_alias key = Some a \<longleftrightarrow>
     (\<exists>x. key = ''proxy.'' @ x @ ''.port'' \<and> x \<noteq> [] \<and> x \<noteq> ''*'' \<and> hd x \<noteq> CHR ''#'' \<and> CHR ''.'' \<notin> set x \<and> a = tidy x)"
  (is "_ \<longleftrightarrow> ?R")
proof
  assume some: "supported_named_port_alias key = Some a"
  then obtain u x v where parts: "split_on (CHR ''.'') key = [u, x, v]"
    unfolding supported_named_port_alias_def Let_def using length_three by (metis option.distinct(1))
  with some have "u = ''proxy''" "v = ''port''" "x \<noteq> []" "x \<noteq> ''*''" "\<not> has_prefix x ''#''" "a = tidy x"
    by (auto simp: supported_named_port_alias_def tidy_name Let_def split: if_splits)
  moreover from this have "hd x \<noteq> CHR ''#''" by (cases x) (auto simp: has_prefix_def)
  ultimately show ?R using parts unfolding three_parts by auto
next
  assume ?R
  then obtain x where x: "key = ''proxy'' @ ''.'' @ x @ ''.'' @ ''port''" "x \<noteq> []" "x \<noteq> ''*''" "hd x \<noteq> CHR ''#''"
    "CHR ''.'' \<notin> set x" "a = tidy x" by auto
  have parts: "split_on (CHR ''.'') key = [''proxy'', x, ''port'']"
    unfolding three_parts using x(1,5) by simp
  have "has_prefix key ''proxy.''" using x(1) by (simp add: has_prefix_def)
  moreover have "\<not> has_prefix x ''#''" using x(2,4) by (cases x) (auto simp: has_prefix_def)
  ultimately show "supported_named_port_alias key = Some a"
    using x(2,3,6) by (simp add: supported_named_port_alias_def parts tidy_name)
qed

lemma given_dom: "given labels key \<Longrightarrow> key |\<in>| fmdom labels"
  by (auto simp: given_def fmlookup_dom_iff)

lemma port_alias_iff: "named_alias labels a \<longleftrightarrow> port_alias labels a"
  unfolding named_alias_def port_alias_def given_port port_alias_key using given_dom by blast

lemma general_port_iff: "has_fallback_port labels \<longleftrightarrow> general_port labels"
  unfolding has_fallback_port_def general_port_def wildcard_or_indexed_key_def given_port has_prefix_def has_suffix_def
  using given_dom by blast


lemma first_said_find: "first_said (xs @ [d]) = (case find (\<lambda>x. x \<noteq> []) xs of Some x \<Rightarrow> x | None \<Rightarrow> d)"
  by (induction xs) (auto simp: first_said_def)

lemma shown_name: "container_display_name c = shown_name c"
proof -
  have "trim_prefix nm ''/'' = (if nm \<noteq> [] \<and> hd nm = CHR ''/'' then tl nm else nm)" for nm
    by (cases nm) (auto simp: trim_prefix_def has_prefix_def)
  then show ?thesis
    unfolding container_display_name_def shown_name_def first_said_find by simp
qed

lemma wants_iff: "asks c a i \<longleftrightarrow> wants c a i"
  unfolding asks_def wants_def listed_alias_iff port_alias_iff general_port_iff tidy_name shown_name Let_def
  by (meson not_le)

section \<open>The loop over the listed aliases\<close>

definition listing :: "(string, string) fmap \<Rightarrow> (nat \<times> string) list \<Rightarrow> string \<Rightarrow> nat \<Rightarrow> bool" where
  "listing labels xs a i \<longleftrightarrow> (\<exists>raw. (i, raw) \<in> set xs \<and> a = normalize_name raw) \<and> a \<noteq> [] \<and> has_port_for_alias labels a i"

definition first_listing :: "(string, string) fmap \<Rightarrow> (nat \<times> string) list \<Rightarrow> alias_ref \<Rightarrow> bool" where
  "first_listing labels xs r \<longleftrightarrow> listing labels xs (al_name r) (al_position r) \<and>
     (\<forall>j. listing labels xs (al_name r) j \<longrightarrow> al_position r \<le> j)"

lemma listing_snoc:
  "listing labels (xs @ [(p, raw)]) a i \<longleftrightarrow>
     listing labels xs a i \<or> i = p \<and> a = normalize_name raw \<and> a \<noteq> [] \<and> has_port_for_alias labels a i"
  by (auto simp: listing_def)

lemma add_listed_fold:
  assumes "fold (add_listed labels) xs ({||}, []) = (seen, ordered)" "sorted_wrt (\<lambda>x y. fst x < fst y) xs"
  shows "fset seen = al_name ` set ordered \<and> distinct (map al_name ordered) \<and>
    set ordered = {r. first_listing labels xs r} \<and> (\<forall>a. a \<in> fset seen \<longleftrightarrow> (\<exists>i. listing labels xs a i))"
  using assms
proof (induction xs arbitrary: seen ordered rule: rev_induct)
  case Nil
  then show ?case by (auto simp: first_listing_def listing_def)
next
  case (snoc x xs)
  obtain p raw where x: "x = (p, raw)" by (cases x)
  obtain seen0 ordered0 where f: "fold (add_listed labels) xs ({||}, []) = (seen0, ordered0)" by fastforce
  have step: "add_listed labels (p, raw) (seen0, ordered0) = (seen, ordered)" using snoc.prems(1) f by (simp add: x)
  have sorted: "sorted_wrt (\<lambda>x y. fst x < fst y) xs" and later: "\<forall>y \<in> set xs. fst y < p"
    using snoc.prems(2) by (auto simp: sorted_wrt_append x)
  note IH = snoc.IH [OF f sorted]
  have before: "listing labels xs a i \<Longrightarrow> i < p" for a i using later by (auto simp: listing_def)
  let ?a = "normalize_name raw"
  show ?case
  proof (cases "?a \<noteq> [] \<and> has_port_for_alias labels ?a p \<and> ?a |\<notin>| seen0")
    case False
    then have same: "seen = seen0" "ordered = ordered0"
      using step by (auto simp: add_listed_def Let_def split: if_splits)
    have "listing labels (xs @ [x]) a i \<longleftrightarrow> listing labels xs a i \<or> i = p \<and> a = ?a \<and> a |\<in>| seen0 \<and> a \<noteq> [] \<and> has_port_for_alias labels a i"
      for a i using False by (auto simp: x listing_snoc)
    moreover have "a |\<in>| seen0 \<longleftrightarrow> (\<exists>i. listing labels xs a i)" for a using IH by blast
    ultimately have "first_listing labels (xs @ [x]) r \<longleftrightarrow> first_listing labels xs r"
      and "(\<exists>i. listing labels (xs @ [x]) a i) \<longleftrightarrow> (\<exists>i. listing labels xs a i)" for r a
      unfolding first_listing_def using before by (metis less_le_not_le nat_le_linear order.strict_implies_order)+
    then show ?thesis using IH unfolding same by blast
  next
    case True
    then have new: "seen = finsert ?a seen0" "ordered = ordered0 @ [\<lparr>al_name = ?a, al_position = p\<rparr>]"
      using step by (auto simp: add_listed_def Let_def)
    have fresh: "\<not> listing labels xs ?a i" for i using True IH by blast
    have "first_listing labels (xs @ [x]) r \<longleftrightarrow> first_listing labels xs r \<or> r = \<lparr>al_name = ?a, al_position = p\<rparr>" for r
      using True fresh before by (cases r) (fastforce simp: first_listing_def x listing_snoc)
    moreover have "(\<exists>i. listing labels (xs @ [x]) a i) \<longleftrightarrow> (\<exists>i. listing labels xs a i) \<or> a = ?a" for a
      using True by (auto simp: x listing_snoc)
    ultimately show ?thesis using IH True unfolding new by auto
  qed
qed

lemma sorted_enumerate: "sorted_wrt (\<lambda>x y. fst x < fst y) (enumerate n xs)"
  by (simp add: sorted_wrt_iff_nth_less nth_enumerate_eq)

section \<open>The loop over the labels\<close>

lemma add_discovered_fold:
  assumes "fold (add_discovered labels) keys (seen0, []) = (seen, discovered)"
  shows "fset seen = fset seen0 \<union> set discovered \<and> distinct discovered \<and>
    set discovered = {a. a \<notin> fset seen0 \<and> (\<exists>key \<in> set keys. supported_named_port_alias key = Some a \<and>
      normalize_port_value (label labels key) \<noteq> [])}"
  using assms
proof (induction keys arbitrary: seen discovered rule: rev_induct)
  case Nil
  then show ?case by simp
next
  case (snoc key keys)
  obtain s d where f: "fold (add_discovered labels) keys (seen0, []) = (s, d)" by fastforce
  note IH = snoc.IH [OF f]
  have "add_discovered labels key (s, d) = (seen, discovered)" using snoc.prems f by simp
  then consider "seen = s" "discovered = d" "\<And>a. supported_named_port_alias key = Some a \<Longrightarrow>
        normalize_port_value (label labels key) = [] \<or> a |\<in>| s"
    | a where "supported_named_port_alias key = Some a" "normalize_port_value (label labels key) \<noteq> []" "a |\<notin>| s"
        "seen = finsert a s" "discovered = d @ [a]"
    by (auto simp: add_discovered_def split: option.splits if_splits)
  then show ?case
  proof cases
    case 1
    then show ?thesis using IH by auto
  next
    case 2
    then show ?thesis using IH by auto
  qed
qed

lemma sort_same_set:
  fixes xs :: "'a :: linorder list"
  assumes "distinct xs" "distinct ys" "set xs = set ys"
  shows "sort xs = sort ys"
  using assms by (intro properties_for_sort) (auto simp: set_eq_iff_mset_eq_distinct)

lemma sort_Nil_iff [simp]: "sort xs = [] \<longleftrightarrow> xs = []"
  by (metis length_0_conv length_sort)

section \<open>The aliases\<close>

lemma collect_aliases_parts:
  obtains ordered discovered where
    "collect_aliases ord c =
       (let ordered' = ordered @ map (\<lambda>alias. \<lparr>al_name = alias, al_position = 0\<rparr>) (sort discovered)
        in if ordered' = [] \<and> has_fallback_port (ct_labels c)
           then let fallback = normalize_name (container_display_name c)
                in if fallback \<noteq> [] then [\<lparr>al_name = fallback, al_position = 0\<rparr>] else []
           else ordered')"
    and "distinct (map al_name ordered)" "set ordered = {r. listed_at (ct_labels c) (al_name r) (al_position r) \<and>
      (\<forall>j. listed_at (ct_labels c) (al_name r) j \<longrightarrow> al_position r \<le> j)}"
    and "al_name ` set ordered = {a. \<exists>i. listed_at (ct_labels c) a i}"
    and "distinct discovered" "set discovered = {a. (\<forall>i. \<not> listed_at (ct_labels c) a i) \<and> named_alias (ct_labels c) a}"
    and "ordered = snd (fold (add_listed (ct_labels c))
      (enumerate 1 (split_on (CHR '','') (label (ct_labels c) ''proxy.aliases''))) ({||}, []))"
proof -
  let ?labels = "ct_labels c"
  let ?xs = "enumerate 1 (split_on (CHR '','') (label ?labels ''proxy.aliases''))"
  obtain seen ordered where f: "fold (add_listed ?labels) ?xs ({||}, []) = (seen, ordered)" by fastforce
  obtain seen' discovered where g: "fold (add_discovered ?labels) (range_keys ord (fmdom ?labels)) (seen, []) = (seen', discovered)"
    by fastforce
  have listing: "listing ?labels ?xs a i \<longleftrightarrow> listed_at ?labels a i" for a i
    by (simp add: listing_def listed_at_def)
  note L = add_listed_fold [OF f sorted_enumerate, unfolded first_listing_def listing]
  note D = add_discovered_fold [OF g]
  have wild: "has_wildcard_or_indexed_port ord ?labels \<longleftrightarrow> has_fallback_port ?labels"
    by (auto simp: has_wildcard_or_indexed_port_def has_fallback_port_def list_ex_iff)
  show thesis
  proof (rule that)
    show "collect_aliases ord c =
       (let ordered' = ordered @ map (\<lambda>alias. \<lparr>al_name = alias, al_position = 0\<rparr>) (sort discovered)
        in if ordered' = [] \<and> has_fallback_port ?labels
           then let fallback = normalize_name (container_display_name c)
                in if fallback \<noteq> [] then [\<lparr>al_name = fallback, al_position = 0\<rparr>] else []
           else ordered')"
      by (simp add: collect_aliases_def Let_def f [simplified] g wild)
    show "set discovered = {a. (\<forall>i. \<not> listed_at ?labels a i) \<and> named_alias ?labels a}"
      using L D by (auto simp: named_alias_def)
  qed (use L D f in auto)
qed

lemma pair_image:
  "(\<lambda>r. (al_name r, al_position r)) ` {r :: alias_ref. P (al_name r) (al_position r)} = {(a, i). P a i}"
proof (intro set_eqI iffI)
  fix x
  assume "x \<in> {(a, i). P a i}"
  then have "P (fst x) (snd x)" by (simp add: case_prod_beta)
  then show "x \<in> (\<lambda>r. (al_name r, al_position r)) ` {r :: alias_ref. P (al_name r) (al_position r)}"
    by (intro rev_image_eqI [of "\<lparr>al_name = fst x, al_position = snd x\<rparr>"]) simp_all
qed auto

lemma aliases_exact:
  "(\<lambda>r. (al_name r, al_position r)) ` set (collect_aliases ord c) = {(a, i). asks c a i} \<and>
   distinct (map al_name (collect_aliases ord c))"
proof -
  obtain ordered discovered where eq: "collect_aliases ord c =
       (let ordered' = ordered @ map (\<lambda>alias. \<lparr>al_name = alias, al_position = 0\<rparr>) (sort discovered)
        in if ordered' = [] \<and> has_fallback_port (ct_labels c)
           then let fallback = normalize_name (container_display_name c)
                in if fallback \<noteq> [] then [\<lparr>al_name = fallback, al_position = 0\<rparr>] else []
           else ordered')"
    and o: "distinct (map al_name ordered)" "set ordered = {r. listed_at (ct_labels c) (al_name r) (al_position r) \<and>
      (\<forall>j. listed_at (ct_labels c) (al_name r) j \<longrightarrow> al_position r \<le> j)}"
      "al_name ` set ordered = {a. \<exists>i. listed_at (ct_labels c) a i}"
    and d: "distinct discovered" "set discovered = {a. (\<forall>i. \<not> listed_at (ct_labels c) a i) \<and> named_alias (ct_labels c) a}"
    by (rule collect_aliases_parts [of ord c])
  let ?all = "ordered @ map (\<lambda>alias. \<lparr>al_name = alias, al_position = 0\<rparr>) (sort discovered)"
  let ?pair = "\<lambda>r. (al_name r, al_position r)"
  have names: "distinct (map al_name ?all)" using o(1,3) d by (auto simp: comp_def)
  have pairs: "?pair ` set ?all = {(a, i). listed_at (ct_labels c) a i \<and> (\<forall>j. listed_at (ct_labels c) a j \<longrightarrow> i \<le> j) \<or>
      i = 0 \<and> named_alias (ct_labels c) a \<and> (\<forall>j. \<not> listed_at (ct_labels c) a j)}" (is "_ = ?P")
  proof -
    have "?pair ` set ordered = {(a, i). listed_at (ct_labels c) a i \<and> (\<forall>j. listed_at (ct_labels c) a j \<longrightarrow> i \<le> j)}"
      unfolding o(2) by (rule pair_image)
    then show ?thesis using d(2) by (auto simp: image_Un image_image)
  qed
  have none: "?all = [] \<longleftrightarrow> (\<forall>b. \<not> named_alias (ct_labels c) b \<and> (\<forall>j. \<not> listed_at (ct_labels c) b j))"
  proof -
    have "?all = [] \<longleftrightarrow> al_name ` set ordered = {} \<and> set discovered = {}" by simp
    then show ?thesis unfolding o(3) d(2) by blast
  qed
  show ?thesis
  proof (cases "?all = [] \<and> has_fallback_port (ct_labels c)")
    case True
    then have "asks c a i \<longleftrightarrow> i = 0 \<and> a = normalize_name (container_display_name c) \<and> a \<noteq> []" for a i
      using none by (auto simp: asks_def Let_def)
    then have "{(a, i). asks c a i} =
        (if normalize_name (container_display_name c) = [] then {} else {(normalize_name (container_display_name c), 0)})"
      by auto
    with True show ?thesis by (simp add: eq Let_def)
  next
    case False
    have "asks c a i \<longleftrightarrow> (a, i) \<in> ?P" for a i
      using False unfolding none asks_def Let_def by blast
    then have "{(a, i). asks c a i} = ?P" by auto
    with False show ?thesis using names pairs unfolding eq Let_def if_not_P [OF False] by blast
  qed
qed

definition with_fallback :: "container_summary \<Rightarrow> alias_ref list \<Rightarrow> string list \<Rightarrow> alias_ref list" where
  "with_fallback c ordered discovered =
     (let ordered' = ordered @ map (\<lambda>alias. \<lparr>al_name = alias, al_position = 0\<rparr>) discovered
        in if ordered' = [] \<and> has_fallback_port (ct_labels c)
           then let fallback = normalize_name (container_display_name c)
                in if fallback \<noteq> [] then [\<lparr>al_name = fallback, al_position = 0\<rparr>] else []
           else ordered')"

lemma collect_aliases_order: "collect_aliases ord c = collect_aliases ord' c"
proof -
  obtain o1 d1 where 1: "collect_aliases ord c = with_fallback c o1 (sort d1)" "distinct d1"
    "set d1 = {a. (\<forall>i. \<not> listed_at (ct_labels c) a i) \<and> named_alias (ct_labels c) a}"
    "o1 = snd (fold (add_listed (ct_labels c))
      (enumerate 1 (split_on (CHR '','') (label (ct_labels c) ''proxy.aliases''))) ({||}, []))"
    unfolding with_fallback_def by (rule collect_aliases_parts [of ord c])
  obtain o2 d2 where 2: "collect_aliases ord' c = with_fallback c o2 (sort d2)" "distinct d2"
    "set d2 = {a. (\<forall>i. \<not> listed_at (ct_labels c) a i) \<and> named_alias (ct_labels c) a}"
    "o2 = snd (fold (add_listed (ct_labels c))
      (enumerate 1 (split_on (CHR '','') (label (ct_labels c) ''proxy.aliases''))) ({||}, []))"
    unfolding with_fallback_def by (rule collect_aliases_parts [of ord' c])
  have "sort d1 = sort d2" using 1(2,3) 2(2,3) by (intro sort_same_set) simp_all
  then show ?thesis unfolding 1(1) 2(1) 1(4) 2(4) by (rule arg_cong)
qed

section \<open>The records\<close>

text \<open>The record that an alias at a position stands for, if it has a hostname and a target.\<close>

definition alias_target :: "container_summary \<Rightarrow> string \<Rightarrow> string \<Rightarrow> nat \<Rightarrow> string" where
  "alias_target c defaultTarget a i =
     (if explicit_host_override (ct_labels c) a i = [] then normalize_answer_target defaultTarget
      else explicit_host_override (ct_labels c) a i)"

lemma derive_none:
  assumes "is_excluded (ct_labels c) \<or> \<not> snd (dns_output_type (ct_labels c))"
  shows "derive_desired_records ord p t b c = []"
  using assms
  by (auto simp: derive_desired_records_def derive_desired_records_detailed_def skip_all_def Let_def split: prod.split)

lemma full_name_iff: "qualify_hostname a b = full_name b a"
proof -
  have dot: "contains h ''.'' \<longleftrightarrow> CHR ''.'' \<in> set h" for h
    by (auto simp: contains_def sublist_def in_set_conv_decomp)
  have "has_suffix h (''.'' @ z) \<Longrightarrow> CHR ''.'' \<in> set h" for h z
    by (auto simp: has_suffix_def suffix_def)
  then show ?thesis unfolding qualify_hostname_def full_name_def tidy_name dot Let_def by auto
qed

lemma answer_of_iff: "alias_target c t a i = answer_of (ct_labels c) t a i"
proof -
  have "normalize_answer_target (label labels key) = said labels key" for labels key
    by (simp add: tidy_name said_def label_def split: option.split)
  then show ?thesis
    unfolding alias_target_def explicit_host_override_def answer_of_def first_said_def
    by (simp add: tidy_name Let_def)
qed

lemma dns_iff: "dns_output_type labels =
  (case for_output labels of None \<Rightarrow> ([], False) | Some out \<Rightarrow> (out, True))"
  by (auto simp: dns_output_type_def for_output_def label_def Let_def split: option.split)

lemma opted_iff: "is_excluded labels \<longleftrightarrow> opted_out labels"
  by (simp add: is_excluded_def opted_out_def label_def split: option.split)

lemma mset_oks:
  assumes "\<And>r. r \<in> set xs \<Longrightarrow> (case f r of Inl e \<Rightarrow> None | Inr d \<Rightarrow> Some d) = g (h r)"
  shows "mset (oks (map f xs)) = image_mset the (filter_mset (\<lambda>x. x \<noteq> None) (image_mset g (mset (map h xs))))"
  using assms
proof (induction xs)
  case (Cons r xs)
  have "g (h r) = (case f r of Inl e \<Rightarrow> None | Inr d \<Rightarrow> Some d)" using Cons.prems by simp
  then show ?case using Cons by (cases "f r") (simp_all add: oks_def)
qed (simp add: oks_def)

lemma derive_alias_record:
  "(case derive_alias c (source_of_container p c) out (normalize_answer_target t) b r of Inl e \<Rightarrow> None | Inr d \<Rightarrow> Some d) =
     record_for p t b c out (al_name r) (al_position r)"
  unfolding record_for_def answer_of_iff [symmetric] full_name_iff [symmetric] shown_name [symmetric] tidy_name(2) [symmetric]
  by (simp add: derive_alias_def alias_target_def source_of_container_def Let_def)

lemma derive_wanted: "mset (derive_desired_records ord p t b c) = wanted_records p t b c"
proof (cases "opted_out (ct_labels c) \<or> for_output (ct_labels c) = None")
  case True
  then have "is_excluded (ct_labels c) \<or> \<not> snd (dns_output_type (ct_labels c))"
    by (auto simp: opted_iff dns_iff)
  then have "derive_desired_records ord p t b c = []" by (rule derive_none)
  with True show ?thesis by (auto simp: wanted_records_def split: option.split bool.split)
next
  case False
  then obtain out where out: "for_output (ct_labels c) = Some out" "\<not> opted_out (ct_labels c)" by auto
  let ?pair = "\<lambda>r. (al_name r, al_position r)" and ?aliases = "collect_aliases ord c"
  have distinct: "distinct (map ?pair ?aliases)"
    using aliases_exact [of ord c] by (metis (mono_tags, lifting) distinct_map inj_onI inj_onD prod.inject)
  have "{(a, i). wants c a i} = set (map ?pair ?aliases)"
    using aliases_exact [of ord c] by (simp add: wants_iff)
  then have pairs: "mset_set {(a, i). wants c a i} = mset (map ?pair ?aliases)"
    using mset_set_set [OF distinct] by simp
  have "mset (derive_desired_records ord p t b c) =
      mset (oks (map (derive_alias c (source_of_container p c) out (normalize_answer_target t) b) ?aliases))"
    using out by (simp add: derive_desired_records_def derive_desired_records_detailed_def opted_iff dns_iff skip_all_def
        Let_def oks_def)
  also have "\<dots> = image_mset the (filter_mset (\<lambda>x. x \<noteq> None)
      (image_mset (\<lambda>(a, i). record_for p t b c out a i) (mset (map ?pair ?aliases))))"
    by (rule mset_oks) (simp add: derive_alias_record)
  finally show ?thesis using out by (simp add: wanted_records_def pairs)
qed

lemma derive_publishes: "set (derive_desired_records ord p t b c) = {d. publishes p t b c d}"
  using arg_cong [OF derive_wanted [of ord p t b c], of set_mset] by (simp add: publishes_def)

lemma publishes_wants:
  "publishes p t b c d \<Longrightarrow> \<not> opted_out (ct_labels c) \<and> (\<exists>a i. wants c a i)"
  by (auto simp: publishes_def wanted_records_def split: bool.splits option.splits)
    (metis (mono_tags, lifting) case_prodD finite_set_mset_mset_set mem_Collect_eq mset_set.infinite set_mset_empty empty_iff surj_pair)+

lemma derive_sorted: "sorted (map desired_record_sort_key (derive_desired_records ord p t b c))"
  by (simp add: derive_desired_records_def derive_desired_records_detailed_def skip_all_def Let_def split: prod.split)

lemma derive_order: "derive_desired_records_detailed ord p t b c = derive_desired_records_detailed ord' p t b c"
  unfolding derive_desired_records_detailed_def collect_aliases_order [of ord c ord'] ..


end
