(* ===== verification/Docker_Source.thy ===== *)
theory Docker_Source
  imports Docker_Derive Runtime_Env Config_Check
begin

text \<open>
  \<^verbatim>\<open>internal/providers/docker/source.go\<close>: listing the records of the running containers and
  turning the events of the Docker daemon into hints. The Docker client is an argument: it
  lists containers or fails, and feeds two channels with events and errors.
\<close>

section \<open>Listing\<close>

record 'w docker_provider =
  dk_ref :: provider_ref
  dk_endpoint :: string
  dk_default_host :: string
  dk_base_domain :: string
  dk_container_list :: "('w, container_summary list) io"

definition default_answer_target :: "(string \<Rightarrow> string option) \<Rightarrow> source_config \<Rightarrow> string" where
  "default_answer_target url_hostname cfg =
     (if normalize_answer_target (sc_host_ip cfg) \<noteq> [] then normalize_answer_target (sc_host_ip cfg)
      else if is_local_endpoint (sc_endpoint cfg) then []
      else endpoint_host url_hostname (sc_endpoint cfg))"

text \<open>\<^verbatim>\<open>New\<close>; creating the client, from the endpoint, is part of the client library.\<close>

definition docker_new ::
  "(string \<Rightarrow> string option) \<Rightarrow> (string \<Rightarrow> go_error + ('w, container_summary list) io) \<Rightarrow> source_config \<Rightarrow>
     go_error + 'w docker_provider" where
  "docker_new url_hostname new_client cfg =
     (case new_client (sc_endpoint cfg) of
        Inl err \<Rightarrow> Inl (ErrWrap ''create docker client: '' err)
      | Inr cli \<Rightarrow> Inr
          \<lparr>dk_ref = \<lparr>pr_type = sc_type cfg, pr_name = sc_name cfg\<rparr>, dk_endpoint = sc_endpoint cfg,
           dk_default_host = default_answer_target url_hostname cfg,
           dk_base_domain = normalize_name (sc_base_domain cfg), dk_container_list = cli\<rparr>)"

definition list_container ::
  "range_order \<Rightarrow> 'w docker_provider \<Rightarrow> container_summary \<Rightarrow> desired_record list" where
  "list_container ord p container =
     (if ct_state container \<noteq> ''running'' then []
      else derive_desired_records ord (dk_ref p) (dk_default_host p) (dk_base_domain p) container)"

definition docker_list_desired ::
  "range_order \<Rightarrow> 'w docker_provider \<Rightarrow> ('w, desired_record list) io" where
  "docker_list_desired ord p w =
     (case dk_container_list p w of
        (Inl err, w') \<Rightarrow>
          (let requestErr = ErrWrap ''list containers: '' err
           in (Inl (if err_is err ErrCanceled \<or> err_is err ErrDeadlineExceeded then requestErr
                    else ErrTemporary requestErr), w'))
      | (Inr items, w') \<Rightarrow>
          (Inr (sort_key desired_record_sort_key (concat (map (list_container ord p) items))), w'))"

definition docker_source :: "range_order \<Rightarrow> 'w docker_provider \<Rightarrow> 'w source_port" where
  "docker_source ord p =
     \<lparr>src_provider = dk_ref p, src_list_desired = docker_list_desired ord p, src_watchable = True\<rparr>"

text \<open>
  \<^verbatim>\<open>sort.Slice\<close> may leave records of equal keys in another order; they differ at most in the
  output they are meant for and in the display name.
\<close>

text \<open>
  C21: Listing a Docker source gives, sorted, exactly the records that its running containers
  publish; when the daemon cannot be asked the error is temporary unless the context has
  ended, and keeps its cause.
\<close>

theorem docker_listing_exact:
  assumes "docker_list_desired ord p w = (r, w')"
  shows "w' = snd (dk_container_list p w) \<and>
    (case fst (dk_container_list p w) of
       Inr items \<Rightarrow> \<exists>ds. r = Inr ds \<and> sorted (map desired_record_sort_key ds) \<and>
         set ds = {d. \<exists>c \<in> set items. ct_state c = ''running'' \<and>
           publishes (dk_ref p) (dk_default_host p) (dk_base_domain p) c d}
     | Inl err \<Rightarrow> \<exists>e. r = Inl e \<and> err \<in> set (err_chain e) \<and>
         (is_temporary_error e \<longleftrightarrow> \<not> is_context_cancellation_error err))"
proof -
  obtain q w1 where list: "dk_container_list p w = (q, w1)" by fastforce
  show ?thesis
  proof (cases q)
    case (Inl err)
    have "err \<in> set (err_chain err)" by (cases err) simp_all
    then show ?thesis
      using assms list Inl is_temporary_ErrTemporary [of "ErrWrap ''list containers: '' err"]
      by (auto simp: docker_list_desired_def Let_def is_context_cancellation_error_def err_is_def
          is_temporary_error_def)
  next
    case (Inr items)
    have "set (concat (map (list_container ord p) items)) = {d. \<exists>c \<in> set items. ct_state c = ''running'' \<and>
           publishes (dk_ref p) (dk_default_host p) (dk_base_domain p) c d}"
      by (auto simp: list_container_def derive_publishes split: if_splits)
    then show ?thesis using assms list Inr by (auto simp: docker_list_desired_def)
  qed
qed

section \<open>Hints\<close>

definition has_relevant_watch_labels :: "range_order \<Rightarrow> (string, string) fmap \<Rightarrow> bool" where
  "has_relevant_watch_labels ord labels \<longleftrightarrow>
     (if fmdom labels = {||} \<or> is_excluded labels then False
      else if list_ex (\<lambda>(i, raw). normalize_name raw \<noteq> [] \<and> has_port_for_alias labels (normalize_name raw) i)
                (enumerate 1 (split_on (CHR '','') (label labels ''proxy.aliases''))) then True
      else if list_ex (\<lambda>key. supported_named_port_alias key \<noteq> None \<and> normalize_port_value (label labels key) \<noteq> [])
                (range_keys ord (fmdom labels)) then True
      else has_wildcard_or_indexed_port ord labels)"

record docker_event =
  ev_type :: string
  ev_action :: string
  ev_attributes :: "(string, string) fmap"

definition should_trigger_container_watch_hint :: "range_order \<Rightarrow> string \<Rightarrow> (string, string) fmap \<Rightarrow> bool" where
  "should_trigger_container_watch_hint ord action labels \<longleftrightarrow>
     action \<in> {''create'', ''start'', ''stop'', ''die'', ''destroy'', ''rename'', ''update''} \<and>
     has_relevant_watch_labels ord labels"

definition should_trigger_network_watch_hint :: "string \<Rightarrow> (string, string) fmap \<Rightarrow> bool" where
  "should_trigger_network_watch_hint action attributes \<longleftrightarrow>
     action \<in> {''connect'', ''disconnect''} \<and>
     label attributes ''type'' = ''container'' \<and> label attributes ''container'' \<noteq> []"

definition should_trigger_watch_hint :: "range_order \<Rightarrow> docker_event \<Rightarrow> bool" where
  "should_trigger_watch_hint ord event \<longleftrightarrow>
     (if ev_type event = ''container'' then should_trigger_container_watch_hint ord (ev_action event) (ev_attributes event)
      else if ev_type event = ''network'' then should_trigger_network_watch_hint (ev_action event) (ev_attributes event)
      else False)"

lemma relevant_iff:
  "has_relevant_watch_labels ord labels \<longleftrightarrow> \<not> is_excluded labels \<and>
     ((\<exists>a i. listed_at labels a i) \<or> (\<exists>a. named_alias labels a) \<or> has_fallback_port labels)"
proof -
  have listed: "list_ex (\<lambda>(i, raw). normalize_name raw \<noteq> [] \<and> has_port_for_alias labels (normalize_name raw) i)
      (enumerate 1 (split_on (CHR '','') (label labels ''proxy.aliases''))) \<longleftrightarrow> (\<exists>a i. listed_at labels a i)"
    unfolding list_ex_iff listed_at_def by fastforce
  have named: "list_ex (\<lambda>key. supported_named_port_alias key \<noteq> None \<and> normalize_port_value (label labels key) \<noteq> [])
      (range_keys ord (fmdom labels)) \<longleftrightarrow> (\<exists>a. named_alias labels a)"
    by (auto simp: list_ex_iff named_alias_def)
  have wild: "has_wildcard_or_indexed_port ord labels \<longleftrightarrow> has_fallback_port labels"
    by (auto simp: has_wildcard_or_indexed_port_def has_fallback_port_def list_ex_iff)
  have "\<not> listed_at labels a i" "\<not> named_alias labels a" "\<not> has_fallback_port labels" if "fmdom labels = {||}" for a i
  proof -
    have "labels = fmempty" using that by (metis fmrestrict_fset_dom fmrestrict_fset_null)
    then have "label labels k = []" for k by (simp add: label_def)
    then show "\<not> listed_at labels a i" "\<not> named_alias labels a" "\<not> has_fallback_port labels"
      using that by (auto simp: listed_at_def normalize_name_def trim_suffix_def has_suffix_def named_alias_def has_fallback_port_def)
  qed
  then show ?thesis unfolding has_relevant_watch_labels_def listed named wild by auto
qed

text \<open>
  The attributes of an event about a container hold its labels, and beside them the name, the
  image and other facts; none of those is under \<^verbatim>\<open>proxy.\<close>
\<close>

definition carries_labels :: "(string, string) fmap \<Rightarrow> (string, string) fmap \<Rightarrow> bool" where
  "carries_labels attributes labels \<longleftrightarrow>
     (\<forall>key. prefix ''proxy.'' key \<longrightarrow> fmlookup attributes key = fmlookup labels key)"

lemma relevant_extended:
  assumes "carries_labels attributes labels" "has_relevant_watch_labels ord labels"
  shows "has_relevant_watch_labels ord attributes"
proof -
  have look: "fmlookup attributes (''proxy.'' @ x) = fmlookup labels (''proxy.'' @ x)" for x
    using assms(1) by (simp add: carries_labels_def)
  note fixed = look [of "''aliases''"] look [of "''exclude''"] look [of "''*.port''"]
  have given: "given attributes (''proxy.'' @ x) = given labels (''proxy.'' @ x)" for x
    by (simp only: given_def look)
  have "listed_alias attributes a i = listed_alias labels a i" for a i
    using given [of "a @ ''.port''"] given [of "''#'' @ itoa i @ ''.port''"] given [of "''*.port''"] fixed(1)
    by (simp add: listed_alias_def)
  moreover have "port_alias attributes a = port_alias labels a" for a
    using given by (simp add: port_alias_def)
  moreover have "general_port attributes \<longleftrightarrow> general_port labels"
  proof -
    have "given attributes key = given labels key" if "prefix ''proxy.*.'' key \<or> prefix ''proxy.#'' key" for key
    proof -
      have "\<exists>z. key = ''proxy.'' @ ''*.'' @ z \<or> key = ''proxy.'' @ ''#'' @ z"
        using that unfolding prefix_def by auto
      then obtain z where "key = ''proxy.'' @ ''*.'' @ z \<or> key = ''proxy.'' @ ''#'' @ z" by blast
      then show ?thesis using given [of "''*.'' @ z"] given [of "''#'' @ z"] by auto
    qed
    then show ?thesis unfolding general_port_def by blast
  qed
  moreover have "opted_out attributes = opted_out labels"
    using fixed(2) by (simp add: opted_out_def)
  ultimately show ?thesis
    using assms(2) unfolding relevant_iff opted_iff listed_alias_iff port_alias_iff general_port_iff by simp
qed


section \<open>The goroutine of Watch\<close>

text \<open>
  \<^verbatim>\<open>Watch\<close>: the two channels of the client that are not nil, the buffered hint and the buffered
  error (both channels have room for one value), and whether the goroutine has returned, which
  closes both channels. The error channel is written at most once, right before the return, so
  the write cannot block.
\<close>

record docker_watch =
  dw_messages :: bool
  dw_errors :: bool
  dw_hint :: bool
  dw_err :: "go_error option"
  dw_closed :: bool

datatype watch_input =
  GotMessage docker_event | MessagesClosed | GotError "go_error option" | ErrorsClosed | ContextDone

definition io_eof :: go_error where
  "io_eof = ErrForeign \<lparr>fe_message = ''EOF'', fe_temporary = None, fe_timeout = None, fe_status = None, fe_codes = []\<rparr>"

definition stream_ended :: go_error where
  "stream_ended = ErrText ''docker event stream ended''"

definition docker_watch_start :: docker_watch where
  "docker_watch_start = \<lparr>dw_messages = True, dw_errors = True, dw_hint = False, dw_err = None, dw_closed = False\<rparr>"

text \<open>A channel has been closed: the stream has ended when the other one is nil as well.\<close>

definition channel_gone :: "go_error option \<Rightarrow> bool \<Rightarrow> docker_watch \<Rightarrow> docker_watch" where
  "channel_gone ctx other_open dw =
     (if other_open then dw
      else if ctx = None then dw\<lparr>dw_err := Some stream_ended, dw_closed := True\<rparr>
      else dw\<lparr>dw_closed := True\<rparr>)"

fun docker_watch_step :: "range_order \<Rightarrow> go_error option \<Rightarrow> watch_input \<Rightarrow> docker_watch \<Rightarrow> docker_watch" where
  "docker_watch_step ord ctx (GotMessage event) dw =
     (if should_trigger_watch_hint ord event then dw\<lparr>dw_hint := True\<rparr> else dw)"
| "docker_watch_step ord ctx MessagesClosed dw = channel_gone ctx (dw_errors dw) (dw\<lparr>dw_messages := False\<rparr>)"
| "docker_watch_step ord ctx ErrorsClosed dw = channel_gone ctx (dw_messages dw) (dw\<lparr>dw_errors := False\<rparr>)"
| "docker_watch_step ord ctx (GotError None) dw = dw\<lparr>dw_closed := True\<rparr>"
| "docker_watch_step ord ctx (GotError (Some err)) dw =
     (if err = ErrCanceled then dw\<lparr>dw_closed := True\<rparr>
      else dw\<lparr>dw_err := Some (if err = io_eof then ErrWrap ''docker event stream ended: '' err else err), dw_closed := True\<rparr>)"
| "docker_watch_step ord ctx ContextDone dw = dw\<lparr>dw_closed := True\<rparr>"

text \<open>An input can be taken while the goroutine runs and the channel it comes from is not nil.\<close>

fun watch_enabled :: "watch_input \<Rightarrow> docker_watch \<Rightarrow> bool" where
  "watch_enabled (GotMessage event) dw \<longleftrightarrow> \<not> dw_closed dw \<and> dw_messages dw"
| "watch_enabled MessagesClosed dw \<longleftrightarrow> \<not> dw_closed dw \<and> dw_messages dw"
| "watch_enabled (GotError x) dw \<longleftrightarrow> \<not> dw_closed dw \<and> dw_errors dw"
| "watch_enabled ErrorsClosed dw \<longleftrightarrow> \<not> dw_closed dw \<and> dw_errors dw"
| "watch_enabled ContextDone dw \<longleftrightarrow> \<not> dw_closed dw"

inductive docker_watch_run :: "range_order \<Rightarrow> (watch_input \<times> go_error option) list \<Rightarrow> docker_watch \<Rightarrow> bool" for ord where
  docker_watch_starts: "docker_watch_run ord [] docker_watch_start"
| docker_watch_steps: "docker_watch_run ord ins dw \<Longrightarrow> watch_enabled i dw \<Longrightarrow>
    docker_watch_run ord (ins @ [(i, ctx)]) (docker_watch_step ord ctx i dw)"
| hint_taken: "docker_watch_run ord ins dw \<Longrightarrow> docker_watch_run ord ins (dw\<lparr>dw_hint := False\<rparr>)"

definition silent_end :: "watch_input \<times> go_error option \<Rightarrow> bool" where
  "silent_end x \<longleftrightarrow> fst x \<in> {ContextDone, GotError None, GotError (Some ErrCanceled)} \<or> snd x \<noteq> None"

text \<open>
  The goroutine reports why the stream ended, unless the context has ended or the client said
  nothing but that; while it runs it has reported nothing and still listens.
\<close>

lemma docker_watch_reports:
  "docker_watch_run ord ins dw \<Longrightarrow>
     (dw_closed dw \<longrightarrow> dw_err dw \<noteq> None \<or> (\<exists>x \<in> set ins. silent_end x)) \<and>
     (\<not> dw_closed dw \<longrightarrow> dw_err dw = None \<and> (dw_messages dw \<or> dw_errors dw))"
proof (induction rule: docker_watch_run.induct)
  case docker_watch_starts
  then show ?case by (simp add: docker_watch_start_def)
next
  case (docker_watch_steps ins dw i ctx)
  show ?case
  proof (cases i)
    case (GotError x)
    with docker_watch_steps show ?thesis by (cases x) (auto simp: silent_end_def)
  qed (use docker_watch_steps in \<open>auto simp: channel_gone_def silent_end_def\<close>)
next
  case (hint_taken ins dw)
  then show ?case by simp
qed

lemma relevant_event_hints:
  "should_trigger_watch_hint ord event \<Longrightarrow> dw_hint (docker_watch_step ord ctx (GotMessage event) dw)"
  by simp

end
