(* ===== verification/Adguard_Output.thy ===== *)
theory Adguard_Output
  imports Config_Check Snapshot_Codec Runtime_Env
begin

text \<open>
  \<^verbatim>\<open>internal/providers/adguard/output.go\<close>, and the inert output of
  \<^verbatim>\<open>internal/providers/adguardstub\<close>. The HTTP client is an argument: it takes a request and
  answers with a status and a body, or fails. A request body is kept as the JSON value that
  \<^verbatim>\<open>json.Marshal\<close> prints (printing these two structs cannot fail).
\<close>

section \<open>HTTP\<close>

record http_request =
  rq_method :: string
  rq_url :: string
  rq_username :: string
  rq_password :: string
  rq_body :: "json option"

record http_response =
  rs_status :: nat
  rs_body :: string

text \<open>\<open>hc_check\<close> is the error of \<^verbatim>\<open>http.NewRequestWithContext\<close> for a method and a URL, if any.\<close>

record 'w http_client =
  hc_check :: "string \<Rightarrow> string \<Rightarrow> go_error option"
  hc_do :: "http_request \<Rightarrow> ('w, http_response) io"

definition trim_right_slash :: "string \<Rightarrow> string" where
  "trim_right_slash s = rev (dropWhile (\<lambda>c. c = CHR ''/'') (rev s))"

definition is_temporary_status :: "nat \<Rightarrow> bool" where
  "is_temporary_status statusCode \<longleftrightarrow> statusCode = 408 \<or> statusCode = 429 \<or> 500 \<le> statusCode"

text \<open>\<^verbatim>\<open>json.NewDecoder(body).Decode\<close>: the first value; what follows it is not read.\<close>

definition json_decode :: "string \<Rightarrow> json option" where
  "json_decode s = map_option fst (json_value (2 * length s + 1) s)"

section \<open>The provider\<close>

record 'w adguard_provider =
  ag_ref :: provider_ref
  ag_base_url :: string
  ag_username :: string
  ag_password :: string
  ag_client :: "'w http_client"

definition adguard_new :: "'w http_client \<Rightarrow> output_config \<Rightarrow> 'w adguard_provider" where
  "adguard_new client cfg =
     \<lparr>ag_ref = \<lparr>pr_type = oc_type cfg, pr_name = oc_name cfg\<rparr>, ag_base_url = oc_url cfg,
      ag_username = oc_username cfg, ag_password = oc_password cfg, ag_client = client\<rparr>"

text \<open>The request; the text of a successful answer.\<close>

definition request_json ::
  "'w adguard_provider \<Rightarrow> string \<Rightarrow> string \<Rightarrow> json option \<Rightarrow> ('w, string) io" where
  "request_json p method path body w =
     (if trim_space (ag_base_url p) = [] then (Inl (ErrText ''adguard base URL is required''), w)
      else let url = trim_right_slash (ag_base_url p) @ path
      in case hc_check (ag_client p) method url of
           Some err \<Rightarrow> (Inl (ErrWrap ''build adguard request: '' err), w)
         | None \<Rightarrow>
             (case hc_do (ag_client p)
                 \<lparr>rq_method = method, rq_url = url, rq_username = ag_username p, rq_password = ag_password p, rq_body = body\<rparr> w of
                (Inl err, w') \<Rightarrow>
                  (let requestErr = ErrWrap (''adguard request '' @ method @ '' '' @ path @ '' failed: '') err
                   in (Inl (if err_is err ErrCanceled \<or> err_is err ErrDeadlineExceeded then requestErr
                            else ErrTemporary requestErr), w'))
              | (Inr resp, w') \<Rightarrow>
                  if rs_status resp < 200 \<or> 300 \<le> rs_status resp
                  then let requestErr = ErrText (''adguard request '' @ method @ '' '' @ path @ '' failed with status '' @
                           itoa (rs_status resp) @ '': '' @ trim_space (take 1024 (rs_body resp)))
                       in (Inl (if is_temporary_status (rs_status resp) then ErrTemporary requestErr else requestErr), w')
                  else (Inr (rs_body resp), w')))"

text \<open>A request whose answer is not read.\<close>

definition request_only ::
  "'w adguard_provider \<Rightarrow> string \<Rightarrow> string \<Rightarrow> json \<Rightarrow> ('w, unit) io" where
  "request_only p method path body w =
     (case request_json p method path (Some body) w of
        (Inl err, w') \<Rightarrow> (Inl err, w')
      | (Inr answer, w') \<Rightarrow> (Inr (), w'))"

record rewrite_item =
  rw_domain :: string
  rw_answer :: string

definition encode_rewrite :: "rewrite_item \<Rightarrow> json" where
  "encode_rewrite r = JObject [(''domain'', JString (rw_domain r)), (''answer'', JString (rw_answer r))]"

definition rewrite_member :: "string \<Rightarrow> json \<Rightarrow> rewrite_item \<Rightarrow> go_error + rewrite_item" where
  "rewrite_member k v r =
     (if is_field k ''domain'' then set_field (decode_string v (rw_domain r)) (\<lambda>x. r\<lparr>rw_domain := x\<rparr>)
      else if is_field k ''answer'' then set_field (decode_string v (rw_answer r)) (\<lambda>x. r\<lparr>rw_answer := x\<rparr>)
      else Inr r)"

definition decode_rewrites :: "json \<Rightarrow> go_error + rewrite_item list" where
  "decode_rewrites j =
     (case j of
        JNull \<Rightarrow> Inr []
      | JArray vs \<Rightarrow> decode_list (decode_struct rewrite_member) \<lparr>rw_domain = [], rw_answer = []\<rparr> vs
      | _ \<Rightarrow> Inl json_type_error)"

definition encode_rewrite_update :: "rewrite_item \<Rightarrow> rewrite_item \<Rightarrow> json" where
  "encode_rewrite_update target update = JObject [(''target'', encode_rewrite target), (''update'', encode_rewrite update)]"

definition rewrite_of_desired :: "desired_record \<Rightarrow> rewrite_item" where
  "rewrite_of_desired d = \<lparr>rw_domain = d_hostname d, rw_answer = d_answer d\<rparr>"

definition rewrite_of_visible :: "visible_record \<Rightarrow> rewrite_item" where
  "rewrite_of_visible v = \<lparr>rw_domain = v_hostname v, rw_answer = v_answer v\<rparr>"

definition visible_of_rewrite :: "provider_ref \<Rightarrow> rewrite_item \<Rightarrow> visible_record" where
  "visible_of_rewrite ref r =
     \<lparr>v_output = ref, v_hostname = trim_space (rw_domain r), v_answer = trim_space (rw_answer r), v_provenance = None\<rparr>"

definition adguard_list_visible :: "'w adguard_provider \<Rightarrow> ('w, visible_record list) io" where
  "adguard_list_visible p w =
     (case request_json p ''GET'' ''/control/rewrite/list'' None w of
        (Inl err, w') \<Rightarrow> (Inl err, w')
      | (Inr answer, w') \<Rightarrow>
          (case json_decode answer of
             None \<Rightarrow> (Inl (ErrWrap ''decode adguard response: '' (ErrText ''invalid JSON'')), w')
           | Some j \<Rightarrow>
               (case decode_rewrites j of
                  Inl err \<Rightarrow> (Inl (ErrWrap ''decode adguard response: '' err), w')
                | Inr rewrites \<Rightarrow> (Inr (map (visible_of_rewrite (ag_ref p)) rewrites), w'))))"

definition adguard_create :: "'w adguard_provider \<Rightarrow> desired_record \<Rightarrow> ('w, record_provenance option) io" where
  "adguard_create p d w =
     (case request_only p ''POST'' ''/control/rewrite/add'' (encode_rewrite (rewrite_of_desired d)) w of
        (Inl err, w') \<Rightarrow> (Inl err, w')
      | (Inr _, w') \<Rightarrow> (Inr None, w'))"

definition adguard_update ::
  "'w adguard_provider \<Rightarrow> visible_record \<Rightarrow> desired_record \<Rightarrow> ('w, record_provenance option) io" where
  "adguard_update p v d w =
     (case request_only p ''PUT'' ''/control/rewrite/update''
             (encode_rewrite_update (rewrite_of_visible v) (rewrite_of_desired d)) w of
        (Inl err, w') \<Rightarrow> (Inl err, w')
      | (Inr _, w') \<Rightarrow> (Inr None, w'))"

definition adguard_delete :: "'w adguard_provider \<Rightarrow> visible_record \<Rightarrow> ('w, unit) io" where
  "adguard_delete p v = request_only p ''POST'' ''/control/rewrite/delete'' (encode_rewrite (rewrite_of_visible v))"

definition adguard_output :: "'w adguard_provider \<Rightarrow> 'w output_port" where
  "adguard_output p =
     \<lparr>out_provider = ag_ref p, out_list_visible = adguard_list_visible p, out_create = adguard_create p,
      out_update = adguard_update p, out_delete = adguard_delete p\<rparr>"

definition adguard_stub :: "output_config \<Rightarrow> 'w output_port" where
  "adguard_stub cfg =
     \<lparr>out_provider = \<lparr>pr_type = oc_type cfg, pr_name = oc_name cfg\<rparr>, out_list_visible = (\<lambda>w. (Inr [], w)),
      out_create = (\<lambda>d w. (Inr None, w)), out_update = (\<lambda>v d w. (Inr None, w)), out_delete = (\<lambda>v w. (Inr (), w))\<rparr>"

section \<open>How requests fail\<close>

text \<open>
  A failed request is temporary exactly when trying again may help: the transport failed
  without the context ending, or the server answered 408, 429 or with a server error.
\<close>

lemma request_failure_class:
  assumes "request_json p method path body w = (Inl err, w')"
    and "trim_space (ag_base_url p) \<noteq> []" "hc_check (ag_client p) method (trim_right_slash (ag_base_url p) @ path) = None"
    and "hc_do (ag_client p) \<lparr>rq_method = method, rq_url = trim_right_slash (ag_base_url p) @ path,
           rq_username = ag_username p, rq_password = ag_password p, rq_body = body\<rparr> w = (r, w')"
  shows "is_temporary_error err \<longleftrightarrow>
    (case r of Inl e \<Rightarrow> \<not> is_context_cancellation_error e | Inr resp \<Rightarrow> is_temporary_status (rs_status resp))"
  using assms
  by (auto simp: request_json_def Let_def is_temporary_error_def is_context_cancellation_error_def err_is_def err_as_def
      split: sum.splits if_splits)

lemma decode_rewrite_encode [simp]:
  "decode_struct rewrite_member (encode_rewrite r) r0 = Inr r"
proof -
  have "is_field ''domain'' ''domain''" "\<not> is_field ''answer'' ''domain''" "is_field ''answer'' ''answer''"
    by (simp_all add: is_field_def to_lower_def to_lower_char_def)
  then show ?thesis by (cases r) (simp add: encode_rewrite_def decode_struct_def rewrite_member_def)
qed

lemma decode_rewrites_encode: "decode_rewrites (JArray (map encode_rewrite rs)) = Inr rs"
  by (induction rs) (simp_all add: decode_rewrites_def)

lemma json_decode_parse: "json_parse s = Some v \<Longrightarrow> json_decode s = Some v"
  by (auto simp: json_parse_def json_decode_def split: option.splits if_splits)

lemma json_ok_rewrites: "json_oks (map encode_rewrite rs)"
  by (induction rs) (simp_all add: encode_rewrite_def)

lemma decode_rewrites_text: "json_decode (json_text 0 (JArray (map encode_rewrite rs)) @ [CHR 0x0A]) = Some (JArray (map encode_rewrite rs))"
  by (rule json_decode_parse, rule json_parse_text) (simp add: json_ok_rewrites)

text \<open>What AdGuard shows never carries a remote id, so no plan deletes any of it.\<close>

lemma adguard_shows_no_ids:
  assumes "adguard_list_visible p w = (Inr visible, w')" "v \<in> set visible"
  shows "v_provenance v = None \<and> v_output v = ag_ref p"
  using assms by (auto simp: adguard_list_visible_def visible_of_rewrite_def split: prod.splits sum.splits option.splits)

end
