(* ===== verification/Cloudflare_Output.thy ===== *)
theory Cloudflare_Output
  imports Config_Check Runtime_Env Snapshot_Codec
begin

text \<open>
  \<^verbatim>\<open>internal/providers/cloudflare/output.go\<close>. The Cloudflare client library is an argument: it
  reads a zone, lists the DNS records of a zone page after page, and creates, updates and
  deletes a record. The two fields of the provider that change, the zone's name and the cache
  of visible records, live in a cell of the state; the mutex only orders accesses to it.
\<close>

section \<open>The client and the cell\<close>

text \<open>The fields of the library's record that the code reads.\<close>

record cf_record =
  cr_id :: string
  cr_type :: string
  cr_name :: string
  cr_content :: string

datatype record_kind = ARecord | AAAARecord | CNAMERecord

record record_body =
  rb_kind :: record_kind
  rb_name :: string
  rb_content :: string
  rb_ttl :: nat

text \<open>
  Listing gives the records that the iterator has produced, and the error that ended it, if
  any. Creating and updating give the identifier of the record.
\<close>

record 's cf_client =
  cc_zone_name :: "string \<Rightarrow> ('s, string) io"
  cc_list :: "string \<Rightarrow> 's \<Rightarrow> (cf_record list \<times> go_error option) \<times> 's"
  cc_new :: "string \<Rightarrow> record_body \<Rightarrow> ('s, string) io"
  cc_update :: "string \<Rightarrow> string \<Rightarrow> record_body \<Rightarrow> ('s, string) io"
  cc_delete :: "string \<Rightarrow> string \<Rightarrow> ('s, unit) io"

record cf_cache =
  ca_zone_name :: string
  ca_visible :: "(string, string) fmap"

record 's cf_cell =
  cell_get :: "'s \<Rightarrow> cf_cache"
  cell_put :: "cf_cache \<Rightarrow> 's \<Rightarrow> 's"

record 's cloudflare_provider =
  cp_ref :: provider_ref
  cp_zone_id :: string
  cp_client :: "'s cf_client"
  cp_cell :: "'s cf_cell"
  cp_parse_ip :: "string \<Rightarrow> bool option"

definition empty_cache :: cf_cache where
  "empty_cache = \<lparr>ca_zone_name = [], ca_visible = fmempty\<rparr>"

text \<open>
  \<^verbatim>\<open>New\<close>: the client library makes a client from the token; the cell starts with
  \<^const>\<open>empty_cache\<close>. The parser of \<^verbatim>\<open>net.ParseIP\<close> answers whether the text is an IPv4 address
  (\<open>Some True\<close>), an IPv6 address (\<open>Some False\<close>) or neither.
\<close>

definition cloudflare_new ::
  "(string \<Rightarrow> 's cf_client) \<Rightarrow> 's cf_cell \<Rightarrow> (string \<Rightarrow> bool option) \<Rightarrow> output_config \<Rightarrow> 's cloudflare_provider" where
  "cloudflare_new new_client cell parse_ip cfg =
     \<lparr>cp_ref = \<lparr>pr_type = oc_type cfg, pr_name = oc_name cfg\<rparr>, cp_zone_id = oc_zone_id cfg,
      cp_client = new_client (oc_api_key cfg), cp_cell = cell, cp_parse_ip = parse_ip\<rparr>"

section \<open>Names and keys\<close>

definition cf_normalize_hostname :: "string \<Rightarrow> string" where
  "cf_normalize_hostname hostname = trim_suffix (trim_space (to_lower hostname)) ''.''"

definition cf_normalize_answer :: "string \<Rightarrow> string" where
  "cf_normalize_answer answer = trim_suffix (trim_space (to_lower answer)) ''.''"

definition cf_visible_record_key :: "string \<Rightarrow> string \<Rightarrow> string" where
  "cf_visible_record_key hostname answer = cf_normalize_hostname hostname @ ''|'' @ cf_normalize_answer answer"

definition relative_visible_hostname :: "string \<Rightarrow> string \<Rightarrow> string" where
  "relative_visible_hostname hostname zoneName =
     (let host = cf_normalize_hostname hostname; zone = cf_normalize_hostname zoneName; suff = ''.'' @ zone
      in if host = [] \<or> zone = [] \<or> host = zone then host
         else if \<not> has_suffix host suff then host
         else let relative = trim_suffix host suff
              in if relative = [] \<or> contains relative ''.'' then host else relative)"

definition visible_record_keys :: "string \<Rightarrow> string \<Rightarrow> string \<Rightarrow> string list" where
  "visible_record_keys hostname answer zoneName =
     (let relative = relative_visible_hostname hostname zoneName
      in cf_visible_record_key hostname answer #
         (if relative \<noteq> [] \<and> relative \<noteq> cf_normalize_hostname hostname
          then [cf_visible_record_key relative answer] else []))"

definition cf_qualify :: "string \<Rightarrow> string \<Rightarrow> string" where
  "cf_qualify zone hostname =
     (if hostname = [] \<or> hostname = zone \<or> contains hostname ''.'' then hostname else hostname @ ''.'' @ zone)"

definition hostnames_equivalent :: "string \<Rightarrow> string \<Rightarrow> string \<Rightarrow> bool" where
  "hostnames_equivalent left right zoneName =
     (let l = cf_normalize_hostname left; r = cf_normalize_hostname right; zone = cf_normalize_hostname zoneName
      in if l = r then True
         else if zone = [] then False
         else cf_qualify zone l = cf_qualify zone r)"

definition is_supported_record_type :: "string \<Rightarrow> bool" where
  "is_supported_record_type v \<longleftrightarrow> to_upper (trim_space v) \<in> {''A'', ''AAAA'', ''CNAME''}"

definition build_record_new_body :: "(string \<Rightarrow> bool option) \<Rightarrow> string \<Rightarrow> string \<Rightarrow> go_error + record_body" where
  "build_record_new_body parse_ip hostname answer =
     (let nm = cf_normalize_hostname hostname; content = cf_normalize_answer answer
      in if nm = [] then Inl (ErrText ''cloudflare record hostname is required'')
         else if content = [] then Inl (ErrText ''cloudflare record answer is required'')
         else Inr \<lparr>rb_kind = (case parse_ip content of
                               Some ipv4 \<Rightarrow> if ipv4 then ARecord else AAAARecord
                             | None \<Rightarrow> CNAMERecord),
                   rb_name = nm, rb_content = content, rb_ttl = 1\<rparr>)"

definition build_record_update_body :: "(string \<Rightarrow> bool option) \<Rightarrow> string \<Rightarrow> string \<Rightarrow> go_error + record_body" where
  "build_record_update_body parse_ip hostname answer =
     (let nm = cf_normalize_hostname hostname; content = cf_normalize_answer answer
      in if nm = [] then Inl (ErrText ''cloudflare record hostname is required'')
         else if content = [] then Inl (ErrText ''cloudflare record answer is required'')
         else Inr \<lparr>rb_kind = (case parse_ip content of
                               Some ipv4 \<Rightarrow> if ipv4 then ARecord else AAAARecord
                             | None \<Rightarrow> CNAMERecord),
                   rb_name = nm, rb_content = content, rb_ttl = 1\<rparr>)"

section \<open>Errors\<close>

definition re_space :: "char \<Rightarrow> bool" where
  "re_space c \<longleftrightarrow> c \<in> {CHR '' '', CHR 0x09, CHR 0x0A, CHR 0x0C, CHR 0x0D}"

definition token_char :: "char \<Rightarrow> bool" where
  "token_char c \<longleftrightarrow> \<not> re_space c \<and> c \<noteq> CHR '','' \<and> c \<noteq> CHR '';''"

text \<open>
  The matchers give the text after the longest match at the start. The character classes that
  follow each other in the patterns are disjoint, so a greedy match never has to be taken back.
\<close>

definition match_word :: "string \<Rightarrow> string \<Rightarrow> string option" where
  "match_word w s = (if has_prefix (to_lower s) w then Some (drop (length w) s) else None)"

definition match_token :: "string \<Rightarrow> string option" where
  "match_token s =
     (let u = dropWhile re_space s
      in if length u = length s then None
         else if u = [] \<or> \<not> token_char (hd u) then None
         else Some (dropWhile token_char u))"

definition match_bearer :: "string \<Rightarrow> string option" where
  "match_bearer s = (case match_word ''bearer'' s of None \<Rightarrow> None | Some r \<Rightarrow> match_token r)"

definition match_authorization :: "string \<Rightarrow> string option" where
  "match_authorization s =
     (case match_word ''authorization'' s of None \<Rightarrow> None | Some r \<Rightarrow>
     (case match_word '':'' (dropWhile re_space r) of None \<Rightarrow> None | Some r' \<Rightarrow>
      match_bearer (dropWhile re_space r')))"

definition redacted :: string where
  "redacted = ''[redacted]''"

lemma match_word_length: "match_word w s = Some r \<Longrightarrow> length r \<le> length s"
  by (auto simp: match_word_def split: if_splits)

lemma match_token_length:
  assumes "match_token s = Some r"
  shows "length r < length s"
proof -
  have "length (dropWhile re_space s) \<le> length s" "length (dropWhile token_char (dropWhile re_space s)) \<le> length (dropWhile re_space s)"
    by (simp_all add: length_dropWhile_le)
  then show ?thesis using assms by (auto simp: match_token_def Let_def split: if_splits)
qed

lemma match_bearer_length: "match_bearer s = Some r \<Longrightarrow> length r < length s"
  by (auto simp: match_bearer_def split: option.splits dest!: match_word_length match_token_length)

lemma match_authorization_length:
  assumes "match_authorization s = Some r"
  shows "length r < length s"
proof -
  obtain r1 r2 where 1: "match_word ''authorization'' s = Some r1"
    "match_word '':'' (dropWhile re_space r1) = Some r2" "match_bearer (dropWhile re_space r2) = Some r"
    using assms by (auto simp: match_authorization_def split: option.splits)
  have "length (dropWhile re_space r1) \<le> length r1" "length (dropWhile re_space r2) \<le> length r2"
    by (simp_all add: length_dropWhile_le)
  then show ?thesis using match_word_length [OF 1(1)] match_word_length [OF 1(2)] match_bearer_length [OF 1(3)] by linarith
qed

text \<open>\<^verbatim>\<open>ReplaceAllString\<close>: from the left, each match once.\<close>

function replace_matches :: "(string \<Rightarrow> string option) \<Rightarrow> string \<Rightarrow> string" where
  "replace_matches f [] = []"
| "replace_matches f (c # cs) =
     (case f (c # cs) of
        None \<Rightarrow> c # replace_matches f cs
      | Some r \<Rightarrow> if length r < Suc (length cs) then redacted @ replace_matches f r else c # replace_matches f cs)"
  by pat_completeness auto
termination by (relation "measure (length \<circ> snd)") auto

definition redact_secret_material :: "string \<Rightarrow> string" where
  "redact_secret_material message = replace_matches match_bearer (replace_matches match_authorization message)"

text \<open>A panic of \<^verbatim>\<open>Error()\<close>, from which \<^verbatim>\<open>errorMessage\<close> recovers, is the client's affair.\<close>

definition sanitize_cloudflare_error :: "go_error \<Rightarrow> go_error" where
  "sanitize_cloudflare_error err =
     (let original = err_message err; message = redact_secret_material original
      in if message = original then err else ErrSanitized err message)"

fun as_api_error :: "go_error \<Rightarrow> (nat \<times> (int \<times> string) list) option" where
  "as_api_error (ErrForeign f) = (case fe_status f of None \<Rightarrow> None | Some s \<Rightarrow> Some (s, fe_codes f))"
| "as_api_error e = None"

text \<open>
  \<^verbatim>\<open>net.Error\<close>: the methods \<^verbatim>\<open>Timeout\<close> and \<^verbatim>\<open>Temporary\<close>. The deadline error has both, but
  has been excluded before.
\<close>

fun as_net_error :: "go_error \<Rightarrow> bool option" where
  "as_net_error (ErrForeign f) = (if fe_temporary f = None then None else fe_timeout f)"
| "as_net_error ErrDeadlineExceeded = Some True"
| "as_net_error e = None"

definition is_temporary_cloudflare_error :: "go_error \<Rightarrow> bool" where
  "is_temporary_cloudflare_error err \<longleftrightarrow>
     (if err_is err ErrCanceled \<or> err_is err ErrDeadlineExceeded then False
      else case err_as as_api_error err of
             Some (s, codes) \<Rightarrow> s = 408 \<or> s = 429 \<or> 500 \<le> s
           | None \<Rightarrow> (case err_as as_net_error err of Some timeout \<Rightarrow> timeout | None \<Rightarrow> False))"

definition wrap_cloudflare_temporary :: "go_error \<Rightarrow> go_error" where
  "wrap_cloudflare_temporary err =
     (let sanitized = sanitize_cloudflare_error err
      in if \<not> is_temporary_cloudflare_error err then sanitized else ErrTemporary sanitized)"

text \<open>The codes of the error's items, each followed by those nested in its raw JSON.\<close>

definition append_error_code :: "int \<Rightarrow> int list \<Rightarrow> int list" where
  "append_error_code code codes = (if code = 0 \<or> code \<in> set codes then codes else codes @ [code])"

definition nested_member :: "string \<Rightarrow> json \<Rightarrow> int \<Rightarrow> go_error + int" where
  "nested_member k v r = (if is_field k ''code'' then decode_int v r else Inr r)"

definition error_chain_member :: "string \<Rightarrow> json \<Rightarrow> int list \<Rightarrow> go_error + int list" where
  "error_chain_member k v r =
     (if is_field k ''error_chain''
      then (case v of
              JNull \<Rightarrow> Inr []
            | JArray vs \<Rightarrow> decode_list (decode_struct nested_member) 0 vs
            | _ \<Rightarrow> Inl json_type_error)
      else Inr r)"

definition nested_codes :: "string \<Rightarrow> int list" where
  "nested_codes raw =
     (case json_parse raw of
        None \<Rightarrow> []
      | Some j \<Rightarrow> (case decode_struct error_chain_member j [] of Inl err \<Rightarrow> [] | Inr codes \<Rightarrow> codes))"

definition add_item_codes :: "int \<times> string \<Rightarrow> int list \<Rightarrow> int list" where
  "add_item_codes item codes =
     (case item of (code, raw) \<Rightarrow> fold append_error_code (nested_codes raw) (append_error_code code codes))"

definition cloudflare_error_codes :: "(int \<times> string) list \<Rightarrow> int list" where
  "cloudflare_error_codes items = fold add_item_codes items []"

definition is_recoverable_duplicate_record_error :: "go_error \<Rightarrow> bool" where
  "is_recoverable_duplicate_record_error err \<longleftrightarrow>
     (case err_as as_api_error err of
        None \<Rightarrow> False
      | Some (s, items) \<Rightarrow> list_ex (\<lambda>code. code \<in> {81053, 81054, 81057, 81058}) (cloudflare_error_codes items))"

section \<open>Operations\<close>

definition put_zone_name :: "'s cloudflare_provider \<Rightarrow> string \<Rightarrow> 's \<Rightarrow> 's" where
  "put_zone_name p nm s = cell_put (cp_cell p) ((cell_get (cp_cell p) s)\<lparr>ca_zone_name := nm\<rparr>) s"

definition put_visible :: "'s cloudflare_provider \<Rightarrow> (string, string) fmap \<Rightarrow> 's \<Rightarrow> 's" where
  "put_visible p vis s = cell_put (cp_cell p) ((cell_get (cp_cell p) s)\<lparr>ca_visible := vis\<rparr>) s"

definition ensure_zone_name :: "'s cloudflare_provider \<Rightarrow> ('s, string) io" where
  "ensure_zone_name p s =
     (let cached = ca_zone_name (cell_get (cp_cell p) s)
      in if cached \<noteq> [] then (Inr cached, s)
         else case cc_zone_name (cp_client p) (cp_zone_id p) s of
                (Inl err, s') \<Rightarrow> (Inl (wrap_cloudflare_temporary (ErrWrap ''get cloudflare zone details: '' err)), s')
              | (Inr nm, s') \<Rightarrow>
                  (let zoneName = cf_normalize_hostname nm in (Inr zoneName, put_zone_name p zoneName s')))"

definition visible_of_cf :: "provider_ref \<Rightarrow> cf_record \<Rightarrow> visible_record" where
  "visible_of_cf ref r =
     \<lparr>v_output = ref, v_hostname = cf_normalize_hostname (cr_name r), v_answer = cf_normalize_answer (cr_content r),
      v_provenance = Some \<lparr>rp_remote_id = cr_id r\<rparr>\<rparr>"

definition cache_record :: "string \<Rightarrow> cf_record \<Rightarrow> (string, string) fmap \<Rightarrow> (string, string) fmap" where
  "cache_record zoneName r vis =
     fold (\<lambda>key. fmupd key (cr_id r))
       (visible_record_keys (cf_normalize_hostname (cr_name r)) (cf_normalize_answer (cr_content r)) zoneName) vis"

definition cloudflare_list_visible :: "'s cloudflare_provider \<Rightarrow> ('s, visible_record list) io" where
  "cloudflare_list_visible p s =
     (if trim_space (cp_zone_id p) = [] then (Inl (ErrText ''cloudflare zone ID is required''), s)
      else case ensure_zone_name p s of
             (Inl err, s1) \<Rightarrow> (Inl err, s1)
           | (Inr zoneName, s1) \<Rightarrow>
               (case cc_list (cp_client p) (cp_zone_id p) s1 of
                  ((items, Some err), s2) \<Rightarrow>
                    (Inl (wrap_cloudflare_temporary (ErrWrap ''list cloudflare dns records: '' err)), s2)
                | ((items, None), s2) \<Rightarrow>
                    (let supported = filter (\<lambda>r. is_supported_record_type (cr_type r)) items
                     in (Inr (map (visible_of_cf (cp_ref p)) supported),
                         put_visible p (fold (cache_record zoneName) supported fmempty) s2))))"

definition visible_remote_id :: "'s cloudflare_provider \<Rightarrow> visible_record \<Rightarrow> 's \<Rightarrow> go_error + string" where
  "visible_remote_id p v s =
     (case v_provenance v of
        None \<Rightarrow> Inl (ErrText (''cloudflare visible record '' @ cf_visible_record_key (v_hostname v) (v_answer v) @
                 '' is missing remote provenance''))
      | Some prov \<Rightarrow>
          (let remoteID = trim_space (rp_remote_id prov)
           in if remoteID = []
              then Inl (ErrText (''cloudflare visible record '' @ cf_visible_record_key (v_hostname v) (v_answer v) @
                     '' is missing remote provenance''))
              else case fmlookup (ca_visible (cell_get (cp_cell p) s)) (cf_visible_record_key (v_hostname v) (v_answer v)) of
                     Some cached \<Rightarrow>
                       if cached \<noteq> remoteID
                       then Inl (ErrText (''cloudflare visible record '' @ cf_visible_record_key (v_hostname v) (v_answer v) @
                              '' remote provenance does not match cached metadata''))
                       else Inr remoteID
                   | None \<Rightarrow> Inr remoteID))"

definition cloudflare_update ::
  "'s cloudflare_provider \<Rightarrow> visible_record \<Rightarrow> desired_record \<Rightarrow> ('s, record_provenance option) io" where
  "cloudflare_update p v d s =
     (case visible_remote_id p v s of
        Inl err \<Rightarrow> (Inl err, s)
      | Inr recordID \<Rightarrow>
          (case build_record_update_body (cp_parse_ip p) (d_hostname d) (d_answer d) of
             Inl err \<Rightarrow> (Inl err, s)
           | Inr body \<Rightarrow>
               (case cc_update (cp_client p) (cp_zone_id p) recordID body s of
                  (Inl err, s') \<Rightarrow>
                    (Inl (wrap_cloudflare_temporary (ErrWrap ''update cloudflare dns record: '' err)), s')
                | (Inr updated, s') \<Rightarrow> (Inr (Some \<lparr>rp_remote_id = updated\<rparr>), s'))))"

text \<open>What \<^verbatim>\<open>Create\<close> does when the server says that the record exists already.\<close>

definition recover_duplicate ::
  "'s cloudflare_provider \<Rightarrow> desired_record \<Rightarrow> go_error \<Rightarrow> ('s, record_provenance option) io" where
  "recover_duplicate p d createErr s =
     (case cloudflare_list_visible p s of
        (Inl listErr, s1) \<Rightarrow> (Inl listErr, s1)
      | (Inr visible, s1) \<Rightarrow>
          (let zoneName = ca_zone_name (cell_get (cp_cell p) s1)
           in case filter (\<lambda>r. hostnames_equivalent (v_hostname r) (d_hostname d) zoneName) visible of
                [m] \<Rightarrow>
                  if cf_normalize_answer (v_answer m) = cf_normalize_answer (d_answer d)
                  then (Inr (v_provenance m), s1)
                  else cloudflare_update p m d s1
              | _ \<Rightarrow> (Inl createErr, s1)))"

definition cloudflare_create ::
  "'s cloudflare_provider \<Rightarrow> desired_record \<Rightarrow> ('s, record_provenance option) io" where
  "cloudflare_create p d s =
     (case build_record_new_body (cp_parse_ip p) (d_hostname d) (d_answer d) of
        Inl err \<Rightarrow> (Inl err, s)
      | Inr body \<Rightarrow>
          (case cc_new (cp_client p) (cp_zone_id p) body s of
             (Inl err, s') \<Rightarrow>
               (let createErr = wrap_cloudflare_temporary (ErrWrap ''create cloudflare dns record: '' err)
                in if \<not> is_recoverable_duplicate_record_error err then (Inl createErr, s')
                   else recover_duplicate p d createErr s')
           | (Inr created, s') \<Rightarrow> (Inr (Some \<lparr>rp_remote_id = created\<rparr>), s')))"

definition cloudflare_delete :: "'s cloudflare_provider \<Rightarrow> visible_record \<Rightarrow> ('s, unit) io" where
  "cloudflare_delete p v s =
     (case visible_remote_id p v s of
        Inl err \<Rightarrow> (Inl err, s)
      | Inr recordID \<Rightarrow>
          (case cc_delete (cp_client p) (cp_zone_id p) recordID s of
             (Inl err, s') \<Rightarrow> (Inl (wrap_cloudflare_temporary (ErrWrap ''delete cloudflare dns record: '' err)), s')
           | (Inr _, s') \<Rightarrow> (Inr (), s')))"

definition cloudflare_output :: "'s cloudflare_provider \<Rightarrow> 's output_port" where
  "cloudflare_output p =
     \<lparr>out_provider = cp_ref p, out_list_visible = cloudflare_list_visible p, out_create = cloudflare_create p,
      out_update = cloudflare_update p, out_delete = cloudflare_delete p\<rparr>"

end
