(* ===== verification/Startup.thy ===== *)
theory Startup
  imports Runtime_Deps Config_Secrets Docker_Source Adguard_Output Cloudflare_Output Steady_State
begin

text \<open>
  \<^verbatim>\<open>internal/runtime/factories.go\<close>, \<^verbatim>\<open>App.Run\<close> of \<^verbatim>\<open>internal/runtime/app.go\<close>,
  \<^verbatim>\<open>internal/config/load.go\<close> and \<^verbatim>\<open>cmd/docker-dns-sync/main.go\<close>: from the command line to
  the running daemon.
\<close>

section \<open>The registry\<close>

type_synonym 'w source_factory = "source_config \<Rightarrow> runtime_deps \<Rightarrow> go_error + 'w env source_port"

type_synonym 'w output_factory = "output_config \<Rightarrow> runtime_deps \<Rightarrow> go_error + 'w env output_port"

record 'w factory_registry =
  fr_sources :: "(string, 'w source_factory) fmap"
  fr_outputs :: "(string, 'w output_factory) fmap"

definition new_factory_registry :: "'w factory_registry" where
  "new_factory_registry = \<lparr>fr_sources = fmempty, fr_outputs = fmempty\<rparr>"

definition register_source ::
  "string \<Rightarrow> 'w source_factory option \<Rightarrow> 'w factory_registry \<Rightarrow> go_error option \<times> 'w factory_registry" where
  "register_source raw factory r =
     (let providerType = trim_space raw
      in if providerType = [] then (Some (ErrText ''source provider type is required''), r)
         else case factory of
                None \<Rightarrow> (Some (ErrText (''source factory for '' @ quoted providerType @ '' is required'')), r)
              | Some f \<Rightarrow>
                  if fmlookup (fr_sources r) providerType \<noteq> None
                  then (Some (ErrText (''source provider type '' @ quoted providerType @ '' is already registered'')), r)
                  else (None, r\<lparr>fr_sources := fmupd providerType f (fr_sources r)\<rparr>))"

definition register_output ::
  "string \<Rightarrow> 'w output_factory option \<Rightarrow> 'w factory_registry \<Rightarrow> go_error option \<times> 'w factory_registry" where
  "register_output raw factory r =
     (let providerType = trim_space raw
      in if providerType = [] then (Some (ErrText ''output provider type is required''), r)
         else case factory of
                None \<Rightarrow> (Some (ErrText (''output factory for '' @ quoted providerType @ '' is required'')), r)
              | Some f \<Rightarrow>
                  if fmlookup (fr_outputs r) providerType \<noteq> None
                  then (Some (ErrText (''output provider type '' @ quoted providerType @ '' is already registered'')), r)
                  else (None, r\<lparr>fr_outputs := fmupd providerType f (fr_outputs r)\<rparr>))"

text \<open>\<^verbatim>\<open>mustRegister\<close>: \<open>None\<close> is the panic.\<close>

definition must_register :: "go_error option \<times> 'r \<Rightarrow> 'r option" where
  "must_register p = (case p of (None, r) \<Rightarrow> Some r | (Some err, r) \<Rightarrow> None)"

text \<open>
  The libraries beneath the providers. Each provider has a cell of its own, found by its
  configuration.
\<close>

record 'w libraries =
  lb_range :: range_order
  lb_url_hostname :: "string \<Rightarrow> string option"
  lb_docker :: "string \<Rightarrow> go_error + ('w env, container_summary list) io"
  lb_http :: "'w env http_client"
  lb_cloudflare :: "string \<Rightarrow> 'w env cf_client"
  lb_cell :: "output_config \<Rightarrow> 'w env cf_cell"
  lb_parse_ip :: "string \<Rightarrow> bool option"

definition docker_factory :: "'w libraries \<Rightarrow> 'w source_factory" where
  "docker_factory lib cfg deps =
     (case docker_new (lb_url_hostname lib) (lb_docker lib) cfg of
        Inl err \<Rightarrow> Inl err
      | Inr p \<Rightarrow> Inr (docker_source (lb_range lib) p))"

definition adguard_factory :: "'w libraries \<Rightarrow> 'w output_factory" where
  "adguard_factory lib cfg deps = Inr (adguard_output (adguard_new (lb_http lib) cfg))"

definition cloudflare_factory :: "'w libraries \<Rightarrow> 'w output_factory" where
  "cloudflare_factory lib cfg deps =
     Inr (cloudflare_output (cloudflare_new (lb_cloudflare lib) (lb_cell lib cfg) (lb_parse_ip lib) cfg))"

definition new_default_factory_registry :: "'w libraries \<Rightarrow> 'w factory_registry option" where
  "new_default_factory_registry lib =
     (case must_register (register_source ''docker'' (Some (docker_factory lib)) new_factory_registry) of
        None \<Rightarrow> None
      | Some r1 \<Rightarrow>
     (case must_register (register_output ''adguard'' (Some (adguard_factory lib)) r1) of
        None \<Rightarrow> None
      | Some r2 \<Rightarrow> must_register (register_output ''cloudflare'' (Some (cloudflare_factory lib)) r2)))"

fun build_sources ::
  "'w factory_registry \<Rightarrow> runtime_deps \<Rightarrow> nat \<Rightarrow> source_config list \<Rightarrow> go_error + 'w env source_port list" where
  "build_sources r deps i [] = Inr []"
| "build_sources r deps i (cfg # rest) =
     (case fmlookup (fr_sources r) (sc_type cfg) of
        None \<Rightarrow> Inl (ErrText (''sources['' @ itoa i @ '']: unknown provider type '' @ quoted (sc_type cfg)))
      | Some factory \<Rightarrow>
          (case factory cfg deps of
             Inl err \<Rightarrow> Inl (ErrWrap (''sources['' @ itoa i @ '']: '') err)
           | Inr source \<Rightarrow>
               (case build_sources r deps (Suc i) rest of
                  Inl err \<Rightarrow> Inl err
                | Inr sources \<Rightarrow> Inr (source # sources))))"

fun build_outputs ::
  "'w factory_registry \<Rightarrow> runtime_deps \<Rightarrow> nat \<Rightarrow> output_config list \<Rightarrow> go_error + 'w env output_port list" where
  "build_outputs r deps i [] = Inr []"
| "build_outputs r deps i (cfg # rest) =
     (if \<not> is_enabled cfg then build_outputs r deps (Suc i) rest
      else case fmlookup (fr_outputs r) (oc_type cfg) of
        None \<Rightarrow> Inl (ErrText (''outputs['' @ itoa i @ '']: unknown provider type '' @ quoted (oc_type cfg)))
      | Some factory \<Rightarrow>
          (case factory cfg deps of
             Inl err \<Rightarrow> Inl (ErrWrap (''outputs['' @ itoa i @ '']: '') err)
           | Inr out \<Rightarrow>
               (case build_outputs r deps (Suc i) rest of
                  Inl err \<Rightarrow> Inl err
                | Inr outs \<Rightarrow> Inr (out # outs))))"

definition build_providers ::
  "'w factory_registry \<Rightarrow> config \<Rightarrow> runtime_deps \<Rightarrow> go_error + 'w env source_port list \<times> 'w env output_port list" where
  "build_providers r cfg deps =
     (case build_sources r deps 0 (cf_sources cfg) of
        Inl err \<Rightarrow> Inl err
      | Inr sources \<Rightarrow>
          (case build_outputs r deps 0 (cf_outputs cfg) of
             Inl err \<Rightarrow> Inl err
           | Inr outs \<Rightarrow> Inr (sources, outs)))"

section \<open>Run\<close>

text \<open>
  What surrounds the process: the parsers and the environment variables, the registry, and the
  calendar, map orders and waits of \<^typ>\<open>'w app\<close>.
\<close>

record 'w setting =
  st_parsers :: parsers
  st_lookup_env :: "string \<Rightarrow> string option"
  st_registry :: "'w factory_registry"
  st_calendar :: "'w env \<Rightarrow> utc_time"
  st_orders :: "'w env \<Rightarrow> plan_orders"
  st_wait :: "duration \<Rightarrow> 'w env \<Rightarrow> bool \<times> 'w env"

definition new_app ::
  "'w setting \<Rightarrow> runtime_deps \<Rightarrow> string \<Rightarrow> 'w env source_port list \<Rightarrow> 'w env output_port list \<Rightarrow> 'w app" where
  "new_app S deps store sources outputs =
     set_providers sources outputs (rd_operation_timeout deps)
       \<lparr>app_store = store, app_sources = [], app_outputs = [], app_retry = rd_retry deps,
        app_debounce = rd_watch_hint_debounce deps, app_calendar = st_calendar S, app_orders = st_orders S,
        app_wait = st_wait S\<rparr>"

definition start_app :: "'w setting \<Rightarrow> config \<Rightarrow> fs \<Rightarrow> (go_error + 'w app) \<times> fs" where
  "start_app S cfg f =
     (case validate (st_parsers S) cfg of Some err \<Rightarrow> (Inl err, f) | None \<Rightarrow>
     (case resolve_secrets cfg (Some (st_lookup_env S)) of Inl err \<Rightarrow> (Inl err, f) | Inr resolved \<Rightarrow>
     (case new_runtime_deps (st_parsers S) resolved of Inl err \<Rightarrow> (Inl err, f) | Inr deps \<Rightarrow>
     (case new_store (cf_state_path resolved) f of
        (Inl err, f') \<Rightarrow> (Inl err, f')
      | (Inr store, f') \<Rightarrow>
          (case build_providers (st_registry S) resolved deps of
             Inl err \<Rightarrow> (Inl err, f')
           | Inr (sources, outputs) \<Rightarrow> (Inr (new_app S deps store sources outputs), f'))))))"

text \<open>A cancelled run is a normal end.\<close>

definition unless_canceled :: "go_error \<Rightarrow> go_error option" where
  "unless_canceled err = (if err_is err ErrCanceled then None else Some err)"

text \<open>\<^verbatim>\<open>Run\<close> returns; the steady state may end in more than one way.\<close>

inductive app_run :: "'w setting \<Rightarrow> config \<Rightarrow> 'w host \<Rightarrow> go_error option \<Rightarrow> 'w host \<Rightarrow> bool" for S cfg h where
  not_started: "start_app S cfg (ho_fs h) = (Inl err, f) \<Longrightarrow> app_run S cfg h (Some err) (h\<lparr>ho_fs := f\<rparr>)"
| startup_failed: "start_app S cfg (ho_fs h) = (Inr a, f) \<Longrightarrow> reconcile a (h\<lparr>ho_fs := f\<rparr>) = Some (Some err, h') \<Longrightarrow>
    app_run S cfg h (unless_canceled err) h'"
| steady_ended: "start_app S cfg (ho_fs h) = (Inr a, f) \<Longrightarrow> reconcile a (h\<lparr>ho_fs := f\<rparr>) = Some (None, h1) \<Longrightarrow>
    steady_run a h1 ls d \<Longrightarrow> dm_done d = Some err \<Longrightarrow> app_run S cfg h (unless_canceled err) (dm_host d)"

section \<open>Loading the configuration\<close>

text \<open>
  \<^verbatim>\<open>Load\<close>: the decoder of TOML is an argument; it gives the configuration and the keys it has
  not used, dotted.
\<close>

fun join_with :: "string \<Rightarrow> string list \<Rightarrow> string" where
  "join_with sep [] = []"
| "join_with sep [x] = x"
| "join_with sep (x # y # xs) = x @ sep @ join_with sep (y # xs)"

definition config_load ::
  "(string \<Rightarrow> (fs, config \<times> string list) io) \<Rightarrow> string \<Rightarrow> (fs, config) io" where
  "config_load decode_file path f =
     (if path = [] then (Inl (ErrText ''config path is required''), f)
      else case os_stat path f of
             (Inl err, f1) \<Rightarrow> (Inl (ErrWrap ''stat config file: '' err), f1)
           | (Inr _, f1) \<Rightarrow>
               (case decode_file path f1 of
                  (Inl err, f2) \<Rightarrow> (Inl (ErrWrap ''decode config file: '' err), f2)
                | (Inr (cfg, undecoded), f2) \<Rightarrow>
                    if 0 < length undecoded
                    then (Inl (ErrText (''decode config file: unknown keys: '' @ join_with '', '' undecoded)), f2)
                    else (Inr cfg, f2)))"

text \<open>
  \<^verbatim>\<open>runWithContext\<close>: the parser of the command line is an argument and answers with the value of
  \<^verbatim>\<open>-config\<close>.
\<close>

inductive run_with_context ::
  "'w setting \<Rightarrow> (string list \<Rightarrow> go_error + string) \<Rightarrow> (string \<Rightarrow> (fs, config \<times> string list) io) \<Rightarrow>
   string list \<Rightarrow> 'w host \<Rightarrow> go_error option \<Rightarrow> 'w host \<Rightarrow> bool"
  for S parse_flags decode_file args h where
  bad_flags: "parse_flags args = Inl err \<Longrightarrow> run_with_context S parse_flags decode_file args h (Some err) h"
| no_config: "parse_flags args = Inr [] \<Longrightarrow>
    run_with_context S parse_flags decode_file args h (Some (ErrText ''-config is required'')) h"
| bad_config: "parse_flags args = Inr path \<Longrightarrow> path \<noteq> [] \<Longrightarrow> config_load decode_file path (ho_fs h) = (Inl err, f) \<Longrightarrow>
    run_with_context S parse_flags decode_file args h (Some err) (h\<lparr>ho_fs := f\<rparr>)"
| runs: "parse_flags args = Inr path \<Longrightarrow> path \<noteq> [] \<Longrightarrow> config_load decode_file path (ho_fs h) = (Inr cfg, f) \<Longrightarrow>
    app_run S cfg (h\<lparr>ho_fs := f\<rparr>) r h' \<Longrightarrow> run_with_context S parse_flags decode_file args h r h'"

section \<open>The providers that are built\<close>


lemma default_registry:
  "\<exists>r. new_default_factory_registry lib = Some r \<and>
     fr_sources r = fmupd ''docker'' (docker_factory lib) fmempty \<and>
     fr_outputs r = fmupd ''cloudflare'' (cloudflare_factory lib) (fmupd ''adguard'' (adguard_factory lib) fmempty)"
proof -
  have trims: "trim_space ''docker'' = ''docker''" "trim_space ''adguard'' = ''adguard''" "trim_space ''cloudflare'' = ''cloudflare''"
    by code_simp+
  let ?r0 = "new_factory_registry :: 'a factory_registry"
  let ?r1 = "?r0\<lparr>fr_sources := fmupd ''docker'' (docker_factory lib) (fr_sources ?r0)\<rparr>"
  let ?r2 = "?r1\<lparr>fr_outputs := fmupd ''adguard'' (adguard_factory lib) (fr_outputs ?r1)\<rparr>"
  have "must_register (register_source ''docker'' (Some (docker_factory lib)) ?r0) = Some ?r1"
    by (simp add: register_source_def trims must_register_def Let_def new_factory_registry_def)
  moreover have "must_register (register_output ''adguard'' (Some (adguard_factory lib)) ?r1) = Some ?r2"
    by (simp add: register_output_def trims must_register_def Let_def new_factory_registry_def)
  moreover have "must_register (register_output ''cloudflare'' (Some (cloudflare_factory lib)) ?r2) =
      Some (?r2\<lparr>fr_outputs := fmupd ''cloudflare'' (cloudflare_factory lib) (fr_outputs ?r2)\<rparr>)"
    by (simp add: register_output_def trims must_register_def Let_def new_factory_registry_def)
  ultimately show ?thesis by (simp add: new_default_factory_registry_def new_factory_registry_def)
qed

text \<open>A registry whose factories give providers the type and name of their configuration.\<close>

definition naming_registry :: "'w factory_registry \<Rightarrow> bool" where
  "naming_registry r \<longleftrightarrow>
     (\<forall>k f cfg deps p. fmlookup (fr_sources r) k = Some f \<and> f cfg deps = Inr p \<longrightarrow>
        src_provider p = \<lparr>pr_type = sc_type cfg, pr_name = sc_name cfg\<rparr>) \<and>
     (\<forall>k f cfg deps p. fmlookup (fr_outputs r) k = Some f \<and> f cfg deps = Inr p \<longrightarrow>
        out_provider p = \<lparr>pr_type = oc_type cfg, pr_name = oc_name cfg\<rparr>)"

lemma default_registry_names:
  assumes "new_default_factory_registry lib = Some r"
  shows "naming_registry r"
proof -
  have r: "fr_sources r = fmupd ''docker'' (docker_factory lib) fmempty"
    "fr_outputs r = fmupd ''cloudflare'' (cloudflare_factory lib) (fmupd ''adguard'' (adguard_factory lib) fmempty)"
    using default_registry [of lib] assms by auto
  have "src_provider p = \<lparr>pr_type = sc_type cfg, pr_name = sc_name cfg\<rparr>" if "docker_factory lib cfg deps = Inr p" for cfg deps p
    using that by (auto simp: docker_factory_def docker_new_def docker_source_def split: sum.splits)
  moreover have "out_provider p = \<lparr>pr_type = oc_type cfg, pr_name = oc_name cfg\<rparr>" if "adguard_factory lib cfg deps = Inr p" for cfg deps p
    using that by (auto simp: adguard_factory_def adguard_output_def adguard_new_def)
  moreover have "out_provider p = \<lparr>pr_type = oc_type cfg, pr_name = oc_name cfg\<rparr>" if "cloudflare_factory lib cfg deps = Inr p" for cfg deps p
    using that by (auto simp: cloudflare_factory_def cloudflare_output_def cloudflare_new_def)
  ultimately show ?thesis unfolding naming_registry_def r by (simp split: if_split_asm)
qed

lemma built_sources:
  assumes "naming_registry r" "build_sources r deps i cfgs = Inr sources"
  shows "map src_provider sources = map (\<lambda>c. \<lparr>pr_type = sc_type c, pr_name = sc_name c\<rparr>) cfgs"
  using assms(2)
proof (induction cfgs arbitrary: i sources)
  case (Cons cfg rest)
  from Cons.prems obtain f p ps where "fmlookup (fr_sources r) (sc_type cfg) = Some f" "f cfg deps = Inr p"
    "build_sources r deps (Suc i) rest = Inr ps" "sources = p # ps"
    by (auto split: option.splits sum.splits)
  with Cons.IH assms(1) show ?case unfolding naming_registry_def by simp
qed simp

lemma built_outputs:
  assumes "naming_registry r" "build_outputs r deps i cfgs = Inr outs"
  shows "map out_provider outs = map (\<lambda>c. \<lparr>pr_type = oc_type c, pr_name = oc_name c\<rparr>) (filter is_enabled cfgs)"
  using assms(2)
proof (induction cfgs arbitrary: i outs)
  case (Cons cfg rest)
  show ?case
  proof (cases "is_enabled cfg")
    case False
    with Cons show ?thesis by simp
  next
    case True
    with Cons.prems obtain f p ps where "fmlookup (fr_outputs r) (oc_type cfg) = Some f" "f cfg deps = Inr p"
      "build_outputs r deps (Suc i) rest = Inr ps" "outs = p # ps"
      by (auto split: option.splits sum.splits)
    with Cons.IH assms(1) True show ?thesis unfolding naming_registry_def by simp
  qed
qed simp

end
