(* ===== verification/Startup_Correct.thy ===== *)
theory Startup_Correct
  imports Startup
begin

text \<open>
  What a started daemon is: its providers, its policy and its store come from the configuration,
  and the state file stays readable for as long as it runs.
\<close>

section \<open>A started daemon\<close>

lemma new_store_ready:
  assumes "new_store path f = (Inr p, f')"
  shows "p = path \<and> path \<noteq> [] \<and> (\<exists>s. stored path f' = Some s)"
proof -
  have path: "path \<noteq> []" using assms by (auto simp: new_store_def)
  define q where "q = (case os_stat path f of
      (Inr _, fs1) \<Rightarrow> (None, fs1)
    | (Inl e, fs1) \<Rightarrow> if \<not> os_is_not_exist e then (Some (ErrWrap ''stat state file: '' e), fs1) else store_save path empty_snapshot fs1)"
  obtain present f1 where q: "q = (present, f1)" by (cases q)
  have run: "(case present of Some e \<Rightarrow> (Inl e, f1)
    | None \<Rightarrow> (case store_load path f1 of (Inl e, fs2) \<Rightarrow> (Inl e, fs2) | (Inr _, fs2) \<Rightarrow> (Inr path, fs2))) = (Inr p, f')"
    using assms path unfolding new_store_def q_def [symmetric] q by simp
  obtain r1 f2 where load: "store_load path f1 = (r1, f2)" by fastforce
  then obtain s where l: "store_load path f1 = (Inr s, f')" "p = path"
    using run by (cases present; cases r1) auto
  note l = this path
  then show ?thesis using file_store.load_ok [OF l(1)] file_store.load_keeps [OF l(1)] by simp
qed

lemma start_app_cases:
  assumes "start_app S cfg f = (Inr a, f')"
  obtains resolved deps sources outputs where "validate (st_parsers S) cfg = None"
    "resolve_secrets cfg (Some (st_lookup_env S)) = Inr resolved"
    "new_runtime_deps (st_parsers S) resolved = Inr deps"
    "new_store (cf_state_path resolved) f = (Inr (cf_state_path resolved), f')"
    "build_sources (st_registry S) deps 0 (cf_sources resolved) = Inr sources"
    "build_outputs (st_registry S) deps 0 (cf_outputs resolved) = Inr outputs"
    "a = new_app S deps (cf_state_path resolved) sources outputs"
  using assms new_store_ready
  by (fastforce simp: start_app_def build_providers_def split: option.splits sum.splits prod.splits)

lemma resolved_config:
  assumes "resolve_secrets cfg (Some lookup) = Inr resolved"
  shows "resolved = cfg\<lparr>cf_outputs := map (with_secrets lookup) (cf_outputs cfg)\<rparr>"
proof -
  have "resolve_outputs lookup 0 (cf_outputs cfg) = Inr (cf_outputs resolved)" "resolved = cfg\<lparr>cf_outputs := cf_outputs resolved\<rparr>"
    using assms by (auto simp: resolve_secrets_def split: sum.splits)
  then show ?thesis unfolding resolve_outputs_Inr by simp
qed

lemma with_secrets_ref [simp]:
  "oc_type (with_secrets lookup out) = oc_type out" "oc_name (with_secrets lookup out) = oc_name out"
  by (simp_all add: with_secrets_def Let_def)

lemma deps_of_resolved: "new_runtime_deps lib (cfg\<lparr>cf_outputs := outs\<rparr>) = new_runtime_deps lib cfg"
proof -
  have "cf_logging (cfg\<lparr>cf_outputs := outs\<rparr>) = cf_logging cfg" "cf_retry (cfg\<lparr>cf_outputs := outs\<rparr>) = cf_retry cfg"
    "cf_operation_timeout (cfg\<lparr>cf_outputs := outs\<rparr>) = cf_operation_timeout cfg" by simp_all
  then show ?thesis unfolding new_runtime_deps_def by (simp only:)
qed

lemma wrapped_providers:
  "map src_provider (wrap_sources sources t) = map src_provider sources"
  "map out_provider (wrap_outputs outputs t) = map out_provider outputs"
  by (simp_all add: wrap_sources_def wrap_outputs_def timeout_source_def)

definition source_ref :: "source_config \<Rightarrow> provider_ref" where
  "source_ref c = \<lparr>pr_type = sc_type c, pr_name = sc_name c\<rparr>"

definition output_ref :: "output_config \<Rightarrow> provider_ref" where
  "output_ref c = \<lparr>pr_type = oc_type c, pr_name = oc_name c\<rparr>"

lemma started_outputs:
  assumes "naming_registry (st_registry S)" "start_app S cfg f = (Inr a, f')"
  shows "map out_provider (app_outputs a) = map output_ref (filter is_enabled (cf_outputs cfg))"
    and "map src_provider (app_sources a) = map source_ref (cf_sources cfg)"
proof -
  from assms(2) show "map out_provider (app_outputs a) = map output_ref (filter is_enabled (cf_outputs cfg))"
  proof (rule start_app_cases)
    fix resolved deps sources outputs
    assume 1: "resolve_secrets cfg (Some (st_lookup_env S)) = Inr resolved"
      "build_outputs (st_registry S) deps 0 (cf_outputs resolved) = Inr outputs"
      "a = new_app S deps (cf_state_path resolved) sources outputs"
    have "map out_provider (app_outputs a) = map output_ref (filter is_enabled (cf_outputs resolved))"
      using built_outputs [OF assms(1) 1(2)]
      by (simp add: 1(3) new_app_def set_providers_def wrapped_providers output_ref_def [abs_def])
    then show ?thesis
      by (simp add: resolved_config [OF 1(1)] filter_map comp_def output_ref_def)
  qed
  from assms(2) show "map src_provider (app_sources a) = map source_ref (cf_sources cfg)"
  proof (rule start_app_cases)
    fix resolved deps sources outputs
    assume 1: "resolve_secrets cfg (Some (st_lookup_env S)) = Inr resolved"
      "build_sources (st_registry S) deps 0 (cf_sources resolved) = Inr sources"
      "a = new_app S deps (cf_state_path resolved) sources outputs"
    show ?thesis
      using built_sources [OF assms(1) 1(2)]
      by (simp add: 1(3) new_app_def set_providers_def wrapped_providers source_ref_def [abs_def] resolved_config [OF 1(1)])
  qed
qed

definition sound_app :: "'w app \<Rightarrow> bool" where
  "sound_app a \<longleftrightarrow> 0 < rt_initial (app_retry a) \<and> 0 < rt_max_interval (app_retry a) \<and>
     0 < rt_max_elapsed (app_retry a) \<and> 0 < app_debounce a"

text \<open>
  The retry policy is the configured one, and every reading or writing call of a provider, as
  the factories have built it, ends within the configured operation timeout, ten seconds when
  none is given.
\<close>

definition configured_policy :: "parsers \<Rightarrow> config \<Rightarrow> retry_policy \<Rightarrow> bool" where
  "configured_policy lib cfg r \<longleftrightarrow> parse_duration lib (rc_initial_interval (cf_retry cfg)) = Inr (rt_initial r) \<and>
     parse_duration lib (rc_max_interval (cf_retry cfg)) = Inr (rt_max_interval r) \<and>
     parse_duration lib (rc_max_elapsed_time (cf_retry cfg)) = Inr (rt_max_elapsed r)"

definition configured_timeout :: "parsers \<Rightarrow> config \<Rightarrow> duration \<Rightarrow> bool" where
  "configured_timeout lib cfg t \<longleftrightarrow> 0 < t \<and>
     (if trim_space (cf_operation_timeout cfg) = [] then t = 10 * 10 ^ 9
      else parse_duration lib (trim_space (cf_operation_timeout cfg)) = Inr t)"

definition timed_providers :: "'w setting \<Rightarrow> config \<Rightarrow> duration \<Rightarrow> 'w app \<Rightarrow> bool" where
  "timed_providers S cfg t a \<longleftrightarrow>
     (\<exists>deps sources outputs. build_sources (st_registry S) deps 0 (cf_sources cfg) = Inr sources \<and>
        build_outputs (st_registry S) deps 0 (map (with_secrets (st_lookup_env S)) (cf_outputs cfg)) = Inr outputs \<and>
        list_all2 (limited_source t) sources (app_sources a) \<and> list_all2 (limited_output t) outputs (app_outputs a))"

lemma deps_configured:
  assumes "new_runtime_deps lib cfg = Inr deps"
  shows "configured_policy lib cfg (rd_retry deps)" "configured_timeout lib cfg (rd_operation_timeout deps)"
  using assms
  by (auto simp: new_runtime_deps_def configured_policy_def configured_timeout_def parse_retry_policy_def
      parse_operation_timeout_def default_operation_timeout_def Let_def split: sum.splits if_splits)

text \<open>
  C34: A daemon that starts has one source per configured source and one output per enabled
  output, in order and under their names; its retry intervals are the configured ones and
  positive, its debounce is positive, and its state file holds a snapshot. Listing a source
  and listing, creating, updating and deleting on an output do what the provider that the
  factories built does, under a deadline that is the earlier of that of the caller and the
  operation timeout from the start of the call; the timeout is the configured one, ten seconds
  when none is given, and positive.
\<close>

theorem validated_config_starts_soundly:
  assumes "new_default_factory_registry libs = Some (st_registry S)" "strict_durations (st_parsers S)"
    and "start_app S cfg f = (Inr a, f')"
  shows "map src_provider (app_sources a) = map source_ref (cf_sources cfg) \<and>
    map out_provider (app_outputs a) = map output_ref (filter is_enabled (cf_outputs cfg)) \<and>
    sound_app a \<and> configured_policy (st_parsers S) cfg (app_retry a) \<and>
    (\<exists>t. configured_timeout (st_parsers S) cfg t \<and> timed_providers S cfg t a) \<and>
    app_store a = cf_state_path cfg \<and> stored (app_store a) f' \<noteq> None"
proof -
  note outs = started_outputs [OF default_registry_names [OF assms(1)] assms(3)]
  from assms(3) show ?thesis
  proof (rule start_app_cases)
    fix resolved deps sources outputs
    assume 1: "validate (st_parsers S) cfg = None" "resolve_secrets cfg (Some (st_lookup_env S)) = Inr resolved"
      "new_runtime_deps (st_parsers S) resolved = Inr deps"
      "new_store (cf_state_path resolved) f = (Inr (cf_state_path resolved), f')"
      "build_sources (st_registry S) deps 0 (cf_sources resolved) = Inr sources"
      "build_outputs (st_registry S) deps 0 (cf_outputs resolved) = Inr outputs"
      "a = new_app S deps (cf_state_path resolved) sources outputs"
    have deps: "new_runtime_deps (st_parsers S) cfg = Inr deps"
      using 1(3) unfolding resolved_config [OF 1(2)] deps_of_resolved .
    have "timed_providers S cfg (rd_operation_timeout deps) a"
      unfolding timed_providers_def using 1(5,6)
      by (intro exI [of _ deps] exI [of _ sources] exI [of _ outputs])
        (simp add: 1(7) new_app_def set_providers_def resolved_config [OF 1(2)] wrapped_limited)
    moreover have "app_store a = cf_state_path cfg" "app_retry a = rd_retry deps" "app_debounce a = rd_watch_hint_debounce deps"
      by (simp_all add: 1(7) new_app_def set_providers_def resolved_config [OF 1(2)])
    moreover have "stored (cf_state_path cfg) f' \<noteq> None"
      using new_store_ready [OF 1(4)] by (simp add: resolved_config [OF 1(2)])
    moreover have "sound_app a"
      using new_runtime_deps_sound [OF assms(2) 1(1) deps] calculation(3,4) by (simp add: sound_app_def sound_deps_def)
    ultimately show ?thesis using outs deps_configured [OF deps] by auto
  qed
qed

section \<open>A running daemon\<close>

text \<open>The states that a run goes through between its passes.\<close>

inductive app_reaches :: "'w setting \<Rightarrow> config \<Rightarrow> 'w host \<Rightarrow> 'w app \<Rightarrow> 'w host \<Rightarrow> bool" for S cfg h where
  started: "start_app S cfg (ho_fs h) = (Inr a, f) \<Longrightarrow> app_reaches S cfg h a (h\<lparr>ho_fs := f\<rparr>)"
| reconciled: "start_app S cfg (ho_fs h) = (Inr a, f) \<Longrightarrow> reconcile a (h\<lparr>ho_fs := f\<rparr>) = Some (r, h') \<Longrightarrow>
    app_reaches S cfg h a h'"
| supervising: "start_app S cfg (ho_fs h) = (Inr a, f) \<Longrightarrow> reconcile a (h\<lparr>ho_fs := f\<rparr>) = Some (None, h1) \<Longrightarrow>
    steady_run a h1 ls d \<Longrightarrow> app_reaches S cfg h a (dm_host d)"

lemma app_run_reaches:
  assumes "app_run S cfg h r h'"
  shows "(\<exists>err. start_app S cfg (ho_fs h) = (Inl err, ho_fs h')) \<or> (\<exists>a. app_reaches S cfg h a h')"
  using assms by cases (auto intro: app_reaches.intros)

lemma reconcile_keeps_store:
  assumes "\<And>e. valid_time (app_calendar a e)" "reconcile a h = Some (r, h')"
  shows "keeps_store a h h'"
  using loop_keeps_store [OF assms(1) assms(2) [unfolded reconcile_def]] by simp

lemma run_pass_keeps_store:
  assumes "\<And>e. valid_time (app_calendar a e)" "run_pass a reason d = Some d'"
  shows "keeps_store a (dm_host d) (dm_host d')"
proof -
  obtain r h where "reconcile a (dm_host d) = Some (r, h)" "dm_host d' = h"
    using assms(2) by (auto simp: run_pass_def split: option.splits)
  then show ?thesis using reconcile_keeps_store [OF assms(1)] by blast
qed

lemma handle_event_keeps_store:
  assumes cal: "\<And>e. valid_time (app_calendar a e)" and "handle_event a ev d = Some d'"
  shows "keeps_store a (dm_host d) (dm_host d')"
proof -
  have pass: "keeps_store a (dm_host d) (dm_host d')" if "run_pass a reason d1 = Some d'" "dm_host d1 = dm_host d" for reason d1
    using run_pass_keeps_store [OF cal that(1)] that(2) by simp
  consider "se_hint ev" "handle_hint a (se_source ev) d = Some d'"
    | "handle_reconnect a (se_source ev) d = Some d'" | "handle_disconnect a (se_source ev) d = d'"
    using assms(2) by (auto simp: handle_event_def split: if_splits)
  then show ?thesis
  proof cases
    case 1
    then show ?thesis
      by (auto simp: handle_hint_def log_line_def Let_def intro: pass keeps_store_refl split: if_splits)
  next
    case 2
    then obtain reason d1 d3 where "run_pass a reason d1 = Some d3" "dm_host d1 = dm_host d" "dm_host d' = dm_host d3"
      by (auto simp: handle_reconnect_def start_source_watch_def log_line_def Let_def split: option.splits if_splits)
    with run_pass_keeps_store [OF cal this(1)] show ?thesis by simp
  next
    case 3
    then show ?thesis
      by (auto simp: handle_disconnect_def schedule_source_reconnect_def log_line_def Let_def intro: keeps_store_refl)
  qed
qed

lemma steady_keeps_store:
  assumes cal: "\<And>e. valid_time (app_calendar a e)" and run: "steady_run a h ls d"
  shows "keeps_store a h (dm_host d)"
  using run
proof (induction rule: steady_run.induct)
  case (start d)
  then show ?case
  proof (cases "watchable_indices a = []")
    case False
    with start obtain d1 where d1: "run_pass a ''watch_startup_handoff'' (start_watches a (idle_daemon h)) = Some d1"
      "dm_host d = dm_host d1" by (auto simp: steady_start_def split: option.splits if_splits)
    with run_pass_keeps_store [OF cal d1(1)] show ?thesis by simp
  qed (auto simp: steady_start_def idle_daemon_def intro: keeps_store_refl)
next
  case (step ls d l d')
  have "keeps_store a (dm_host d) (dm_host d')"
    using step.hyps(2)
  proof cases
    case loop_timer
    then show ?thesis using run_pass_keeps_store [OF cal] unfolding handle_timer_def by fastforce
  next
    case loop_event
    from handle_event_keeps_store [OF cal this(4)] show ?thesis by simp
  qed (auto simp: send_event_def intro: keeps_store_refl)
  with step.IH show ?case by (rule keeps_store_trans)
qed

text \<open>
  C10: For as long as a started daemon runs, through its first reconciliation and every
  interleaving of its supervision, the state file holds a snapshot and the owned records of
  outputs that are not enabled stay in it.
\<close>

theorem running_store_readable:
  assumes "naming_registry (st_registry S)" "\<And>e. valid_time (st_calendar S e)"
    and "start_app S cfg (ho_fs h) = (Inr a, f)" "app_reaches S cfg h a h'"
  shows "\<exists>s s'. stored (cf_state_path cfg) f = Some s \<and> stored (cf_state_path cfg) (ho_fs h') = Some s' \<and>
    (\<forall>p. p \<notin> output_ref ` set (filter is_enabled (cf_outputs cfg)) \<longrightarrow> owned_of p s' = owned_of p s)"
proof -
  obtain s where a: "app_calendar a = st_calendar S" "app_store a = cf_state_path cfg" "stored (cf_state_path cfg) f = Some s"
    using assms(3)
  proof (rule start_app_cases)
    fix resolved deps sources outputs
    assume 1: "resolve_secrets cfg (Some (st_lookup_env S)) = Inr resolved"
      "new_store (cf_state_path resolved) (ho_fs h) = (Inr (cf_state_path resolved), f)"
      "a = new_app S deps (cf_state_path resolved) sources outputs"
    show thesis
      using that new_store_ready [OF 1(2)] by (auto simp: 1(3) new_app_def set_providers_def resolved_config [OF 1(1)])
  qed
  have cal: "valid_time (app_calendar a e)" for e using assms(2) a(1) by simp
  have refs: "out_provider ` set (app_outputs a) = output_ref ` set (filter is_enabled (cf_outputs cfg))"
    using arg_cong [OF started_outputs(1) [OF assms(1,3)], of set] by (simp only: set_map)
  have "keeps_store a (h\<lparr>ho_fs := f\<rparr>) h'"
    using assms(4)
  proof cases
    case (started f1)
    then show ?thesis using assms(3) by (simp add: keeps_store_refl)
  next
    case (reconciled f1 r)
    then show ?thesis using assms(3) reconcile_keeps_store [OF cal] by simp
  next
    case (supervising f1 h1 ls d)
    then have "keeps_store a (h\<lparr>ho_fs := f\<rparr>) h1" "keeps_store a h1 h'"
      using assms(3) reconcile_keeps_store [OF cal] steady_keeps_store [OF cal] by simp_all
    then show ?thesis by (rule keeps_store_trans)
  qed
  then show ?thesis using a(2,3) refs by (simp add: keeps_store_def)
qed

end
