(* ===== verification/First_Sync.thy ===== *)
theory First_Sync
  imports Apply_Correct Adguard_Output
begin

text \<open>
  Reconciliation settles: a first pass over an output whose listing shows what has been created
  leaves a state in which the next plan calls nothing. The AdGuard output is such an output
  when its server keeps the rewrites it is given.
\<close>

section \<open>Plans over empty books\<close>

definition free_for :: "provider_ref \<Rightarrow> visible_record list \<Rightarrow> desired_record \<Rightarrow> bool" where
  "free_for out visible d \<longleftrightarrow>
     visible_with_key out visible (create_sort_key d) = [] \<and> visible_with_host out visible (d_hostname d) = []"

text \<open>The desired records can be told apart by their hostnames and by their keys.\<close>

definition told_apart :: "provider_ref \<Rightarrow> desired_record list \<Rightarrow> bool" where
  "told_apart out desired \<longleftrightarrow> plain_provider out \<and>
     (\<forall>d \<in> set desired. plain_source (d_source d) \<and> plain (d_hostname d)) \<and>
     (\<forall>d \<in> set desired. \<forall>d' \<in> set desired.
        normalize_hostname (d_hostname d) = normalize_hostname (d_hostname d') \<longrightarrow> d = d')"

lemma told_apartD:
  assumes "told_apart out desired" "d \<in> set desired" "d' \<in> set desired"
  shows "normalize_hostname (d_hostname d) = normalize_hostname (d_hostname d') \<Longrightarrow> d = d'"
    and "create_sort_key d = create_sort_key d' \<Longrightarrow> d = d'"
    and "desired_record_lineage_key out d = desired_record_lineage_key out d' \<Longrightarrow> d = d'"
    and "owned_display_lineage_key out (d_source d) (d_hostname d) =
      owned_display_lineage_key out (d_source d') (d_hostname d') \<Longrightarrow> d = d'"
proof -
  have plain: "plain_provider out" "plain_source (d_source d)" "plain_source (d_source d')"
    "plain (d_hostname d)" "plain (d_hostname d')" using assms by (simp_all add: told_apart_def)
  show host: "d = d'" if "normalize_hostname (d_hostname d) = normalize_hostname (d_hostname d')"
    using assms that unfolding told_apart_def by blast
  show "d = d'" if "create_sort_key d = create_sort_key d'"
    using that visible_record_key_inject [OF plain(4,5)] host by (simp add: create_sort_key_def)
  show "d = d'" if "desired_record_lineage_key out d = desired_record_lineage_key out d'"
    using that plain(1-3) host
    by (simp add: desired_record_lineage_key_def owned_lineage_key_inject plain_provider_def plain_source_def)
  show "d = d'" if "owned_display_lineage_key out (d_source d) (d_hostname d) =
      owned_display_lineage_key out (d_source d') (d_hostname d')"
    using display_lineage_hostname [OF plain(1-3) that] host by simp
qed

lemma told_apart_at:
  assumes "told_apart out desired" "d \<in> set desired"
  shows "desired_record_lineage_key out d |\<in>| fmdom (ix_desired_by_lineage (build_index out desired visible owned))"
    and "desired_at (build_index out desired visible owned) (desired_record_lineage_key out d) = d"
proof -
  show dom: "desired_record_lineage_key out d |\<in>| fmdom (ix_desired_by_lineage (build_index out desired visible owned))"
    unfolding index_desired fmdom_index_by using assms(2) by simp
  show "desired_at (build_index out desired visible owned) (desired_record_lineage_key out d) = d"
    using desired_at_mem [OF dom] told_apartD(3) [OF assms(1)] assms(2) by metis
qed

lemma idle_plan:
  fixes ords out desired visible owned
  defines "ix \<equiv> build_index out desired visible owned"
  defines "r \<equiv> build_reconcile_plan ords out desired visible owned"
  assumes "\<And>l. l |\<in>| fmdom (ix_desired_by_lineage ix) \<Longrightarrow>
      updated_by (action_at ix l) (desired_at ix l) = []"
    and "\<And>l. l |\<in>| fmdom (ix_owned_by_lineage ix) \<Longrightarrow> l |\<in>| fmdom (ix_desired_by_lineage ix)"
  shows "pl_updates r = [] \<and> pl_deletes r = [] \<and> pl_drops r = []"
proof -
  have quiet: "disposal_at ix (claimed_lineages ix) l = OClaimed" if "l |\<in>| fmdom (ix_owned_by_lineage ix)" for l
    using assms(4) [OF that] by (simp add: disposal_at_def dispose_def)
  have u: "concat (map (\<lambda>l. updated_by (action_at ix l) (desired_at ix l)) (desired_keys (po_desired ords) ix)) = []"
    by (rule concat_map_Nil) (simp add: assms(3))
  have d: "concat (map (\<lambda>l. deleted_by (disposal_at ix (claimed_lineages ix) l) (owned_at ix l)) (owned_keys (po_owned ords) ix)) = []"
    "concat (map (\<lambda>l. dropped_by (disposal_at ix (claimed_lineages ix) l) (owned_at ix l)) (owned_keys (po_owned ords) ix)) = []"
    by (rule concat_map_Nil, simp add: quiet)+
  show ?thesis
    unfolding r_def build_plan_lists u [unfolded ix_def] d [unfolded ix_def] by simp
qed

lemma empty_books_match:
  "owned_of out owned = [] \<Longrightarrow> match_owned (build_index out desired visible owned) l d = None"
  by (simp add: match_owned_def index_owned index_by_def index_owned_display index_owned_host)

lemma empty_books_plan:
  assumes books: "owned_of out owned = []" and hosts: "told_apart out desired"
    and r: "r = build_reconcile_plan ords out desired visible owned"
  shows "set (pl_creates r) = {d \<in> set desired. free_for out visible d}" "distinct (pl_creates r)"
    "pl_updates r = []" "pl_deletes r = []" "pl_drops r = []" "pl_next_managed r = []" "fmlookup (pl_create_drops r) l = None"
proof -
  let ?ix = "build_index out desired visible owned"
  have act: "action_at ?ix l = (if free_for out visible (desired_at ?ix l) then ACreate None else ASkip)" for l
    by (simp add: action_at_def decide_def empty_books_match [OF books] free_for_def group_simps)
  have none: "fmdom (ix_owned_by_lineage ?ix) = {||}" by (simp add: index_owned books index_by_def)
  have idle: "updated_by (action_at ?ix l) (desired_at ?ix l) = []" "kept_by out (action_at ?ix l) (desired_at ?ix l) = []"
    "create_drop l (action_at ?ix l) = None" for l by (simp_all add: act)
  have lists: "pl_updates r = [] \<and> pl_deletes r = [] \<and> pl_drops r = []"
    unfolding r by (rule idle_plan) (simp_all add: idle none)
  then show "pl_updates r = []" "pl_deletes r = []" "pl_drops r = []" by simp_all
  have range_none: "range_keys ord {||} = []" for ord using set_range_keys [of ord "{||}"] by (simp only: bot_fset.rep_eq set_empty)
  have kept: "concat (map (\<lambda>l. kept_by out (action_at ?ix l) (desired_at ?ix l)) ls) = []" for ls
    by (rule concat_map_Nil) (simp add: idle)
  show "pl_next_managed r = []" unfolding r build_plan_lists kept by (simp add: none range_none)
  show "fmlookup (pl_create_drops r) l = None"
    using build_plan_drop_maps(1) [of l out desired visible owned ords] idle(3) [of l]
      build_plan_drop_maps_dom(1) [of l out desired visible owned ords] unfolding r by metis
  show "set (pl_creates r) = {d \<in> set desired. free_for out visible d}"
  proof (intro set_eqI iffI)
    fix d assume "d \<in> set (pl_creates r)"
    then obtain l where l: "l |\<in>| fmdom (ix_desired_by_lineage ?ix)" "d \<in> set (created_by (action_at ?ix l) (desired_at ?ix l))"
      unfolding r build_plan_lists by auto
    then show "d \<in> {d \<in> set desired. free_for out visible d}"
      using desired_at_mem [OF l(1)] by (auto simp: act split: if_splits)
  next
    fix d assume d: "d \<in> {d \<in> set desired. free_for out visible d}"
    let ?l = "desired_record_lineage_key out d"
    have dom: "?l |\<in>| fmdom (ix_desired_by_lineage ?ix)" and at: "desired_at ?ix ?l = d"
      using told_apart_at [OF hosts] d by simp_all
    have "d \<in> set (created_by (action_at ?ix ?l) (desired_at ?ix ?l))" using d at by (simp add: act)
    then show "d \<in> set (pl_creates r)" unfolding r build_plan_lists using dom by auto
  qed
  show "distinct (pl_creates r)"
    using plan_lineage_distinct [of out ords desired visible owned] unfolding r
    by (simp add: distinct_map)
qed

section \<open>Outputs that show what they create\<close>

definition shows_record :: "provider_ref \<Rightarrow> desired_record \<Rightarrow> visible_record \<Rightarrow> bool" where
  "shows_record out d v \<longleftrightarrow> v_output v = out \<and> visible_key v = create_sort_key d \<and>
     normalize_hostname (v_hostname v) = normalize_hostname (d_hostname d)"

definition growing_output :: "'w output_port \<Rightarrow> ('w \<Rightarrow> visible_record list) \<Rightarrow> bool" where
  "growing_output out shown \<longleftrightarrow>
     (\<forall>w vs w'. out_list_visible out w = (Inr vs, w') \<longrightarrow> vs = shown w \<and> shown w' = shown w) \<and>
     (\<forall>d w prov w'. out_create out d w = (Inr prov, w') \<longrightarrow>
        (\<exists>v. shown w' = shown w @ [v] \<and> shows_record (out_provider out) d v))"

text \<open>The loop over the creates of a plan that moves nothing.\<close>

lemma creates_loop:
  assumes grows: "growing_output out shown" and moves: "\<And>l. fmlookup (pl_create_drops plan) l = None"
    and keys: "distinct (map (desired_record_lineage_key (out_provider out)) ds)"
    and run: "each_until_error (apply_create out now plan) ds st = (None, st')"
  shows "(\<exists>vs. shown (ap_world st') = shown (ap_world st) @ vs \<and> list_all2 (shows_record (out_provider out)) ds vs) \<and>
    (\<forall>d \<in> set ds. \<exists>prov. fmlookup (ap_records st') (desired_record_lineage_key (out_provider out) d) =
       Some (managed_of (out_provider out) d prov now)) \<and>
    (\<forall>l. l \<notin> desired_record_lineage_key (out_provider out) ` set ds \<longrightarrow>
       fmlookup (ap_records st') l = fmlookup (ap_records st) l)"
  using keys run
proof (induction ds arbitrary: st)
  case (Cons d ds)
  let ?p = "out_provider out"
  obtain prov w where c: "out_create out d (ap_world st) = (Inr prov, w)"
    using Cons.prems(2) by (auto simp: apply_create_def Let_def split: prod.splits sum.splits)
  let ?m = "managed_of ?p d (copy_record_provenance prov) now"
  let ?s1 = "st\<lparr>ap_world := w, ap_records := fmupd (desired_record_lineage_key ?p d) ?m (ap_records st), ap_progressed := True\<rparr>"
  have "apply_create out now plan d st = (None, ?s1)"
    by (simp add: apply_create_def c moves Let_def drop_moved_def)
  then have "each_until_error (apply_create out now plan) ds ?s1 = (None, st')" using Cons.prems(2) by simp
  moreover have "distinct (map (desired_record_lineage_key ?p) ds)" using Cons.prems(1) by simp
  ultimately have ih: "\<exists>vs. shown (ap_world st') = shown w @ vs \<and> list_all2 (shows_record ?p) ds vs"
    "\<forall>d \<in> set ds. \<exists>prov. fmlookup (ap_records st') (desired_record_lineage_key ?p d) = Some (managed_of ?p d prov now)"
    "\<forall>l. l \<notin> desired_record_lineage_key ?p ` set ds \<longrightarrow> fmlookup (ap_records st') l = fmlookup (ap_records ?s1) l"
    using Cons.IH [of ?s1] by simp_all
  obtain v where v: "shown w = shown (ap_world st) @ [v]" "shows_record ?p d v"
    using grows c unfolding growing_output_def by metis
  obtain vs where vs: "shown (ap_world st') = shown w @ vs" "list_all2 (shows_record ?p) ds vs" using ih(1) by blast
  have "shown (ap_world st') = shown (ap_world st) @ (v # vs)" "list_all2 (shows_record ?p) (d # ds) (v # vs)"
    using v vs by simp_all
  moreover have "fmlookup (ap_records st') (desired_record_lineage_key ?p d) = Some ?m"
    using ih(3) Cons.prems(1) by simp
  ultimately show ?case using ih(2,3) by auto
qed simp

lemma all2_right: "list_all2 P xs ys \<Longrightarrow> y \<in> set ys \<Longrightarrow> \<exists>x \<in> set xs. P x y"
  by (induction rule: list_all2_induct) auto

text \<open>Where one of the records created shows, nothing else that was created does.\<close>

lemma shown_once:
  assumes hosts: "told_apart out desired" and ds: "set ds \<subseteq> set desired" "distinct ds" "d \<in> set ds"
    and vs: "list_all2 (shows_record out) ds vs"
  shows "\<exists>v. visible_with_key out vs (create_sort_key d) = [v] \<and> visible_with_host out vs (d_hostname d) = [v]"
proof -
  obtain xs ys where split: "ds = xs @ d # ys" using ds(3) by (meson split_list)
  obtain us v ws where vsplit: "vs = us @ v # ws" "list_all2 (shows_record out) xs us" "shows_record out d v"
    "list_all2 (shows_record out) ys ws"
    using vs unfolding split list_all2_append1 list_all2_Cons1 by blast
  have other: "visible_key u \<noteq> create_sort_key d \<and> normalize_hostname (v_hostname u) \<noteq> normalize_hostname (d_hostname d)"
    if u: "u \<in> set us \<union> set ws" for u
  proof -
    have "\<exists>x \<in> set xs \<union> set ys. shows_record out x u"
      using u all2_right [OF vsplit(2)] all2_right [OF vsplit(4)] by blast
    then obtain x where x: "x \<in> set xs \<union> set ys" "shows_record out x u" by blast
    then have "x \<in> set desired" "x \<noteq> d" "d \<in> set desired" using ds split by auto
    then show ?thesis using told_apartD(1,2) [OF hosts, of x d] x(2) by (auto simp: shows_record_def)
  qed
  have "visible_with_key out vs (create_sort_key d) = [v]"
    using vsplit(3) other unfolding vsplit(1) visible_with_key_def by (simp add: shows_record_def filter_empty_conv)
  moreover have "visible_with_host out vs (d_hostname d) = [v]"
    using vsplit(3) other unfolding vsplit(1) visible_with_host_def by (simp add: shows_record_def filter_empty_conv)
  ultimately show ?thesis by blast
qed

lemma visible_append:
  "visible_with_key out (xs @ ys) k = visible_with_key out xs k @ visible_with_key out ys k"
  "visible_with_host out (xs @ ys) h = visible_with_host out xs h @ visible_with_host out ys h"
  by (simp_all add: visible_with_key_def visible_with_host_def)

section \<open>The second plan\<close>

text \<open>A first pass that succeeds: the output as it was listed, the plan, and what applying it leaves.\<close>

definition first_pass ::
  "'w output_port \<Rightarrow> plan_orders \<Rightarrow> utc_time \<Rightarrow> desired_record list \<Rightarrow> snapshot \<Rightarrow> visible_record list \<Rightarrow> 'w \<Rightarrow>
     reconcile_plan \<Rightarrow> snapshot \<Rightarrow> 'w \<Rightarrow> bool" where
  "first_pass out ords now desired owned visible w plan next w' \<longleftrightarrow>
     owned_of (out_provider out) owned = [] \<and>
     plan = build_reconcile_plan ords (out_provider out) desired visible owned \<and>
     (\<exists>progressed. apply_reconcile_plan out owned plan now w = ((next, progressed, None), w'))"

lemma first_pass_result:
  assumes grows: "growing_output out shown" and hosts: "told_apart (out_provider out) desired"
    and pass: "first_pass out ords now desired owned visible w plan nxt w'"
  shows "\<exists>vs. shown w' = shown w @ vs \<and> list_all2 (shows_record (out_provider out)) (pl_creates plan) vs"
    and "d \<in> set (pl_creates plan) \<Longrightarrow> \<exists>prov.
      fmlookup (index_by managed_record_lineage_key (owned_of (out_provider out) nxt))
        (desired_record_lineage_key (out_provider out) d) = Some (managed_of (out_provider out) d prov now)"
    and "m \<in> set (owned_of (out_provider out) nxt) \<Longrightarrow>
      \<exists>d \<in> set (pl_creates plan). \<exists>prov. m = managed_of (out_provider out) d prov now"
proof -
  let ?p = "out_provider out"
  obtain progressed where books: "owned_of ?p owned = []" and plan: "plan = build_reconcile_plan ords ?p desired visible owned"
    and run: "apply_reconcile_plan out owned plan now w = ((nxt, progressed, None), w')"
    using pass by (auto simp: first_pass_def)
  note empty = empty_books_plan [OF books hosts plan]
  obtain recs where wf: "lineage_wf ?p recs"
    and nxt: "nxt = snapshot_with_output_records (filter (\<lambda>m. m_output m \<noteq> ?p) (sn_managed_records owned)) recs"
    and calls: "apply_calls out now plan \<lparr>ap_world = w,
         ap_records = fold (apply_keep now plan) (pl_next_managed plan)
           (apply_drops plan (index_by managed_record_lineage_key (owned_of ?p owned))), ap_progressed = False\<rparr> =
      (None, \<lparr>ap_world = w', ap_records = recs, ap_progressed = progressed\<rparr>)"
    using apply_result [OF _ run] plan_next_output plan by metis
  let ?st = "\<lparr>ap_world = w, ap_records = fmempty, ap_progressed = False\<rparr>"
  let ?st' = "\<lparr>ap_world = w', ap_records = recs, ap_progressed = progressed\<rparr>"
  have start: "fold (apply_keep now plan) (pl_next_managed plan)
      (apply_drops plan (index_by managed_record_lineage_key (owned_of ?p owned))) = fmempty"
    using empty(5,6) books by (simp add: apply_drops_def index_by_def)
  have loop: "each_until_error (apply_create out now plan) (pl_creates plan) ?st = (None, ?st')"
    using calls empty(3,4) unfolding start apply_calls_def by (auto split: prod.splits option.splits)
  have "inj_on (desired_record_lineage_key ?p) (set (pl_creates plan))"
    using empty(1) told_apartD(3) [OF hosts] by (auto intro: inj_onI)
  then have "distinct (map (desired_record_lineage_key ?p) (pl_creates plan))"
    using empty(2) by (simp add: distinct_map)
  note created = creates_loop [OF grows empty(7) this loop]
  have index: "index_by managed_record_lineage_key (owned_of ?p nxt) = recs"
    unfolding nxt by (rule snapshot_index [OF wf]) simp
  show "\<exists>vs. shown w' = shown w @ vs \<and> list_all2 (shows_record ?p) (pl_creates plan) vs" using created by simp
  show "\<exists>prov. fmlookup (index_by managed_record_lineage_key (owned_of ?p nxt)) (desired_record_lineage_key ?p d) =
      Some (managed_of ?p d prov now)" if "d \<in> set (pl_creates plan)"
    using created that unfolding index by simp
  show "\<exists>d \<in> set (pl_creates plan). \<exists>prov. m = managed_of ?p d prov now" if m: "m \<in> set (owned_of ?p nxt)"
  proof -
    have own: "owned_of ?p nxt = map (\<lambda>l. the (fmlookup recs l)) (sorted_list_of_fset (fmdom recs))"
      unfolding nxt by (rule snapshot_own [OF wf]) simp
    obtain l where l: "l \<in> fset (fmdom recs)" "m = the (fmlookup recs l)" using m unfolding own by auto
    then have lm: "fmlookup recs l = Some m" using lookup_in_dom by fastforce
    have "l \<in> desired_record_lineage_key ?p ` set (pl_creates plan)"
    proof (rule ccontr)
      assume "l \<notin> desired_record_lineage_key ?p ` set (pl_creates plan)"
      then have "fmlookup recs l = None" using created by simp
      with lm show False by simp
    qed
    then show ?thesis using created lm by fastforce
  qed
qed

lemma first_pass_settles:
  assumes grows: "growing_output out shown" and hosts: "told_apart (out_provider out) desired"
    and pass: "first_pass out ords now desired owned (shown w) w plan nxt w'"
    and r: "r = build_reconcile_plan ords' (out_provider out) desired (shown w') nxt"
  shows "pl_creates r = [] \<and> pl_updates r = [] \<and> pl_deletes r = [] \<and> pl_drops r = []"
proof -
  let ?p = "out_provider out"
  let ?ix = "build_index ?p desired (shown w') nxt"
  have books: "owned_of ?p owned = []" "plan = build_reconcile_plan ords ?p desired (shown w) owned"
    using pass by (auto simp: first_pass_def)
  note created = empty_books_plan(1,2) [OF books(1) hosts books(2)]
  note res = first_pass_result [OF grows hosts pass]
  obtain vs where vs: "shown w' = shown w @ vs" "list_all2 (shows_record ?p) (pl_creates plan) vs" using res(1) by blast
  have act: "(\<exists>m v. action_at ?ix l = AKeep m v) \<or> action_at ?ix l = ASkip"
    if l: "l |\<in>| fmdom (ix_desired_by_lineage ?ix)" for l
  proof -
    define d where "d = desired_at ?ix l"
    have d: "d \<in> set desired" "desired_record_lineage_key ?p d = l" using desired_at_mem [OF l] d_def by simp_all
    show ?thesis
    proof (cases "d \<in> set (pl_creates plan)")
      case True
      obtain prov where m: "fmlookup (ix_owned_by_lineage ?ix) l = Some (managed_of ?p d prov now)"
        using res(2) [OF True] d(2) by (auto simp: index_owned)
      obtain v where v: "visible_with_key ?p vs (create_sort_key d) = [v]" "visible_with_host ?p vs (d_hostname d) = [v]"
        using shown_once [OF hosts _ created(2) True vs(2)] created(1) by auto
      have free: "free_for ?p (shown w) d" using True created(1) by simp
      have "owned_key (managed_of ?p d prov now) = create_sort_key d"
        by (simp add: owned_key_def managed_of_def create_sort_key_def)
      moreover have "visible_key v = create_sort_key d"
        using v(1) singleton_filterD unfolding visible_with_key_def by fastforce
      ultimately have "decide ?ix l d = AKeep (managed_of ?p d prov now) v"
        using m v free by (simp add: decide_def match_owned_def decide_owned_def group_simps vs(1) visible_append free_for_def)
      then show ?thesis unfolding action_at_def d_def by blast
    next
      case False
      have other: "d' \<noteq> d \<and> d' \<in> set desired" if "d' \<in> set (pl_creates plan)" for d' using that False created(1) by auto
      have none: "match_owned ?ix l d = None"
      proof (rule ccontr)
        assume "match_owned ?ix l d \<noteq> None"
        then obtain m b where m: "match_owned ?ix l d = Some (m, b)" by (cases "match_owned ?ix l d") auto
        have own: "m \<in> set (owned_of ?p nxt)" "if b then same_host d m else same_lineage ?p d m"
          using match_ownedD [OF m d(2) [symmetric]] by simp_all
        obtain d' prov where d': "d' \<in> set (pl_creates plan)" "m = managed_of ?p d' prov now" using res(3) [OF own(1)] by blast
        have "d' = d"
          using own(2) told_apartD [OF hosts, of d' d] other [OF d'(1)] d(1) unfolding d'(2)
          by (auto simp: same_host_def same_lineage_def managed_of_def managed_record_lineage_key_def
              desired_record_lineage_key_def split: if_splits)
        with other [OF d'(1)] show False by simp
      qed
      have "\<not> free_for ?p (shown w) d" using False d(1) created(1) by simp
      then have "decide ?ix l d = ASkip"
        using none by (auto simp: decide_def group_simps vs(1) visible_append free_for_def)
      then show ?thesis unfolding action_at_def d_def by blast
    qed
  qed
  have idle: "created_by (action_at ?ix l) (desired_at ?ix l) = []" "updated_by (action_at ?ix l) (desired_at ?ix l) = []"
    if "l |\<in>| fmdom (ix_desired_by_lineage ?ix)" for l
    using act [OF that] by auto
  have dom: "l |\<in>| fmdom (ix_desired_by_lineage ?ix)" if l: "l |\<in>| fmdom (ix_owned_by_lineage ?ix)" for l
  proof -
    have "owned_at ?ix l \<in> set (owned_of ?p nxt)" "managed_record_lineage_key (owned_at ?ix l) = l"
      using owned_at_mem [OF l] by simp_all
    then obtain d prov where "d \<in> set (pl_creates plan)" "l = managed_record_lineage_key (managed_of ?p d prov now)"
      using res(3) by metis
    then show ?thesis using told_apart_at(1) [OF hosts] created(1) by simp
  qed
  have none: "concat (map (\<lambda>l. created_by (action_at ?ix l) (desired_at ?ix l)) (desired_keys (po_desired ords') ?ix)) = []"
    by (rule concat_map_Nil) (simp add: idle)
  have "pl_creates r = []" unfolding r build_plan_lists none by simp
  moreover have "pl_updates r = [] \<and> pl_deletes r = [] \<and> pl_drops r = []"
    unfolding r by (rule idle_plan) (simp_all add: idle dom)
  ultimately show ?thesis by simp
qed

text \<open>What has been created shows once: the output is as ambiguous as it was.\<close>

lemma first_pass_ambiguities:
  assumes grows: "growing_output out shown" and hosts: "told_apart (out_provider out) desired"
    and pass: "first_pass out ords now desired owned (shown w) w plan nxt w'"
    and r: "r = build_reconcile_plan ords' (out_provider out) desired (shown w') nxt"
  shows "pl_ambiguities r = [] \<longleftrightarrow> pl_ambiguities plan = []"
proof -
  let ?p = "out_provider out"
  have books: "owned_of ?p owned = []" "plan = build_reconcile_plan ords ?p desired (shown w) owned"
    using pass by (auto simp: first_pass_def)
  note created = empty_books_plan(1,2) [OF books(1) hosts books(2)]
  obtain vs where vs: "shown w' = shown w @ vs" "list_all2 (shows_record ?p) (pl_creates plan) vs"
    using first_pass_result(1) [OF grows hosts pass] by blast
  have "length (visible_with_key ?p (shown w') k) \<le> 1 \<longleftrightarrow> length (visible_with_key ?p (shown w) k) \<le> 1" for k
  proof (cases "\<exists>d \<in> set (pl_creates plan). create_sort_key d = k")
    case True
    then obtain d where d: "d \<in> set (pl_creates plan)" "create_sort_key d = k" by blast
    obtain v where v: "visible_with_key ?p vs k = [v]"
      using shown_once [OF hosts _ created(2) d(1) vs(2)] created(1) d(2) by auto
    have "visible_with_key ?p (shown w) k = []" using d created(1) by (auto simp: free_for_def)
    with v show ?thesis by (simp add: vs(1) visible_append)
  next
    case False
    have "visible_with_key ?p vs k = []"
      using all2_right [OF vs(2)] False unfolding visible_with_key_def filter_empty_conv shows_record_def by metis
    then show ?thesis by (simp add: vs(1) visible_append)
  qed
  then show ?thesis unfolding r books(2) by (simp add: build_plan_lists find_ambiguities_iff)
qed

section \<open>AdGuard\<close>

text \<open>
  What is relied on of an AdGuard Home server, on the requests it answers with success: a
  listing is the JSON text of the rewrites it keeps, and an addition appends one. \<open>rewrites\<close>
  reads them off the state.
\<close>

definition rewrite_server :: "'w adguard_provider \<Rightarrow> ('w \<Rightarrow> rewrite_item list) \<Rightarrow> bool" where
  "rewrite_server p rewrites \<longleftrightarrow>
     (\<forall>rq w resp w'. hc_do (ag_client p) rq w = (Inr resp, w') \<and> 200 \<le> rs_status resp \<and> rs_status resp < 300 \<longrightarrow>
        (rq_method rq = ''GET'' \<and> rq_url rq = trim_right_slash (ag_base_url p) @ ''/control/rewrite/list'' \<longrightarrow>
           rewrites w' = rewrites w \<and>
           (\<exists>j. json_decode (rs_body resp) = Some j \<and> decode_rewrites j = Inr (rewrites w))) \<and>
        (\<forall>r. rq_method rq = ''POST'' \<and> rq_url rq = trim_right_slash (ag_base_url p) @ ''/control/rewrite/add'' \<and>
             rq_body rq = Some (encode_rewrite r) \<longrightarrow> rewrites w' = rewrites w @ [r]))"

lemma request_ok:
  assumes "request_json p method path body w = (Inr answer, w')"
  shows "\<exists>resp. hc_do (ag_client p) \<lparr>rq_method = method, rq_url = trim_right_slash (ag_base_url p) @ path,
      rq_username = ag_username p, rq_password = ag_password p, rq_body = body\<rparr> w = (Inr resp, w') \<and>
    200 \<le> rs_status resp \<and> rs_status resp < 300 \<and> rs_body resp = answer"
  using assms by (auto simp: request_json_def Let_def not_less not_le split: if_splits option.splits sum.splits prod.splits)

lemma shows_rewrite: "shows_record ref d (visible_of_rewrite ref (rewrite_of_desired d))"
proof -
  have "same_text (trim_space s) s" for s by (simp add: same_text_def trim_space_to_lower)
  then show ?thesis
    by (simp add: shows_record_def visible_of_rewrite_def rewrite_of_desired_def visible_key_def create_sort_key_def
        visible_record_key_def hostname_norm.norm_same_text [of "trim_space (d_hostname d)" "d_hostname d"]
        answer_norm.norm_same_text [of "trim_space (d_answer d)" "d_answer d"])
qed

lemma adguard_grows:
  assumes server: "rewrite_server p rewrites"
  shows "growing_output (adguard_output p) (\<lambda>w. map (visible_of_rewrite (ag_ref p)) (rewrites w))"
  unfolding growing_output_def
proof (intro conjI allI impI)
  fix w vs w'
  assume "out_list_visible (adguard_output p) w = (Inr vs, w')"
  then obtain answer j rs where r: "request_json p ''GET'' ''/control/rewrite/list'' None w = (Inr answer, w')"
    "json_decode answer = Some j" "decode_rewrites j = Inr rs" "vs = map (visible_of_rewrite (ag_ref p)) rs"
    by (auto simp: adguard_output_def adguard_list_visible_def split: prod.splits sum.splits option.splits)
  from request_ok [OF r(1)] server have "rewrites w' = rewrites w \<and> rs = rewrites w"
    using r(2,3) unfolding rewrite_server_def by fastforce
  then show "vs = map (visible_of_rewrite (ag_ref p)) (rewrites w)"
    "map (visible_of_rewrite (ag_ref p)) (rewrites w') = map (visible_of_rewrite (ag_ref p)) (rewrites w)"
    using r(4) by simp_all
next
  fix d w prov w'
  assume "out_create (adguard_output p) d w = (Inr prov, w')"
  then obtain answer where r: "request_json p ''POST'' ''/control/rewrite/add'' (Some (encode_rewrite (rewrite_of_desired d))) w = (Inr answer, w')"
    by (auto simp: adguard_output_def adguard_create_def request_only_def split: prod.splits sum.splits)
  from request_ok [OF r] server have "rewrites w' = rewrites w @ [rewrite_of_desired d]"
    unfolding rewrite_server_def by fastforce
  then show "\<exists>v. map (visible_of_rewrite (ag_ref p)) (rewrites w') = map (visible_of_rewrite (ag_ref p)) (rewrites w) @ [v] \<and>
      shows_record (out_provider (adguard_output p)) d v"
    using shows_rewrite by (auto simp: adguard_output_def)
qed

text \<open>The wrappers of the runtime change only what the rewrites do not depend on.\<close>

lemma wrapped_grows:
  assumes grows: "growing_output base shown"
    and blind: "\<And>e x. shown (e\<lparr>env_deadline := x\<rparr>) = shown e" "\<And>e x. shown (e\<lparr>env_log := x\<rparr>) = shown e"
  shows "growing_output (logging_output (timeout_output t base)) shown"
proof -
  have undo: "\<exists>e1 e2. op e1 = (r, e2) \<and> shown e1 = shown e \<and> shown e2 = shown e'"
    if "with_operation_timeout t op e = (r, e')" for op :: "('a env, 'x) io" and r e e'
  proof -
    define e1 where "e1 = e\<lparr>env_deadline :=
      Some (case env_deadline e of None \<Rightarrow> env_clock e + t | Some t' \<Rightarrow> min t' (env_clock e + t))\<rparr>"
    obtain q e2 where q: "op e1 = (q, e2)" by fastforce
    then have "r = q" "e' = e2\<lparr>env_deadline := env_deadline e\<rparr>"
      using that by (simp_all add: with_operation_timeout_def Let_def e1_def)
    then show ?thesis using q blind by (auto simp: e1_def)
  qed
  have lists: "vs = shown w \<and> shown w' = shown w" if "out_list_visible base w = (Inr vs, w')" for vs w w'
    using grows that unfolding growing_output_def by blast
  have creates: "\<exists>v. shown w' = shown w @ [v] \<and> shows_record (out_provider base) d v"
    if "out_create base d w = (Inr prov, w')" for d w prov w'
    using grows that unfolding growing_output_def by blast
  show ?thesis
    unfolding growing_output_def
  proof (intro conjI allI impI)
    fix w vs w'
    assume "out_list_visible (logging_output (timeout_output t base)) w = (Inr vs, w')"
    then obtain e1 e2 where "out_list_visible base e1 = (Inr vs, e2)" "shown e1 = shown w" "shown e2 = shown w'"
      using undo [of "out_list_visible base" w "Inr vs" w'] by (auto simp: logging_output_def timeout_output_def)
    then show "vs = shown w" "shown w' = shown w" using lists by metis+
  next
    fix d w prov w'
    assume "out_create (logging_output (timeout_output t base)) d w = (Inr prov, w')"
    then obtain w1 where w1: "with_operation_timeout t (out_create base d) w = (Inr prov, w1)" "shown w' = shown w1"
      using blind by (auto simp: logging_output_def timeout_output_def logged_def log_mutation_def split: prod.splits sum.splits)
    then obtain e1 e2 where "out_create base d e1 = (Inr prov, e2)" "shown e1 = shown w" "shown e2 = shown w'"
      using undo [OF w1(1)] by metis
    then show "\<exists>v. shown w' = shown w @ [v] \<and> shows_record (out_provider (logging_output (timeout_output t base))) d v"
      using creates [of d e1 prov e2] unfolding provider_wrapped by simp
  qed
qed

definition outside_rewrites :: "('w env \<Rightarrow> rewrite_item list) \<Rightarrow> bool" where
  "outside_rewrites rewrites \<longleftrightarrow>
     (\<forall>e x. rewrites (e\<lparr>env_deadline := x\<rparr>) = rewrites e) \<and> (\<forall>e x. rewrites (e\<lparr>env_log := x\<rparr>) = rewrites e)"

text \<open>
  C14: A first reconciliation of an AdGuard server settles. When nothing is owned, no two
  desired records share a hostname, their fields are free of the separator of the keys, and
  the pass ends without an error, it has only added: one rewrite for each desired record whose
  hostname was free. The plan made from the next listing then calls nothing and drops nothing,
  and is ambiguous only if the first one was.
\<close>

theorem adguard_first_sync_settles:
  assumes "rewrite_server p rewrites" "outside_rewrites rewrites" "told_apart (ag_ref p) desired"
    and out: "out = logging_output (timeout_output t (adguard_output p))"
    and "out_list_visible out w0 = (Inr visible, w1)"
    and "first_pass out ords now desired owned visible w1 plan next w2"
    and "out_list_visible out w2 = (Inr visible', w3)"
    and "r = build_reconcile_plan ords' (ag_ref p) desired visible' next"
  shows "(\<exists>vs. visible' = visible @ vs \<and> list_all2 (shows_record (ag_ref p)) (pl_creates plan) vs) \<and>
    set (pl_creates plan) = {d \<in> set desired. free_for (ag_ref p) visible d} \<and>
    pl_creates r = [] \<and> pl_updates r = [] \<and> pl_deletes r = [] \<and> pl_drops r = [] \<and>
    (pl_ambiguities r = [] \<longleftrightarrow> pl_ambiguities plan = [])"
proof -
  define shown where "shown w = map (visible_of_rewrite (ag_ref p)) (rewrites w)" for w
  have grows: "growing_output out shown"
    unfolding out shown_def
    by (rule wrapped_grows [OF adguard_grows [OF assms(1)]]) (use assms(2) in \<open>auto simp: outside_rewrites_def\<close>)
  have ref: "out_provider out = ag_ref p" by (simp add: out adguard_output_def)
  have lists: "vs = shown w \<and> shown w' = shown w" if "out_list_visible out w = (Inr vs, w')" for vs w w'
    using grows that unfolding growing_output_def by blast
  have v: "visible = shown w1" "visible' = shown w2" using lists [OF assms(5)] lists [OF assms(7)] by simp_all
  note pass = assms(6) [unfolded v(1)]
  note hosts = assms(3) [folded ref]
  have books: "owned_of (ag_ref p) owned = []" "plan = build_reconcile_plan ords (ag_ref p) desired (shown w1) owned"
    using pass by (simp_all add: first_pass_def ref)
  show ?thesis
    using first_pass_result(1) [OF grows hosts pass] first_pass_settles [OF grows hosts pass]
      first_pass_ambiguities [OF grows hosts pass] empty_books_plan(1) [OF books(1) assms(3) books(2)] assms(8)
    unfolding ref v by blast
qed

end
