(* ===== verification/Cloudflare_Correct.thy ===== *)
theory Cloudflare_Correct
  imports Cloudflare_Output
begin

text \<open>
  How a failure of the Cloudflare client reaches the runtime: what the redaction leaves of its
  text, and which class, causes and cancellation the error of each operation has.
\<close>

section \<open>Redaction\<close>

definition bearer_at :: "string \<Rightarrow> bool" where
  "bearer_at s \<longleftrightarrow> (\<exists>w sp k more. s = w @ sp @ k # more \<and> to_lower w = ''bearer'' \<and> sp \<noteq> [] \<and>
     (\<forall>c \<in> set sp. re_space c) \<and> token_char k)"

lemma prefix_to_lower: "has_prefix (to_lower s) w \<longleftrightarrow> (\<exists>u t. s = u @ t \<and> to_lower u = w)"
proof
  assume "has_prefix (to_lower s) w"
  then obtain t where "to_lower s = w @ t" by (auto simp: has_prefix_def prefix_def)
  then have "to_lower (take (length w) s) = w" unfolding to_lower_take by simp
  then show "\<exists>u t. s = u @ t \<and> to_lower u = w" by (metis append_take_drop_id)
qed (auto simp: has_prefix_def)

lemma match_token_iff:
  "match_token s \<noteq> None \<longleftrightarrow> (\<exists>sp k more. s = sp @ k # more \<and> sp \<noteq> [] \<and> (\<forall>c \<in> set sp. re_space c) \<and> token_char k)"
proof
  assume m: "match_token s \<noteq> None"
  let ?u = "dropWhile re_space s"
  have u: "length ?u \<noteq> length s" "?u \<noteq> []" "token_char (hd ?u)" using m by (auto simp: match_token_def Let_def split: if_splits)
  have "s = takeWhile re_space s @ hd ?u # tl ?u" using u(2) by simp
  moreover have "takeWhile re_space s \<noteq> []" using u(1) by (metis append_Nil takeWhile_dropWhile_id)
  ultimately show "\<exists>sp k more. s = sp @ k # more \<and> sp \<noteq> [] \<and> (\<forall>c \<in> set sp. re_space c) \<and> token_char k"
    using u(3) set_takeWhileD by metis
next
  assume "\<exists>sp k more. s = sp @ k # more \<and> sp \<noteq> [] \<and> (\<forall>c \<in> set sp. re_space c) \<and> token_char k"
  then obtain sp k more where s: "s = sp @ k # more" "sp \<noteq> []" "\<forall>c \<in> set sp. re_space c" "token_char k" by blast
  then have "dropWhile re_space s = k # more" by (simp add: dropWhile_append token_char_def)
  with s show "match_token s \<noteq> None" by (simp add: match_token_def)
qed

lemma match_bearer_iff: "match_bearer s \<noteq> None \<longleftrightarrow> bearer_at s"
proof -
  let ?w = "''bearer''"
  have w: "match_word ?w s = (if \<exists>u t. s = u @ t \<and> to_lower u = ?w then Some (drop (length ?w) s) else None)"
    unfolding match_word_def prefix_to_lower by (rule refl)
  have d: "drop (length ?w) s = t" if "s = u @ t" "to_lower u = ?w" for u t
    unfolding that(2) [symmetric] that(1) by simp
  have "match_bearer s \<noteq> None \<longleftrightarrow> (\<exists>u t. s = u @ t \<and> to_lower u = ?w \<and> match_token t \<noteq> None)"
  proof (cases "\<exists>u t. s = u @ t \<and> to_lower u = ?w")
    case True
    then obtain u t where u: "s = u @ t" "to_lower u = ?w" by blast
    have m: "match_bearer s = match_token t" unfolding match_bearer_def w using True d [OF u] by simp
    show ?thesis
    proof
      assume "\<exists>u t. s = u @ t \<and> to_lower u = ?w \<and> match_token t \<noteq> None"
      then obtain u' t' where "s = u' @ t'" "to_lower u' = ?w" "match_token t' \<noteq> None" by blast
      then show "match_bearer s \<noteq> None" using m d [OF u] d by metis
    next
      assume "match_bearer s \<noteq> None"
      then have "s = u @ t \<and> to_lower u = ?w \<and> match_token t \<noteq> None" using m u by simp
      then show "\<exists>u t. s = u @ t \<and> to_lower u = ?w \<and> match_token t \<noteq> None" by (intro exI)
    qed
  next
    case False
    have "match_word ?w s = None" unfolding w by (rule if_not_P [OF False])
    then have "match_bearer s = None" by (simp add: match_bearer_def)
    with False show ?thesis by blast
  qed
  then show ?thesis unfolding match_token_iff bearer_at_def by blast
qed

lemma bearer_first:
  assumes "bearer_at (c # cs)"
  shows "to_lower_char c = CHR ''b''"
proof -
  obtain w sp k more where w: "c # cs = w @ sp @ k # more" "to_lower w = ''bearer''" using assms unfolding bearer_at_def by blast
  then show ?thesis by (cases w) (auto simp: to_lower_def)
qed

lemma bracket_no_word: "to_lower w = ''bearer'' \<Longrightarrow> CHR ''['' \<notin> set w"
proof
  assume w: "to_lower w = ''bearer''" "CHR ''['' \<in> set w"
  then have "to_lower_char (CHR ''['') \<in> set ''bearer''" unfolding to_lower_def by (metis image_eqI list.set_map)
  moreover have "to_lower_char (CHR ''['') = CHR ''[''" by (simp add: to_lower_char_def)
  ultimately show False by simp
qed

lemma token_b: "to_lower_char c = CHR ''b'' \<Longrightarrow> token_char c"
proof -
  assume b: "to_lower_char c = CHR ''b''"
  have "to_lower_char (CHR '' '') \<noteq> CHR ''b''" "to_lower_char (CHR 0x09) \<noteq> CHR ''b''" "to_lower_char (CHR 0x0A) \<noteq> CHR ''b''"
    "to_lower_char (CHR 0x0C) \<noteq> CHR ''b''" "to_lower_char (CHR 0x0D) \<noteq> CHR ''b''" "to_lower_char (CHR '','') \<noteq> CHR ''b''"
    "to_lower_char (CHR '';'') \<noteq> CHR ''b''" by (simp_all add: to_lower_char_def)
  with b show ?thesis unfolding token_char_def re_space_def by auto
qed

text \<open>The output copies its input up to the first match.\<close>

lemma replace_prefix:
  "\<exists>x rest t. s = x @ rest \<and> replace_matches match_bearer s = x @ t \<and>
     (rest = [] \<and> t = [] \<or> bearer_at rest \<and> (\<exists>t'. t = redacted @ t'))"
proof (induction s)
  case Nil
  show ?case by (intro exI [of _ "[]"]) simp
next
  case (Cons c cs)
  show ?case
  proof (cases "match_bearer (c # cs)")
    case None
    obtain x rest t where x: "cs = x @ rest" "replace_matches match_bearer cs = x @ t"
      "rest = [] \<and> t = [] \<or> bearer_at rest \<and> (\<exists>t'. t = redacted @ t')" using Cons.IH by blast
    show ?thesis
      by (intro exI [of _ "c # x"] exI [of _ rest] exI [of _ t]) (use None x in simp)
  next
    case (Some r)
    then have "bearer_at (c # cs)" using match_bearer_iff [of "c # cs"] by simp
    moreover have "replace_matches match_bearer (c # cs) = redacted @ replace_matches match_bearer r"
      using Some match_bearer_length [OF Some] by simp
    ultimately show ?thesis
      by (intro exI [of _ "[]"] exI [of _ "c # cs"] exI [of _ "redacted @ replace_matches match_bearer r"])
        (simp del: replace_matches.simps)
  qed
qed

lemma bearer_after_copy:
  assumes "bearer_at (c # replace_matches match_bearer cs)"
  shows "bearer_at (c # cs)"
proof -
  obtain x rest t where x: "cs = x @ rest" "replace_matches match_bearer cs = x @ t"
    "rest = [] \<and> t = [] \<or> bearer_at rest \<and> (\<exists>t'. t = redacted @ t')" using replace_prefix by blast
  show ?thesis
  proof (cases "rest = [] \<and> t = []")
    case True
    then show ?thesis using assms x(1,2) by simp
  next
    case False
    then obtain t' where t: "t = CHR ''['' # t'" and rest: "bearer_at rest" using x(3) by (auto simp: redacted_def)
    obtain w sp k more where w: "(c # x) @ CHR ''['' # t' = (w @ sp) @ k # more" "to_lower w = ''bearer''" "sp \<noteq> []"
      "\<forall>c \<in> set sp. re_space c" "token_char k" using assms x(2) t unfolding bearer_at_def by auto
    have "CHR ''['' \<notin> set (w @ sp)" using bracket_no_word [OF w(2)] w(4) by (auto simp: re_space_def)
    have "(\<exists>z. c # x = (w @ sp) @ z \<and> z @ CHR ''['' # t' = k # more) \<or> (\<exists>z. (c # x) @ z = w @ sp \<and> CHR ''['' # t' = z @ k # more)"
      using w(1) unfolding append_eq_append_conv2 [of "c # x" "CHR ''['' # t'" "w @ sp" "k # more"] by auto
    moreover have "\<not> ((c # x) @ z = w @ sp \<and> CHR ''['' # t' = z @ k # more \<and> z \<noteq> [])" for z
    proof
      assume z: "(c # x) @ z = w @ sp \<and> CHR ''['' # t' = z @ k # more \<and> z \<noteq> []"
      then have "CHR ''['' \<in> set z" by (cases z) auto
      then have "CHR ''['' \<in> set (w @ sp)" using z by (metis Un_iff set_append)
      with \<open>CHR ''['' \<notin> set (w @ sp)\<close> show False by blast
    qed
    ultimately obtain z where z: "c # x = (w @ sp) @ z" "z @ CHR ''['' # t' = k # more"
      by (metis append_Nil append_Nil2)
    show ?thesis
    proof (cases z)
      case Nil
      obtain r0 rs where r0: "rest = r0 # rs" using rest by (cases rest) (auto simp: bearer_at_def)
      then have "token_char r0" using rest bearer_first token_b by blast
      then show ?thesis
        unfolding bearer_at_def using z(1) Nil w(2-4) r0 x(1)
        by (intro exI [of _ w] exI [of _ sp] exI [of _ r0] exI [of _ rs]) simp
    next
      case (Cons z0 zs)
      then show ?thesis
        unfolding bearer_at_def using z w(2-5) x(1)
        by (intro exI [of _ w] exI [of _ sp] exI [of _ k] exI [of _ "zs @ rest"]) simp
    qed
  qed
qed

lemma redacted_suffix: "redacted @ s = u @ v \<Longrightarrow> bearer_at v \<Longrightarrow> \<exists>u'. s = u' @ v"
proof -
  assume eq: "redacted @ s = u @ v" and v: "bearer_at v"
  show ?thesis
  proof (cases "length redacted \<le> length u")
    case True
    with eq show ?thesis by (metis append_eq_append_conv_if)
  next
    case False
    obtain c v' where c: "v = c # v'" using v by (cases v) (simp_all add: bearer_at_def)
    have "c = redacted ! length u" using arg_cong [OF eq, of "\<lambda>l. l ! length u"] False c by (simp add: nth_append)
    then have "c \<in> set redacted" using False by simp
    then have "to_lower_char c \<noteq> CHR ''b''" by (auto simp: redacted_def to_lower_char_def)
    then show ?thesis using v c bearer_first by blast
  qed
qed

lemma no_bearer_left:
  "replace_matches match_bearer s = u @ v \<Longrightarrow> \<not> bearer_at v"
proof (induction "match_bearer" s arbitrary: u rule: replace_matches.induct)
  case 1
  then show ?case by (simp add: bearer_at_def)
next
  case (2 c cs)
  show ?case
  proof (cases "match_bearer (c # cs)")
    case None
    then have out: "c # replace_matches match_bearer cs = u @ v" using 2 by simp
    show ?thesis
    proof (cases u)
      case Nil
      then have "v = c # replace_matches match_bearer cs" using out by simp
      then show ?thesis using None bearer_after_copy [of c cs] match_bearer_iff [of "c # cs"] by blast
    next
      case (Cons u0 us)
      then show ?thesis using out None 2(1) by simp
    qed
  next
    case (Some r)
    then have "redacted @ replace_matches match_bearer r = u @ v" using 2 match_bearer_length [OF Some] by simp
    moreover have "length r < Suc (length cs)" using match_bearer_length [OF Some] by simp
    ultimately show ?thesis using redacted_suffix 2(2) [OF Some] by blast
  qed
qed


section \<open>The class and the text of an error\<close>

definition shows_bearer :: "string \<Rightarrow> bool" where
  "shows_bearer s \<longleftrightarrow> (\<exists>u v. s = u @ v \<and> bearer_at v)"

lemma redaction_complete: "\<not> shows_bearer (redact_secret_material s)"
  unfolding shows_bearer_def redact_secret_material_def using no_bearer_left by blast

lemma wrap_message: "err_message (wrap_cloudflare_temporary err) = redact_secret_material (err_message err)"
  by (simp add: wrap_cloudflare_temporary_def sanitize_cloudflare_error_def Let_def)

lemma chain_sanitized: "set (err_chain err) \<subseteq> set (err_chain (sanitize_cloudflare_error err))"
  by (auto simp: sanitize_cloudflare_error_def Let_def)

lemma cancellation_sanitized:
  "is_context_cancellation_error (sanitize_cloudflare_error err) = is_context_cancellation_error err"
  by (simp add: sanitize_cloudflare_error_def Let_def is_context_cancellation_error_def err_is_def)

lemma temporary_sanitized: "is_temporary_error (sanitize_cloudflare_error err) = is_temporary_error err"
  by (simp add: sanitize_cloudflare_error_def Let_def is_temporary_transparent)

lemma temporary_not_cancelled: "is_temporary_cloudflare_error err \<Longrightarrow> \<not> is_context_cancellation_error err"
  by (simp add: is_temporary_cloudflare_error_def is_context_cancellation_error_def split: if_splits)

text \<open>A text without a match is left as it is.\<close>

lemma replace_nothing:
  "(\<And>u v. s = u @ v \<Longrightarrow> f v = None) \<Longrightarrow> replace_matches f s = s"
proof (induction s)
  case (Cons c cs)
  have "f (c # cs) = None" using Cons.prems [of "[]" "c # cs"] by simp
  moreover have "replace_matches f cs = cs" using Cons.prems [of "c # u" for u] by (intro Cons.IH) simp
  ultimately show ?case by simp
qed simp

lemma match_word_suffix: "match_word w s = Some r \<Longrightarrow> \<exists>u. s = u @ r"
  by (auto simp: match_word_def split: if_splits) (metis append_take_drop_id)

lemma authorization_bearer:
  assumes "match_authorization s = Some r"
  shows "\<exists>u v. s = u @ v \<and> bearer_at v"
proof -
  obtain r1 r2 where r: "match_word ''authorization'' s = Some r1"
    "match_word '':'' (dropWhile re_space r1) = Some r2" "match_bearer (dropWhile re_space r2) = Some r"
    using assms by (auto simp: match_authorization_def split: option.splits)
  obtain u1 u2 where "s = u1 @ r1" "dropWhile re_space r1 = u2 @ r2"
    using match_word_suffix [OF r(1)] match_word_suffix [OF r(2)] by blast
  then have "s = (u1 @ takeWhile re_space r1 @ u2 @ takeWhile re_space r2) @ dropWhile re_space r2"
    by (metis append.assoc takeWhile_dropWhile_id)
  moreover have "bearer_at (dropWhile re_space r2)" using r(3) match_bearer_iff [of "dropWhile re_space r2"] by simp
  ultimately show ?thesis by blast
qed

lemma redact_clean:
  assumes "\<not> shows_bearer s"
  shows "redact_secret_material s = s"
proof -
  have bearer: "match_bearer v = None" and authorization: "match_authorization v = None" if s: "s = u @ v" for u v
  proof -
    have no: "\<not> bearer_at v'" if "v = u' @ v'" for u' v'
      using assms s that unfolding shows_bearer_def by (metis append.assoc)
    show "match_bearer v = None" using match_bearer_iff [of v] no [of "[]" v] by simp
    show "match_authorization v = None"
      using authorization_bearer [of v] no by (cases "match_authorization v") auto
  qed
  have "replace_matches match_authorization s = s" by (rule replace_nothing) (rule authorization)
  moreover have "replace_matches match_bearer s = s" by (rule replace_nothing) (rule bearer)
  ultimately show ?thesis by (simp add: redact_secret_material_def)
qed

text \<open>
  The failures of a client that are worth another attempt: the HTTP status is 408, 429 or from
  500 up, or there is no status and the network timed out; a cancellation never is.
\<close>

definition api_statuses :: "go_error \<Rightarrow> nat list" where
  "api_statuses err =
     concat (map (\<lambda>e. case e of ErrForeign f \<Rightarrow> (case fe_status f of None \<Rightarrow> [] | Some s \<Rightarrow> [s]) | _ \<Rightarrow> []) (err_chain err))"

definition net_timeouts :: "go_error \<Rightarrow> bool list" where
  "net_timeouts err =
     concat (map (\<lambda>e. case e of
         ErrForeign f \<Rightarrow> (case (fe_temporary f, fe_timeout f) of (Some _, Some t) \<Rightarrow> [t] | _ \<Rightarrow> [])
       | ErrDeadlineExceeded \<Rightarrow> [True] | _ \<Rightarrow> []) (err_chain err))"

definition worth_retrying :: "go_error \<Rightarrow> bool" where
  "worth_retrying err \<longleftrightarrow>
     ErrCanceled \<notin> set (err_chain err) \<and> ErrDeadlineExceeded \<notin> set (err_chain err) \<and>
     (case api_statuses err of
        s # _ \<Rightarrow> s = 408 \<or> s = 429 \<or> 500 \<le> s
      | [] \<Rightarrow> (case net_timeouts err of t # _ \<Rightarrow> t | [] \<Rightarrow> False))"

lemma first_some_concat:
  "first_some f xs = (case concat (map (\<lambda>x. case f x of None \<Rightarrow> [] | Some y \<Rightarrow> [y]) xs) of [] \<Rightarrow> None | y # _ \<Rightarrow> Some y)"
  by (induction xs) (auto split: option.splits)

lemma api_first: "map_option fst (err_as as_api_error err) = (case api_statuses err of [] \<Rightarrow> None | s # _ \<Rightarrow> Some s)"
proof -
  have "map_option fst (first_some as_api_error xs) = first_some (map_option fst \<circ> as_api_error) xs" for xs
    by (induction xs) (auto split: option.splits)
  moreover have "(case (map_option fst \<circ> as_api_error) e of None \<Rightarrow> [] | Some y \<Rightarrow> [y]) =
      (case e of ErrForeign f \<Rightarrow> (case fe_status f of None \<Rightarrow> [] | Some s \<Rightarrow> [s]) | _ \<Rightarrow> [])" for e
    by (cases e) (auto split: option.splits)
  ultimately show ?thesis by (simp add: err_as_def api_statuses_def first_some_concat)
qed

lemma net_first: "err_as as_net_error err = (case net_timeouts err of [] \<Rightarrow> None | t # _ \<Rightarrow> Some t)"
proof -
  have "(case as_net_error e of None \<Rightarrow> [] | Some y \<Rightarrow> [y]) = (case e of
         ErrForeign f \<Rightarrow> (case (fe_temporary f, fe_timeout f) of (Some _, Some t) \<Rightarrow> [t] | _ \<Rightarrow> [])
       | ErrDeadlineExceeded \<Rightarrow> [True] | _ \<Rightarrow> [])" for e
    by (cases e) (auto split: option.splits)
  then show ?thesis by (simp add: err_as_def net_timeouts_def first_some_concat)
qed

lemma temporary_worth_retrying: "is_temporary_cloudflare_error err = worth_retrying err"
  using api_first [of err] net_first [of err]
  by (auto simp: is_temporary_cloudflare_error_def worth_retrying_def err_is_def split: option.splits list.splits)

lemma worth_retrying_wrap: "worth_retrying (ErrWrap what err) = worth_retrying err"
proof -
  have "api_statuses (ErrWrap what err) = api_statuses err" "net_timeouts (ErrWrap what err) = net_timeouts err"
    by (simp_all add: api_statuses_def net_timeouts_def)
  then show ?thesis by (simp add: worth_retrying_def cong: list.case_cong)
qed

text \<open>How a failure of the client reaches the caller of an operation.\<close>

definition handed_on :: "string \<Rightarrow> go_error \<Rightarrow> go_error \<Rightarrow> bool" where
  "handed_on what err e \<longleftrightarrow>
     \<not> shows_bearer (err_message e) \<and>
     (\<not> shows_bearer (what @ err_message err) \<longrightarrow> err_message e = what @ err_message err) \<and>
     set (err_chain err) \<subseteq> set (err_chain e) \<and>
     is_context_cancellation_error e = is_context_cancellation_error err \<and>
     is_temporary_error e = (worth_retrying err \<or> is_temporary_error err)"

lemma wrapped_handed_on: "handed_on what err (wrap_cloudflare_temporary (ErrWrap what err))"
proof -
  let ?w = "ErrWrap what err"
  have cancelled: "is_context_cancellation_error (ErrTemporary e) = is_context_cancellation_error e"
    "is_context_cancellation_error ?w = is_context_cancellation_error err" for e
    by (simp_all add: is_context_cancellation_error_def err_is_def)
  have chain: "set (err_chain err) \<subseteq> set (err_chain (wrap_cloudflare_temporary ?w))"
    using chain_sanitized [of ?w] by (auto simp: wrap_cloudflare_temporary_def Let_def)
  have canc: "is_context_cancellation_error (wrap_cloudflare_temporary ?w) = is_context_cancellation_error err"
    using cancelled by (simp add: wrap_cloudflare_temporary_def Let_def cancellation_sanitized)
  have temp: "is_temporary_error (wrap_cloudflare_temporary ?w) = (is_temporary_cloudflare_error ?w \<or> is_temporary_error err)"
    using temporary_not_cancelled [of ?w]
    by (auto simp: wrap_cloudflare_temporary_def Let_def is_temporary_ErrTemporary cancellation_sanitized
        temporary_sanitized is_temporary_transparent)
  show ?thesis
    unfolding handed_on_def using redaction_complete redact_clean [of "what @ err_message err"] chain canc temp
    by (simp add: wrap_message temporary_worth_retrying worth_retrying_wrap)
qed


text \<open>A token that itself reads \<^verbatim>\<open>bearer\<close> shields the one behind it: only the first is replaced.\<close>

lemma second_token_left: "redact_secret_material ''bearer bearer secret'' = ''[redacted] secret''"
  by code_simp

end
