(* ===== verification/Cloudflare_Zone.thy ===== *)
theory Cloudflare_Zone
  imports Cloudflare_Correct
begin

text \<open>
  The Cloudflare output over a zone of records: which of them an operation of
  \<^verbatim>\<open>internal/providers/cloudflare/output.go\<close> can change.
\<close>

section \<open>What is relied on of the client\<close>

text \<open>
  \<open>z\<close> reads the records of the zone off the state, by identifier, and \<open>zn\<close> is the normalised
  name of the zone. Reading changes no record, a complete listing gives the records there are,
  a creation leaves the records alone that exist already, an update or a deletion, whether it
  reports an error or not, concerns the named record only, and the cell is the provider's own.
\<close>

definition reading_laws ::
  "'s cloudflare_provider \<Rightarrow> ('s \<Rightarrow> string \<Rightarrow> cf_record option) \<Rightarrow> string \<Rightarrow> bool" where
  "reading_laws p z zn \<longleftrightarrow>
     (\<forall>s. z (snd (cc_zone_name (cp_client p) (cp_zone_id p) s)) = z s) \<and>
     (\<forall>s nm. fst (cc_zone_name (cp_client p) (cp_zone_id p) s) = Inr nm \<longrightarrow> cf_normalize_hostname nm = zn) \<and>
     (\<forall>s. z (snd (cc_list (cp_client p) (cp_zone_id p) s)) = z s) \<and>
     (\<forall>s items. fst (cc_list (cp_client p) (cp_zone_id p) s) = (items, None) \<longrightarrow>
        (\<forall>r. r \<in> set items \<longleftrightarrow> z s (cr_id r) = Some r)) \<and>
     (\<forall>s i r. z s i = Some r \<longrightarrow> cr_id r = i \<and> trim_space i = i)"

definition writing_laws ::
  "'s cloudflare_provider \<Rightarrow> ('s \<Rightarrow> string \<Rightarrow> cf_record option) \<Rightarrow> bool" where
  "writing_laws p z \<longleftrightarrow>
     (\<forall>s body i r. z s i = Some r \<longrightarrow> z (snd (cc_new (cp_client p) (cp_zone_id p) body s)) i = Some r) \<and>
     (\<forall>s body i j. i \<noteq> j \<longrightarrow> z (snd (cc_update (cp_client p) (cp_zone_id p) j body s)) i = z s i) \<and>
     (\<forall>s i j. i \<noteq> j \<longrightarrow> z (snd (cc_delete (cp_client p) (cp_zone_id p) j s)) i = z s i)"

definition cell_laws :: "'s cloudflare_provider \<Rightarrow> ('s \<Rightarrow> string \<Rightarrow> cf_record option) \<Rightarrow> bool" where
  "cell_laws p z \<longleftrightarrow>
     (\<forall>c s. z (cell_put (cp_cell p) c s) = z s \<and> cell_get (cp_cell p) (cell_put (cp_cell p) c s) = c) \<and>
     (\<forall>s. cell_get (cp_cell p) (snd (cc_list (cp_client p) (cp_zone_id p) s)) = cell_get (cp_cell p) s) \<and>
     (\<forall>s body. cell_get (cp_cell p) (snd (cc_new (cp_client p) (cp_zone_id p) body s)) = cell_get (cp_cell p) s)"

section \<open>Listing\<close>

lemma zone_name_step:
  assumes "reading_laws p z zn" "cell_laws p z" "ca_zone_name (cell_get (cp_cell p) s) \<in> {[], zn}"
    and "ensure_zone_name p s = (r, s')"
  shows "z s' = z s" and "\<And>nm. r = Inr nm \<Longrightarrow> nm = zn \<and> ca_zone_name (cell_get (cp_cell p) s') = zn"
proof -
  obtain q s1 where q: "cc_zone_name (cp_client p) (cp_zone_id p) s = (q, s1)" by fastforce
  have z1: "z s1 = z s" using assms(1) q unfolding reading_laws_def by (metis snd_conv)
  have nm: "cf_normalize_hostname nm = zn" if "q = Inr nm" for nm
    using assms(1) q that unfolding reading_laws_def by (metis fst_conv)
  have put: "z (cell_put (cp_cell p) c s1) = z s1" "cell_get (cp_cell p) (cell_put (cp_cell p) c s1) = c" for c
    using assms(2) unfolding cell_laws_def by blast+
  show "z s' = z s"
    using assms(4) q z1 put by (auto simp: ensure_zone_name_def Let_def put_zone_name_def split: if_splits sum.splits)
  show "nm = zn \<and> ca_zone_name (cell_get (cp_cell p) s') = zn" if "r = Inr nm" for nm
    using assms(3,4) q that put nm
    by (auto simp: ensure_zone_name_def Let_def put_zone_name_def split: if_splits sum.splits)
qed

lemma listing_step:
  assumes "reading_laws p z zn" "cell_laws p z" "ca_zone_name (cell_get (cp_cell p) s) \<in> {[], zn}"
    and "cloudflare_list_visible p s = (r, s')"
  shows "z s' = z s"
    and "\<And>vs. r = Inr vs \<Longrightarrow> ca_zone_name (cell_get (cp_cell p) s') = zn \<and>
      (\<forall>i rec. z s i = Some rec \<and> is_supported_record_type (cr_type rec) \<longrightarrow> visible_of_cf (cp_ref p) rec \<in> set vs) \<and>
      (\<forall>v \<in> set vs. \<exists>rec. z s (cr_id rec) = Some rec \<and> is_supported_record_type (cr_type rec) \<and>
         v = visible_of_cf (cp_ref p) rec)"
proof -
  obtain q s1 where q: "ensure_zone_name p s = (q, s1)" by fastforce
  note zn = zone_name_step [OF assms(1-3) q]
  obtain items e s2 where l: "cc_list (cp_client p) (cp_zone_id p) s1 = ((items, e), s2)" by (metis surj_pair)
  have z2: "z s2 = z s1" using assms(1) l unfolding reading_laws_def by (metis snd_conv)
  have items: "r \<in> set items \<longleftrightarrow> z s1 (cr_id r) = Some r" if "e = None" for r
    using assms(1) l that unfolding reading_laws_def by (metis fst_conv)
  have cell: "cell_get (cp_cell p) s2 = cell_get (cp_cell p) s1" using assms(2) l unfolding cell_laws_def by (metis snd_conv)
  have put: "z (cell_put (cp_cell p) c s2) = z s2" "cell_get (cp_cell p) (cell_put (cp_cell p) c s2) = c" for c
    using assms(2) unfolding cell_laws_def by blast+
  have ids: "cr_id rec = i" if "z s i = Some rec" for i rec
    using assms(1) that unfolding reading_laws_def by blast
  show "z s' = z s"
    using assms(4) q l zn(1) z2 put
    by (auto simp: cloudflare_list_visible_def Let_def put_visible_def split: if_splits sum.splits option.splits)
  fix vs
  assume r: "r = Inr vs"
  obtain nm where nm: "q = Inr nm" using assms(4) q r by (cases q) (auto simp: cloudflare_list_visible_def split: if_splits)
  have e: "e = None" using assms(4) q l r nm by (cases e) (auto simp: cloudflare_list_visible_def split: if_splits)
  have vs: "vs = map (visible_of_cf (cp_ref p)) (filter (\<lambda>r. is_supported_record_type (cr_type r)) items)"
    "ca_zone_name (cell_get (cp_cell p) s') = ca_zone_name (cell_get (cp_cell p) s2)"
    using assms(4) q l r nm e put
    by (auto simp: cloudflare_list_visible_def Let_def put_visible_def split: if_splits)
  show "ca_zone_name (cell_get (cp_cell p) s') = zn \<and>
      (\<forall>i rec. z s i = Some rec \<and> is_supported_record_type (cr_type rec) \<longrightarrow> visible_of_cf (cp_ref p) rec \<in> set vs) \<and>
      (\<forall>v \<in> set vs. \<exists>rec. z s (cr_id rec) = Some rec \<and> is_supported_record_type (cr_type rec) \<and>
         v = visible_of_cf (cp_ref p) rec)"
    using zn(2) [OF nm] cell ids items [OF e] unfolding vs zn(1) by auto
qed

section \<open>Changes\<close>

text \<open>The identifier that a visible record carries.\<close>

definition claims_id :: "visible_record \<Rightarrow> string \<Rightarrow> bool" where
  "claims_id v i \<longleftrightarrow> i \<noteq> [] \<and> (\<exists>prov. v_provenance v = Some prov \<and> trim_space (rp_remote_id prov) = i)"

lemma visible_remote_id_claims: "visible_remote_id p v s = Inr i \<Longrightarrow> claims_id v i"
  by (auto simp: visible_remote_id_def claims_id_def Let_def split: option.splits if_splits)

lemma update_touches:
  assumes "writing_laws p z" "z (snd (cloudflare_update p v d s)) i \<noteq> z s i"
  shows "claims_id v i"
proof (cases "visible_remote_id p v s")
  case (Inl err)
  then show ?thesis using assms(2) by (simp add: cloudflare_update_def)
next
  case (Inr j)
  have "j = i"
  proof (rule ccontr)
    assume "j \<noteq> i"
    then have same: "z s' i = z s i" if "cc_update (cp_client p) (cp_zone_id p) j body s = (r, s')" for body r s'
      using assms(1) that unfolding writing_laws_def by (metis snd_conv)
    show False
      using assms(2) Inr by (auto simp: cloudflare_update_def split: sum.splits prod.splits dest: same)
  qed
  with visible_remote_id_claims [OF Inr] show ?thesis by simp
qed

lemma delete_touches:
  assumes "writing_laws p z" "z (snd (cloudflare_delete p v s)) i \<noteq> z s i"
  shows "claims_id v i"
proof (cases "visible_remote_id p v s")
  case (Inl err)
  then show ?thesis using assms(2) by (simp add: cloudflare_delete_def)
next
  case (Inr j)
  have "j = i"
  proof (rule ccontr)
    assume "j \<noteq> i"
    then have same: "z s' i = z s i" if "cc_delete (cp_client p) (cp_zone_id p) j s = (r, s')" for r s'
      using assms(1) that unfolding writing_laws_def by (metis snd_conv)
    show False
      using assms(2) Inr by (auto simp: cloudflare_delete_def split: sum.splits prod.splits dest: same)
  qed
  with visible_remote_id_claims [OF Inr] show ?thesis by simp
qed

text \<open>
  The one record of the zone whose name stands for the desired hostname, with another content:
  what a creation that meets a duplicate rewrites.
\<close>

definition stands_for :: "string \<Rightarrow> desired_record \<Rightarrow> cf_record \<Rightarrow> bool" where
  "stands_for zn d rec \<longleftrightarrow> is_supported_record_type (cr_type rec) \<and>
     hostnames_equivalent (cf_normalize_hostname (cr_name rec)) (d_hostname d) zn"

definition only_rival :: "(string \<Rightarrow> cf_record option) \<Rightarrow> string \<Rightarrow> desired_record \<Rightarrow> string \<Rightarrow> bool" where
  "only_rival records zn d i \<longleftrightarrow>
     (\<exists>rec. records i = Some rec \<and> stands_for zn d rec \<and>
        cf_normalize_answer (cf_normalize_answer (cr_content rec)) \<noteq> cf_normalize_answer (d_answer d)) \<and>
     (\<forall>j rec. records j = Some rec \<and> stands_for zn d rec \<longrightarrow> j = i)"

lemma recovery_touches:
  assumes laws: "reading_laws p z zn" "writing_laws p z" "cell_laws p z"
    and zn: "ca_zone_name (cell_get (cp_cell p) s) \<in> {[], zn}"
    and changed: "z (snd (recover_duplicate p d createErr s)) i \<noteq> z s i"
  shows "only_rival (z s) zn d i"
proof -
  obtain r s1 where l: "cloudflare_list_visible p s = (r, s1)" by fastforce
  note list = listing_step [OF laws(1,3) zn l]
  obtain vs where r: "r = Inr vs" using changed l list(1) by (cases r) (auto simp: recover_duplicate_def)
  let ?eq = "\<lambda>v. hostnames_equivalent (v_hostname v) (d_hostname d) zn"
  have name: "ca_zone_name (cell_get (cp_cell p) s1) = zn" using list(2) [OF r] by blast
  obtain m where m: "filter ?eq vs = [m]" and differs: "cf_normalize_answer (v_answer m) \<noteq> cf_normalize_answer (d_answer d)"
    and upd: "z (snd (cloudflare_update p m d s1)) i \<noteq> z s1 i"
    using changed l r name list(1) by (auto simp: recover_duplicate_def Let_def split: list.splits if_splits)
  have matches: "{v \<in> set vs. ?eq v} = {m}" unfolding set_filter [symmetric] m by simp
  then have one: "v = m" if "v \<in> set vs" "?eq v" for v using that by blast
  have "m \<in> set vs" "?eq m" using matches by blast+
  then obtain rec where rec: "z s (cr_id rec) = Some rec" "is_supported_record_type (cr_type rec)"
    "m = visible_of_cf (cp_ref p) rec" using list(2) [OF r] by blast
  have trim: "cr_id x = j \<and> trim_space j = j" if "z s j = Some x" for j x
    using laws(1) that unfolding reading_laws_def by blast
  have i: "i = cr_id rec"
    using update_touches [OF laws(2) upd] trim [OF rec(1)] rec(3) by (auto simp: claims_id_def visible_of_cf_def)
  have "j = i" if x: "z s j = Some x" "stands_for zn d x" for j x
  proof -
    have "visible_of_cf (cp_ref p) x \<in> set vs" using list(2) [OF r] x by (auto simp: stands_for_def)
    moreover have "?eq (visible_of_cf (cp_ref p) x)" using x(2) by (simp add: stands_for_def visible_of_cf_def)
    ultimately have "visible_of_cf (cp_ref p) x = visible_of_cf (cp_ref p) rec" using one rec(3) by blast
    then show ?thesis using trim [OF x(1)] i by (simp add: visible_of_cf_def)
  qed
  moreover have "stands_for zn d rec" using rec \<open>?eq m\<close> by (simp add: stands_for_def visible_of_cf_def)
  moreover have "cf_normalize_answer (cf_normalize_answer (cr_content rec)) \<noteq> cf_normalize_answer (d_answer d)"
    using differs rec(3) by (simp add: visible_of_cf_def)
  ultimately show ?thesis unfolding only_rival_def using rec(1) i by blast
qed

lemma create_touches:
  assumes laws: "reading_laws p z zn" "writing_laws p z" "cell_laws p z"
    and zn: "ca_zone_name (cell_get (cp_cell p) s) \<in> {[], zn}"
    and rec: "z s i = Some rec" and changed: "z (snd (cloudflare_create p d s)) i \<noteq> Some rec"
  shows "\<exists>body err. fst (cc_new (cp_client p) (cp_zone_id p) body s) = Inl err \<and>
    is_recoverable_duplicate_record_error err \<and> only_rival (z s) zn d i"
proof -
  obtain body where body: "build_record_new_body (cp_parse_ip p) (d_hostname d) (d_answer d) = Inr body"
    using changed rec by (cases "build_record_new_body (cp_parse_ip p) (d_hostname d) (d_answer d)") (auto simp: cloudflare_create_def)
  obtain r s1 where new: "cc_new (cp_client p) (cp_zone_id p) body s = (r, s1)" by fastforce
  have keep: "z s1 j = Some x" if "z s j = Some x" for j x
    using laws(2) new that unfolding writing_laws_def by (metis snd_conv)
  have cell: "cell_get (cp_cell p) s1 = cell_get (cp_cell p) s"
    using laws(3) new unfolding cell_laws_def by (metis snd_conv)
  obtain err where err: "r = Inl err" using changed body new keep [OF rec] by (cases r) (auto simp: cloudflare_create_def)
  let ?e = "wrap_cloudflare_temporary (ErrWrap ''create cloudflare dns record: '' err)"
  have dup: "is_recoverable_duplicate_record_error err" and rcv: "z (snd (recover_duplicate p d ?e s1)) i \<noteq> z s1 i"
    using changed body new err keep [OF rec] by (auto simp: cloudflare_create_def Let_def split: if_splits)
  have "ca_zone_name (cell_get (cp_cell p) s1) \<in> {[], zn}" using zn cell by simp
  from recovery_touches [OF laws this rcv] have "only_rival (z s1) zn d i" .
  then have "only_rival (z s) zn d i" unfolding only_rival_def using keep rec by (metis option.inject)
  then show ?thesis using new err dup by (metis fst_conv)
qed

text \<open>
  C13: A Cloudflare update or delete changes at most the record whose identifier the visible
  record carries; a creation changes an existing record only when the server has reported a
  duplicate and that record is the only one whose name stands for the desired hostname, with
  another content; listing changes nothing.
\<close>

theorem cloudflare_touches_one_record:
  assumes "reading_laws p z zn" "writing_laws p z" "cell_laws p z"
    and "ca_zone_name (cell_get (cp_cell p) s) \<in> {[], zn}"
  shows "(\<forall>v d i. z (snd (cloudflare_update p v d s)) i \<noteq> z s i \<longrightarrow> claims_id v i) \<and>
    (\<forall>v i. z (snd (cloudflare_delete p v s)) i \<noteq> z s i \<longrightarrow> claims_id v i) \<and>
    (\<forall>d i rec. z s i = Some rec \<and> z (snd (cloudflare_create p d s)) i \<noteq> Some rec \<longrightarrow>
       (\<exists>body err. fst (cc_new (cp_client p) (cp_zone_id p) body s) = Inl err \<and>
          is_recoverable_duplicate_record_error err \<and> only_rival (z s) zn d i)) \<and>
    z (snd (cloudflare_list_visible p s)) = z s"
  using update_touches delete_touches create_touches [OF assms] listing_step(1) [OF assms(1,3,4)] assms(2)
  by (metis surjective_pairing)

end
