(* ===== verification/Cloudflare_Pass.thy ===== *)
theory Cloudflare_Pass
  imports Cloudflare_Zone Apply_Correct
begin

text \<open>
  A whole pass over a Cloudflare zone: the listing, the plan of
  \<^verbatim>\<open>internal/runtime/reconcile_plan.go\<close> and the calls that apply it through the wrappers of
  \<^verbatim>\<open>internal/runtime/app.go\<close>. What is in the zone and not in the books stays as it is.
\<close>

section \<open>What is relied on\<close>

text \<open>
  Beside the laws of \<open>Cloudflare_Zone\<close>: the client never writes the cell of the provider, and
  neither the zone nor the cell depends on the deadline or on the log of the runtime.
\<close>

definition private_cell :: "'s cloudflare_provider \<Rightarrow> bool" where
  "private_cell p \<longleftrightarrow>
     (\<forall>s. cell_get (cp_cell p) (snd (cc_zone_name (cp_client p) (cp_zone_id p) s)) = cell_get (cp_cell p) s) \<and>
     (\<forall>s i body. cell_get (cp_cell p) (snd (cc_update (cp_client p) (cp_zone_id p) i body s)) = cell_get (cp_cell p) s) \<and>
     (\<forall>s i. cell_get (cp_cell p) (snd (cc_delete (cp_client p) (cp_zone_id p) i s)) = cell_get (cp_cell p) s)"

definition outside_zone :: "'w env cloudflare_provider \<Rightarrow> ('w env \<Rightarrow> string \<Rightarrow> cf_record option) \<Rightarrow> bool" where
  "outside_zone p z \<longleftrightarrow>
     (\<forall>e x. z (e\<lparr>env_deadline := x\<rparr>) = z e \<and> cell_get (cp_cell p) (e\<lparr>env_deadline := x\<rparr>) = cell_get (cp_cell p) e) \<and>
     (\<forall>e x. z (e\<lparr>env_log := x\<rparr>) = z e \<and> cell_get (cp_cell p) (e\<lparr>env_log := x\<rparr>) = cell_get (cp_cell p) e)"

section \<open>The name of the zone in the cell\<close>

definition zone_known :: "'s cloudflare_provider \<Rightarrow> string \<Rightarrow> 's \<Rightarrow> bool" where
  "zone_known p zn s \<longleftrightarrow> ca_zone_name (cell_get (cp_cell p) s) \<in> {[], zn}"

lemma zone_known_same: "cell_get (cp_cell p) s' = cell_get (cp_cell p) s \<Longrightarrow> zone_known p zn s' = zone_known p zn s"
  by (simp add: zone_known_def)

lemma zone_known_ensure:
  assumes laws: "reading_laws p z zn" "cell_laws p z" "private_cell p" and known: "zone_known p zn s"
    and run: "ensure_zone_name p s = (r, s')"
  shows "zone_known p zn s'"
proof (cases r)
  case (Inr nm)
  then show ?thesis using zone_name_step(2) [OF laws(1,2) known [unfolded zone_known_def] run] by (simp add: zone_known_def)
next
  case (Inl err)
  obtain q s1 where q: "cc_zone_name (cp_client p) (cp_zone_id p) s = (q, s1)" by fastforce
  have "cell_get (cp_cell p) s1 = cell_get (cp_cell p) s" using laws(3) q unfolding private_cell_def by (metis snd_conv)
  then show ?thesis using run Inl q known
    by (auto simp: ensure_zone_name_def Let_def put_zone_name_def zone_known_def split: if_splits sum.splits)
qed

lemma zone_known_listing:
  assumes laws: "reading_laws p z zn" "cell_laws p z" "private_cell p" and known: "zone_known p zn s"
    and run: "cloudflare_list_visible p s = (r, s')"
  shows "zone_known p zn s'"
proof -
  obtain q s1 where q: "ensure_zone_name p s = (q, s1)" by fastforce
  note k1 = zone_known_ensure [OF laws known q]
  obtain items e s2 where l: "cc_list (cp_client p) (cp_zone_id p) s1 = ((items, e), s2)" by (metis surj_pair)
  have cell: "cell_get (cp_cell p) s2 = cell_get (cp_cell p) s1" using laws(2) l unfolding cell_laws_def by (metis snd_conv)
  have put: "cell_get (cp_cell p) (cell_put (cp_cell p) c s2) = c" for c using laws(2) unfolding cell_laws_def by blast
  show ?thesis using run q l k1 known cell put
    by (auto simp: cloudflare_list_visible_def Let_def put_visible_def zone_known_def split: if_splits sum.splits option.splits)
qed

lemma zone_known_update:
  assumes "private_cell p" "zone_known p zn s"
  shows "zone_known p zn (snd (cloudflare_update p v d s))"
proof -
  have "cell_get (cp_cell p) s' = cell_get (cp_cell p) s" if "cc_update (cp_client p) (cp_zone_id p) i body s = (r, s')" for i body r s'
    using assms(1) that unfolding private_cell_def by (metis snd_conv)
  then show ?thesis using assms(2)
    by (auto simp: cloudflare_update_def zone_known_def split: sum.split prod.split)
qed

lemma zone_known_create:
  assumes laws: "reading_laws p z zn" "cell_laws p z" "private_cell p" and known: "zone_known p zn s"
  shows "zone_known p zn (snd (cloudflare_create p d s))"
proof -
  have new: "zone_known p zn s'" if "cc_new (cp_client p) (cp_zone_id p) body s = (r, s')" for body r s'
    using laws(2) that known zone_known_same unfolding cell_laws_def by (metis snd_conv)
  have recover: "zone_known p zn (snd (recover_duplicate p d createErr s'))" if "zone_known p zn s'" for createErr s'
  proof -
    obtain r s1 where l: "cloudflare_list_visible p s' = (r, s1)" by fastforce
    note k = zone_known_listing [OF laws that l]
    show ?thesis using k zone_known_update [OF laws(3) k]
      by (auto simp: recover_duplicate_def l Let_def split: sum.split list.split)
  qed
  show ?thesis using new recover known
    by (auto simp: cloudflare_create_def Let_def split: sum.split prod.split)
qed

section \<open>One record through the calls\<close>

text \<open>
  The invariant: record \<open>i\<close> is as it was. It survives every call that neither names it nor
  creates a record that it stands for, also behind the wrappers.
\<close>

definition record_stays :: "'s cloudflare_provider \<Rightarrow> ('s \<Rightarrow> string \<Rightarrow> cf_record option) \<Rightarrow> string \<Rightarrow> string \<Rightarrow> cf_record \<Rightarrow> 's \<Rightarrow> bool" where
  "record_stays p z zn i rec s \<longleftrightarrow> z s i = Some rec \<and> zone_known p zn s"

lemma stays_behind_wrappers:
  assumes outside: "outside_zone p z" and limited: "ends_within t raw op"
    and raw: "\<And>e. record_stays p z zn i rec e \<Longrightarrow> record_stays p z zn i rec (snd (raw e))"
    and e: "record_stays p z zn i rec e"
  shows "record_stays p z zn i rec (snd (op e))"
proof -
  have blind: "record_stays p z zn i rec (e\<lparr>env_deadline := x\<rparr>) = record_stays p z zn i rec e"
    "record_stays p z zn i rec (e\<lparr>env_log := y\<rparr>) = record_stays p z zn i rec e" for e x y
    using outside by (simp_all add: outside_zone_def record_stays_def zone_known_def)
  obtain limit where "snd (op e) = (snd (raw (e\<lparr>env_deadline := Some limit\<rparr>)))
      \<lparr>env_deadline := env_deadline e, env_log := env_log (snd (op e))\<rparr>"
    using limited unfolding ends_within_def by blast
  moreover have "record_stays p z zn i rec (snd (raw (e\<lparr>env_deadline := Some limit\<rparr>)))"
    by (rule raw) (simp add: blind e)
  ultimately show ?thesis using blind by metis
qed

lemma create_spares:
  assumes "reading_laws p z zn" "writing_laws p z" "cell_laws p z" "private_cell p"
    and "\<not> stands_for zn d rec" "record_stays p z zn i rec s"
  shows "record_stays p z zn i rec (snd (cloudflare_create p d s))"
proof -
  have "z (snd (cloudflare_create p d s)) i = Some rec"
    using create_touches [OF assms(1-3), of s i rec d] assms(5,6)
    by (auto simp: record_stays_def zone_known_def only_rival_def)
  then show ?thesis using zone_known_create [OF assms(1,3,4)] assms(6) by (simp add: record_stays_def)
qed

lemma zone_known_delete:
  assumes "private_cell p" "zone_known p zn s"
  shows "zone_known p zn (snd (cloudflare_delete p v s))"
proof -
  have "cell_get (cp_cell p) s' = cell_get (cp_cell p) s" if "cc_delete (cp_client p) (cp_zone_id p) i s = (r, s')" for i r s'
    using assms(1) that unfolding private_cell_def by (metis snd_conv)
  then show ?thesis using assms(2)
    by (auto simp: cloudflare_delete_def zone_known_def split: sum.split prod.split)
qed

lemma update_spares:
  assumes "writing_laws p z" "private_cell p" "\<not> claims_id v i" "record_stays p z zn i rec s"
  shows "record_stays p z zn i rec (snd (cloudflare_update p v d s))"
    and "record_stays p z zn i rec (snd (cloudflare_delete p v s))"
proof -
  have "z (snd (cloudflare_update p v d s)) i = z s i" "z (snd (cloudflare_delete p v s)) i = z s i"
    using update_touches [OF assms(1)] delete_touches [OF assms(1)] assms(3) by blast+
  then show "record_stays p z zn i rec (snd (cloudflare_update p v d s))"
    "record_stays p z zn i rec (snd (cloudflare_delete p v s))"
    using zone_known_update [OF assms(2)] zone_known_delete [OF assms(2)] assms(4) by (simp_all add: record_stays_def)
qed

section \<open>The calls of a plan\<close>

definition spares_record :: "'w output_port \<Rightarrow> ('w \<Rightarrow> bool) \<Rightarrow> reconcile_plan \<Rightarrow> bool" where
  "spares_record out stays plan \<longleftrightarrow>
     (\<forall>d \<in> set (pl_creates plan). \<forall>w. stays w \<longrightarrow> stays (snd (out_create out d w))) \<and>
     (\<forall>u \<in> set (pl_updates plan). \<forall>w. stays w \<longrightarrow> stays (snd (out_update out (u_from u) (u_to u) w))) \<and>
     (\<forall>x \<in> set (pl_deletes plan). \<forall>w. stays w \<longrightarrow> stays (snd (out_delete out (del_visible x) w)))"

interpretation spared_create: step_invariant "apply_create out now plan"
  "\<lambda>d. \<forall>w. stays w \<longrightarrow> stays (snd (out_create out d w))" "\<lambda>st. stays (ap_world st)" for out now plan stays
  by unfold_locales (auto simp: apply_create_def Let_def split: prod.split sum.split)

interpretation spared_update: step_invariant "apply_update out now plan"
  "\<lambda>u. \<forall>w. stays w \<longrightarrow> stays (snd (out_update out (u_from u) (u_to u) w))" "\<lambda>st. stays (ap_world st)" for out now plan stays
  by unfold_locales (auto simp: apply_update_def Let_def split: prod.split sum.split)

interpretation spared_delete: step_invariant "apply_delete out"
  "\<lambda>x. \<forall>w. stays w \<longrightarrow> stays (snd (out_delete out (del_visible x) w))" "\<lambda>st. stays (ap_world st)" for out stays
  by unfold_locales (auto simp: apply_delete_def split: prod.split sum.split)

lemma plan_spares:
  assumes spares: "spares_record out stays plan" and "stays w"
    and run: "apply_reconcile_plan out owned plan now w = (res, w')"
  shows "stays w'"
proof -
  define st where "st = \<lparr>ap_world = w, ap_records = fold (apply_keep now plan) (pl_next_managed plan)
      (apply_drops plan (index_by managed_record_lineage_key (owned_of (out_provider out) owned))), ap_progressed = False\<rparr>"
  let ?c = "each_until_error (apply_create out now plan) (pl_creates plan) st"
  let ?u = "each_until_error (apply_update out now plan) (pl_updates plan) (snd ?c)"
  let ?d = "each_until_error (apply_delete out) (pl_deletes plan) (snd ?u)"
  have c: "stays (ap_world (snd ?c))"
    by (rule spared_create.loop_keeps) (use spares assms(2) in \<open>simp_all add: spares_record_def list_all_iff st_def\<close>)
  have u: "stays (ap_world (snd ?u))"
    by (rule spared_update.loop_keeps) (use spares c in \<open>simp_all add: spares_record_def list_all_iff\<close>)
  have d: "stays (ap_world (snd ?d))"
    by (rule spared_delete.loop_keeps) (use spares u in \<open>simp_all add: spares_record_def list_all_iff\<close>)
  have "stays (ap_world (snd (apply_calls out now plan st)))"
    using c u d unfolding apply_calls_def by (auto split: prod.split option.split)
  moreover have "w' = ap_world (snd (apply_calls out now plan st))"
    using run unfolding apply_reconcile_plan_def Let_def st_def by (auto split: prod.splits)
  ultimately show ?thesis by simp
qed

section \<open>What a pass leaves alone\<close>

text \<open>A hostname with a dot in it stands for itself only.\<close>

definition dotted :: "string \<Rightarrow> bool" where
  "dotted hostname \<longleftrightarrow> contains (cf_normalize_hostname hostname) ''.''"

lemma dotted_equivalent:
  assumes "hostnames_equivalent l r zn" "dotted l" "dotted r"
  shows "normalize_hostname l = normalize_hostname r"
  using assms
  by (auto simp: hostnames_equivalent_def dotted_def cf_qualify_def Let_def cf_normalize_hostname_def normalize_hostname_def
      split: if_splits)

lemma claimed_in_listing:
  assumes laws: "reading_laws p z zn" "cell_laws p z" and known: "zone_known p zn s"
    and list: "cloudflare_list_visible p s = (Inr vs, s')" and rec: "z s i = Some rec"
    and v: "v \<in> set vs" "claims_id v i"
  shows "v = visible_of_cf (cp_ref p) rec" "cr_id rec = i" "i \<noteq> []"
proof -
  obtain rec' where rec': "z s (cr_id rec') = Some rec'" "v = visible_of_cf (cp_ref p) rec'"
    using listing_step(2) [OF laws known [unfolded zone_known_def] list refl] v(1) by blast
  have ids: "cr_id rec = i" "trim_space (cr_id rec') = cr_id rec'"
    using laws(1) rec rec'(1) unfolding reading_laws_def by blast+
  have "cr_id rec' = i" "i \<noteq> []" using v(2) rec'(2) ids(2) by (auto simp: claims_id_def visible_of_cf_def)
  then show "v = visible_of_cf (cp_ref p) rec" "cr_id rec = i" "i \<noteq> []" using rec rec' ids by simp_all
qed

lemma listed_stays:
  assumes "reading_laws p z zn" "cell_laws p z" "private_cell p" "record_stays p z zn i rec s"
  shows "record_stays p z zn i rec (snd (cloudflare_list_visible p s))"
proof -
  obtain r s' where l: "cloudflare_list_visible p s = (r, s')" by fastforce
  from listing_step(1) [OF assms(1,2) _ l] zone_known_listing [OF assms(1-3) _ l] assms(4)
  show ?thesis by (simp add: record_stays_def zone_known_def l)
qed

lemma same_provenance_of: "same_record_provenance a (Some \<lparr>rp_remote_id = i\<rparr>) \<Longrightarrow> a = Some \<lparr>rp_remote_id = i\<rparr>"
  by (cases a) (auto simp: same_record_provenance_def split: if_splits)

lemma plan_calls_spare:
  assumes laws: "reading_laws p z zn" "writing_laws p z" "cell_laws p z" "private_cell p" "outside_zone p z"
    and limited: "limited_output t (cloudflare_output p) out"
    and listed: "z s i = Some rec" "zone_known p zn s" "cloudflare_list_visible p s = (Inr visible, s')"
    and unowned: "\<forall>m \<in> set (owned_of (cp_ref p) owned). m_provenance m \<noteq> Some \<lparr>rp_remote_id = i\<rparr>"
    and plan: "plan = build_reconcile_plan ords (cp_ref p) desired visible owned"
    and names: "\<forall>d \<in> set (pl_creates plan). stands_for zn d rec \<longrightarrow>
      dotted (d_hostname d) \<and> dotted (cf_normalize_hostname (cr_name rec))"
  shows "spares_record out (record_stays p z zn i rec) plan"
proof -
  note claimed = claimed_in_listing [OF laws(1,3) listed(2,3,1)]
  have ops: "ends_within t (cloudflare_create p d) (out_create out d)"
    "ends_within t (cloudflare_update p v d) (out_update out v d)"
    "ends_within t (cloudflare_delete p v) (out_delete out v)" for v d
    using limited by (simp_all add: limited_output_def cloudflare_output_def)
  have "\<not> stands_for zn d rec" if d: "d \<in> set (pl_creates plan)" for d
  proof
    assume for_d: "stands_for zn d rec"
    let ?v = "visible_of_cf (cp_ref p) rec"
    have "normalize_hostname (v_hostname ?v) = normalize_hostname (d_hostname d)"
      using dotted_equivalent [of "cf_normalize_hostname (cr_name rec)" "d_hostname d" zn] for_d names d
      by (auto simp: stands_for_def visible_of_cf_def)
    moreover have "?v \<in> set visible"
      using listing_step(2) [OF laws(1,3) listed(2) [unfolded zone_known_def] listed(3) refl] listed(1) for_d
      by (auto simp: stands_for_def)
    moreover have "visible_with_host (cp_ref p) visible (d_hostname d) = []"
      using plan_create_free d plan by blast
    ultimately show False by (auto simp: visible_with_host_def filter_empty_conv visible_of_cf_def)
  qed
  moreover have "\<not> claims_id (u_from u) i" if u: "u \<in> set (pl_updates plan)" for u
  proof
    assume claims: "claims_id (u_from u) i"
    note proven = plan_update_proof [OF u [unfolded plan]]
    have "v_provenance (u_from u) = Some \<lparr>rp_remote_id = i\<rparr>" "i \<noteq> []"
      using claimed [OF _ claims] proven by (auto simp: visible_of_cf_def)
    then show False using proven unowned same_provenance_of by (auto simp: has_record_provenance_def)
  qed
  moreover have "\<not> claims_id (del_visible x) i" if x: "x \<in> set (pl_deletes plan)" for x
  proof
    assume claims: "claims_id (del_visible x) i"
    note proven = plan_delete_proof [OF x [unfolded plan]]
    have "del_visible x \<in> set (visible_with_key (cp_ref p) visible (visible_key (del_visible x)))" using proven by simp
    then have "del_visible x \<in> set visible" by (simp add: visible_with_key_def)
    then have "v_provenance (del_visible x) = Some \<lparr>rp_remote_id = i\<rparr>"
      using claimed [OF _ claims] by (simp add: visible_of_cf_def)
    then show False using proven unowned same_provenance_of by auto
  qed
  ultimately show ?thesis
    unfolding spares_record_def
    using stays_behind_wrappers [OF laws(5) ops(1) create_spares [OF laws(1-4)]]
      stays_behind_wrappers [OF laws(5) ops(2) update_spares(1) [OF laws(2,4)]]
      stays_behind_wrappers [OF laws(5) ops(3) update_spares(2) [OF laws(2,4)]] by blast
qed


end
