(* ===== verification/Provider_Witness.thy ===== *)
theory Provider_Witness
  imports App_Witness Startup_Correct First_Sync Cloudflare_Pass
begin

text \<open>
  Examples for the providers and the start of the daemon: a labelled container, a Cloudflare
  zone and an AdGuard server kept in memory, a configuration; and the theorems on them applied.
\<close>

section \<open>A container\<close>

definition ex_labels :: "(string, string) fmap" where
  "ex_labels = fmap_of_list [(''proxy.aliases'', ''Web, nas''), (''proxy.web.port'', ''80''), (''proxy.#1.host'', ''10.0.0.9'')]"

definition ex_container :: container_summary where
  "ex_container = \<lparr>ct_id = ''c1'', ct_names = [''/web''], ct_labels = ex_labels, ct_state = ''running''\<rparr>"

definition ex_docker_ref :: provider_ref where
  "ex_docker_ref = \<lparr>pr_type = ''docker'', pr_name = ''local''\<rparr>"

definition ex_docker :: "nat docker_provider" where
  "ex_docker = \<lparr>dk_ref = ex_docker_ref, dk_endpoint = ''unix:///var/run/docker.sock'', dk_default_host = [],
     dk_base_domain = ''lan'', dk_container_list = (\<lambda>w. (Inr [ex_container], w))\<rparr>"

definition ex_published :: desired_record where
  "ex_published = \<lparr>d_hostname = ''web.lan'', d_answer = ''10.0.0.9'', d_source =
     \<lparr>so_provider = ex_docker_ref, so_id = ''c1'', so_display_name = ''web''\<rparr>, d_output = []\<rparr>"

lemma ex_listing: "docker_list_desired sorted_order ex_docker 0 = (Inr [ex_published], 0)"
  by code_simp

theorem docker_listing_exact_witness:
  "publishes ex_docker_ref [] ''lan'' ex_container ex_published \<and> sorted (map desired_record_sort_key [ex_published])"
  using docker_listing_exact [OF ex_listing] by (auto simp: ex_docker_def)


section \<open>A Cloudflare zone\<close>

record cf_zone =
  zn_records :: "cf_record list"
  zn_cache :: cf_cache

definition zone_at :: "cf_zone \<Rightarrow> string \<Rightarrow> cf_record option" where
  "zone_at s i = (if trim_space i = i then find (\<lambda>r. cr_id r = i) (zn_records s) else None)"

definition kind_text :: "record_kind \<Rightarrow> string" where
  "kind_text k = (case k of ARecord \<Rightarrow> ''A'' | AAAARecord \<Rightarrow> ''AAAA'' | CNAMERecord \<Rightarrow> ''CNAME'')"

definition cf_record_of :: "string \<Rightarrow> record_body \<Rightarrow> cf_record" where
  "cf_record_of i b = \<lparr>cr_id = i, cr_type = kind_text (rb_kind b), cr_name = rb_name b, cr_content = rb_content b\<rparr>"

definition ex_exists :: go_error where
  "ex_exists = ErrForeign \<lparr>fe_message = ''record already exists'', fe_temporary = None, fe_timeout = None,
     fe_status = Some 400, fe_codes = [(81053, [])]\<rparr>"

definition ex_zone_client :: "cf_zone cf_client" where
  "ex_zone_client =
     \<lparr>cc_zone_name = (\<lambda>zid s. (Inr ''Lan.'', s)),
      cc_list = (\<lambda>zid s. ((filter (\<lambda>r. zone_at s (cr_id r) = Some r) (zn_records s), None), s)),
      cc_new = (\<lambda>zid b s.
        if list_ex (\<lambda>r. cr_name r = rb_name b) (zn_records s) then (Inl ex_exists, s)
        else (Inr ''new'', s\<lparr>zn_records := zn_records s @ [cf_record_of ''new'' b]\<rparr>)),
      cc_update = (\<lambda>zid i b s.
        (Inr i, s\<lparr>zn_records := map (\<lambda>r. if cr_id r = i then cf_record_of i b else r) (zn_records s)\<rparr>)),
      cc_delete = (\<lambda>zid i s. (Inr (), s\<lparr>zn_records := filter (\<lambda>r. cr_id r \<noteq> i) (zn_records s)\<rparr>))\<rparr>"

definition ex_zone_cell :: "cf_zone cf_cell" where
  "ex_zone_cell = \<lparr>cell_get = zn_cache, cell_put = (\<lambda>c s. s\<lparr>zn_cache := c\<rparr>)\<rparr>"

definition ex_cloudflare :: "cf_zone cloudflare_provider" where
  "ex_cloudflare = \<lparr>cp_ref = \<lparr>pr_type = ''cloudflare'', pr_name = ''main''\<rparr>, cp_zone_id = ''z1'', cp_client = ex_zone_client,
     cp_cell = ex_zone_cell, cp_parse_ip = (\<lambda>s. Some True)\<rparr>"

definition ex_zone :: cf_zone where
  "ex_zone = \<lparr>zn_records = [\<lparr>cr_id = ''r7'', cr_type = ''A'', cr_name = ''nas.lan'', cr_content = ''10.0.0.7''\<rparr>],
     zn_cache = empty_cache\<rparr>"

lemma find_append: "find P (xs @ ys) = (case find P xs of None \<Rightarrow> find P ys | Some x \<Rightarrow> Some x)"
  by (induction xs) simp_all

lemma find_update:
  "i \<noteq> j \<Longrightarrow> find (\<lambda>r. cr_id r = i) (map (\<lambda>r. if cr_id r = j then cf_record_of j b else r) rs) = find (\<lambda>r. cr_id r = i) rs"
  by (induction rs) (simp_all add: cf_record_of_def)

lemma find_remove: "i \<noteq> j \<Longrightarrow> find (\<lambda>r. cr_id r = i) (filter (\<lambda>r. cr_id r \<noteq> j) rs) = find (\<lambda>r. cr_id r = i) rs"
  by (induction rs) auto

lemma find_id: "find (\<lambda>r. cr_id r = i) rs = Some r \<Longrightarrow> cr_id r = i \<and> r \<in> set rs"
  by (induction rs) (auto split: if_splits)

lemma ex_reading: "reading_laws ex_cloudflare zone_at ''lan''"
proof -
  have name: "cf_normalize_hostname ''Lan.'' = ''lan''" by code_simp
  have client: "cp_client ex_cloudflare = ex_zone_client" by (simp add: ex_cloudflare_def)
  have id: "cr_id r = i \<and> trim_space i = i \<and> r \<in> set (zn_records s)" if "zone_at s i = Some r" for s i r
    using that find_id [of i "zn_records s" r] by (simp add: zone_at_def split: if_split_asm)
  have list: "r \<in> set (filter (\<lambda>r. zone_at s (cr_id r) = Some r) (zn_records s)) \<longleftrightarrow> zone_at s (cr_id r) = Some r" for s r
    using id [of s "cr_id r" r] by auto
  have zone_name: "cc_zone_name ex_zone_client z s = (Inr ''Lan.'', s)"
    and lists: "cc_list ex_zone_client z s = ((filter (\<lambda>r. zone_at s (cr_id r) = Some r) (zn_records s), None), s)" for z s
    by (simp_all add: ex_zone_client_def)
  show ?thesis
    unfolding reading_laws_def client
  proof (intro conjI allI impI)
    fix s nm
    assume "fst (cc_zone_name ex_zone_client (cp_zone_id ex_cloudflare) s) = Inr nm"
    then show "cf_normalize_hostname nm = ''lan''" using name unfolding zone_name by (simp only: fst_conv sum.inject)
  next
    fix s items r
    assume "fst (cc_list ex_zone_client (cp_zone_id ex_cloudflare) s) = (items, None)"
    then have "items = filter (\<lambda>r. zone_at s (cr_id r) = Some r) (zn_records s)" unfolding lists by simp
    then show "r \<in> set items \<longleftrightarrow> zone_at s (cr_id r) = Some r" using list by simp
  next
    fix s i r
    assume "zone_at s i = Some r"
    then show "cr_id r = i" "trim_space i = i" using id by blast+
  qed (simp_all add: zone_name lists)
qed

lemma ex_writing: "writing_laws ex_cloudflare zone_at"
  by (auto simp: writing_laws_def ex_cloudflare_def ex_zone_client_def zone_at_def find_append find_update find_remove
      split: if_splits option.splits)

lemma ex_cell: "cell_laws ex_cloudflare zone_at"
proof -
  have "zone_at (s\<lparr>zn_cache := c\<rparr>) = zone_at s" for s c by (rule ext) (simp add: zone_at_def)
  then show ?thesis by (simp add: cell_laws_def ex_cloudflare_def ex_zone_client_def ex_zone_cell_def)
qed

text \<open>The creation rewrites a record that nobody had listed as owned.\<close>

theorem cloudflare_touches_one_record_witness:
  "zone_at (snd (cloudflare_create ex_cloudflare (ex_published\<lparr>d_hostname := ''nas.lan''\<rparr>) ex_zone)) ''r7'' \<noteq>
     zone_at ex_zone ''r7'' \<and>
   only_rival (zone_at ex_zone) ''lan'' (ex_published\<lparr>d_hostname := ''nas.lan''\<rparr>) ''r7''"
proof -
  let ?d = "ex_published\<lparr>d_hostname := ''nas.lan''\<rparr>"
  let ?r = "\<lparr>cr_id = ''r7'', cr_type = ''A'', cr_name = ''nas.lan'', cr_content = ''10.0.0.7''\<rparr>"
  have zone: "ca_zone_name (cell_get (cp_cell ex_cloudflare) ex_zone) \<in> {[], ''lan''}"
    by (simp add: ex_cloudflare_def ex_zone_cell_def ex_zone_def empty_cache_def)
  have before: "zone_at ex_zone ''r7'' = Some ?r" by code_simp
  have after: "zone_at (snd (cloudflare_create ex_cloudflare ?d ex_zone)) ''r7'' \<noteq> Some ?r" by code_simp
  have "only_rival (zone_at ex_zone) ''lan'' ?d ''r7''"
    using cloudflare_touches_one_record [OF ex_reading ex_writing ex_cell zone] before after by blast
  with before after show ?thesis by simp
qed

text \<open>A deletion that the server has no time for: the error is temporary, and shows no token.\<close>

definition ex_busy :: go_error where
  "ex_busy = ErrForeign \<lparr>fe_message = ''429: bearer k3y'', fe_temporary = None, fe_timeout = None,
     fe_status = Some 429, fe_codes = []\<rparr>"

definition ex_busy_cloudflare :: "cf_zone cloudflare_provider" where
  "ex_busy_cloudflare = ex_cloudflare\<lparr>cp_client := ex_zone_client\<lparr>cc_delete := (\<lambda>zid i s. (Inl ex_busy, s))\<rparr>\<rparr>"

definition ex_visible_nas :: visible_record where
  "ex_visible_nas = \<lparr>v_output = cp_ref ex_cloudflare, v_hostname = ''nas.lan'', v_answer = ''10.0.0.7'',
     v_provenance = Some \<lparr>rp_remote_id = ''r7''\<rparr>\<rparr>"


text \<open>
  The same zone as the world of the runtime, and a pass over it that creates a record and deletes
  the one it owns; the record \<open>r7\<close> is not in the books.
\<close>

definition in_world :: "('s \<Rightarrow> 'a \<times> 's) \<Rightarrow> 's env \<Rightarrow> 'a \<times> 's env" where
  "in_world f e = (fst (f (env_world e)), e\<lparr>env_world := snd (f (env_world e))\<rparr>)"

definition ex_env_cloudflare :: "cf_zone env cloudflare_provider" where
  "ex_env_cloudflare =
     \<lparr>cp_ref = cp_ref ex_cloudflare, cp_zone_id = cp_zone_id ex_cloudflare,
      cp_client = \<lparr>cc_zone_name = (\<lambda>zid. in_world (cc_zone_name ex_zone_client zid)),
        cc_list = (\<lambda>zid. in_world (cc_list ex_zone_client zid)),
        cc_new = (\<lambda>zid b. in_world (cc_new ex_zone_client zid b)),
        cc_update = (\<lambda>zid i b. in_world (cc_update ex_zone_client zid i b)),
        cc_delete = (\<lambda>zid i. in_world (cc_delete ex_zone_client zid i))\<rparr>,
      cp_cell = \<lparr>cell_get = (\<lambda>e. zn_cache (env_world e)), cell_put = (\<lambda>c e. e\<lparr>env_world := (env_world e)\<lparr>zn_cache := c\<rparr>\<rparr>)\<rparr>,
      cp_parse_ip = cp_parse_ip ex_cloudflare\<rparr>"

definition ex_zone_in :: "cf_zone env \<Rightarrow> string \<Rightarrow> cf_record option" where
  "ex_zone_in e = zone_at (env_world e)"

lemma ex_env_ops [simp]:
  "cp_client ex_cloudflare = ex_zone_client" "cp_zone_id ex_env_cloudflare = cp_zone_id ex_cloudflare"
  "cc_zone_name (cp_client ex_env_cloudflare) zid e = in_world (cc_zone_name ex_zone_client zid) e"
  "cc_list (cp_client ex_env_cloudflare) zid e = in_world (cc_list ex_zone_client zid) e"
  "cc_new (cp_client ex_env_cloudflare) zid b e = in_world (cc_new ex_zone_client zid b) e"
  "cc_update (cp_client ex_env_cloudflare) zid i b e = in_world (cc_update ex_zone_client zid i b) e"
  "cc_delete (cp_client ex_env_cloudflare) zid i e = in_world (cc_delete ex_zone_client zid i) e"
  "cell_get (cp_cell ex_env_cloudflare) e = zn_cache (env_world e)"
  "cell_put (cp_cell ex_env_cloudflare) c e = e\<lparr>env_world := (env_world e)\<lparr>zn_cache := c\<rparr>\<rparr>"
  by (simp_all add: ex_env_cloudflare_def ex_cloudflare_def)

lemma ex_env_laws:
  "reading_laws ex_env_cloudflare ex_zone_in ''lan''" "writing_laws ex_env_cloudflare ex_zone_in"
  "cell_laws ex_env_cloudflare ex_zone_in" "private_cell ex_env_cloudflare" "outside_zone ex_env_cloudflare ex_zone_in"
proof -
  have cell: "zn_cache (snd (cc_zone_name ex_zone_client zid s)) = zn_cache s" "zn_cache (snd (cc_list ex_zone_client zid s)) = zn_cache s"
    "zn_cache (snd (cc_new ex_zone_client zid b s)) = zn_cache s" "zn_cache (snd (cc_update ex_zone_client zid i b s)) = zn_cache s"
    "zn_cache (snd (cc_delete ex_zone_client zid i s)) = zn_cache s" for zid i b s
    by (simp_all add: ex_zone_client_def)
  have cached: "zone_at (s\<lparr>zn_cache := c\<rparr>) = zone_at s" for s c by (rule ext) (simp add: zone_at_def)
  show "reading_laws ex_env_cloudflare ex_zone_in ''lan''"
    using ex_reading unfolding reading_laws_def ex_env_ops by (simp add: in_world_def ex_zone_in_def)
  show "writing_laws ex_env_cloudflare ex_zone_in"
    using ex_writing unfolding writing_laws_def ex_env_ops by (simp add: in_world_def ex_zone_in_def)
  show "cell_laws ex_env_cloudflare ex_zone_in"
    unfolding cell_laws_def ex_env_ops by (simp add: in_world_def ex_zone_in_def cell cached)
  show "private_cell ex_env_cloudflare" unfolding private_cell_def ex_env_ops by (simp add: in_world_def cell)
  show "outside_zone ex_env_cloudflare ex_zone_in" by (simp add: outside_zone_def ex_zone_in_def)
qed

definition ex_zone_port :: "cf_zone env output_port" where
  "ex_zone_port = logging_output (timeout_output 10 (cloudflare_output ex_env_cloudflare))"

definition ex_zone_env :: "cf_zone env" where
  "ex_zone_env = \<lparr>env_world = \<lparr>zn_records = [\<lparr>cr_id = ''r7'', cr_type = ''A'', cr_name = ''nas.lan'', cr_content = ''10.0.0.7''\<rparr>,
       \<lparr>cr_id = ''r1'', cr_type = ''A'', cr_name = ''old.lan'', cr_content = ''10.0.0.3''\<rparr>], zn_cache = empty_cache\<rparr>,
     env_clock = 0, env_deadline = None, env_canceled = False, env_log = []\<rparr>"

definition ex_zone_owned :: snapshot where
  "ex_zone_owned = empty_snapshot\<lparr>sn_managed_records := [\<lparr>m_output = cp_ref ex_cloudflare, m_source = \<lparr>so_provider = ex_docker_ref,
     so_id = ''c3'', so_display_name = ''old''\<rparr>, m_hostname = ''old.lan'', m_answer = ''10.0.0.3'',
     m_provenance = Some \<lparr>rp_remote_id = ''r1''\<rparr>, m_last_applied_at = zero_time\<rparr>]\<rparr>"

definition ex_zone_listed :: "(go_error + visible_record list) \<times> cf_zone env" where
  "ex_zone_listed = out_list_visible ex_zone_port ex_zone_env"

definition ex_zone_plan :: reconcile_plan where
  "ex_zone_plan = build_reconcile_plan ex_orders (cp_ref ex_cloudflare) [ex_published]
     (case fst ex_zone_listed of Inr visible \<Rightarrow> visible | Inl err \<Rightarrow> []) ex_zone_owned"

definition ex_zone_pass :: "cf_zone env" where
  "ex_zone_pass = snd (apply_reconcile_plan ex_zone_port ex_zone_owned ex_zone_plan zero_time (snd ex_zone_listed))"


section \<open>An AdGuard server\<close>

definition ex_answer :: "string \<Rightarrow> http_response" where
  "ex_answer body = \<lparr>rs_status = 200, rs_body = body\<rparr>"

definition ex_rewrites_json :: "rewrite_item list \<Rightarrow> string" where
  "ex_rewrites_json rs = json_text 0 (JArray (map encode_rewrite rs)) @ [CHR 0x0A]"

text \<open>The server lists and adds rewrites and refuses every other request.\<close>

definition ex_http :: "rewrite_item list env http_client" where
  "ex_http =
     \<lparr>hc_check = (\<lambda>method url. None),
      hc_do = (\<lambda>rq e.
        if rq_method rq = ''GET'' then (Inr (ex_answer (ex_rewrites_json (env_world e))), e)
        else if has_suffix (rq_url rq) ''/add''
        then (case rq_body rq of
                None \<Rightarrow> (Inl (ErrText ''no body''), e)
              | Some j \<Rightarrow>
                  (case decode_struct rewrite_member j \<lparr>rw_domain = [], rw_answer = []\<rparr> of
                     Inl err \<Rightarrow> (Inl err, e)
                   | Inr r \<Rightarrow> (Inr (ex_answer []), e\<lparr>env_world := env_world e @ [r]\<rparr>)))
        else (Inl (ErrText ''unexpected request''), e))\<rparr>"

definition ex_adguard :: "rewrite_item list env adguard_provider" where
  "ex_adguard = \<lparr>ag_ref = \<lparr>pr_type = ''adguard'', pr_name = ''home''\<rparr>, ag_base_url = ''http://dns'', ag_username = ''u'',
     ag_password = ''p'', ag_client = ex_http\<rparr>"

lemma ex_server: "rewrite_server ex_adguard env_world"
proof -
  have client: "ag_client ex_adguard = ex_http" by (simp add: ex_adguard_def)
  have decoded: "\<exists>j. json_decode (ex_rewrites_json rs) = Some j \<and> decode_rewrites j = Inr rs" for rs
    unfolding ex_rewrites_json_def using decode_rewrites_text decode_rewrites_encode by blast
  have add: "has_suffix (base @ ''/control/rewrite/add'') ''/add''" for base
    by (simp add: has_suffix_def suffix_def)
  show ?thesis
    unfolding rewrite_server_def client
  proof (intro allI impI conjI)
    fix rq and w w' :: "rewrite_item list env" and resp
    assume ok: "hc_do ex_http rq w = (Inr resp, w') \<and> 200 \<le> rs_status resp \<and> rs_status resp < 300"
    {
      assume get: "rq_method rq = ''GET'' \<and> rq_url rq = trim_right_slash (ag_base_url ex_adguard) @ ''/control/rewrite/list''"
      then have "resp = ex_answer (ex_rewrites_json (env_world w)) \<and> w' = w" using ok by (auto simp: ex_http_def)
      then show "env_world w' = env_world w" "\<exists>j. json_decode (rs_body resp) = Some j \<and> decode_rewrites j = Inr (env_world w)"
        using decoded by (simp_all add: ex_answer_def)
    next
      fix r
      assume post: "rq_method rq = ''POST'' \<and> rq_url rq = trim_right_slash (ag_base_url ex_adguard) @ ''/control/rewrite/add'' \<and>
        rq_body rq = Some (encode_rewrite r)"
      then have "w' = w\<lparr>env_world := env_world w @ [r]\<rparr>" using ok add by (simp add: ex_http_def)
      then show "env_world w' = env_world w @ [r]" by simp
    }
  qed
qed

lemma ex_request:
  assumes "hc_do ex_http \<lparr>rq_method = method, rq_url = ''http://dns'' @ path, rq_username = ''u'', rq_password = ''p'', rq_body = body\<rparr> e =
    (Inr (ex_answer answer), e')"
  shows "request_json ex_adguard method path body e = (Inr answer, e')"
proof -
  have base: "trim_space (ag_base_url ex_adguard) \<noteq> []" "trim_right_slash (ag_base_url ex_adguard) = ''http://dns''" by code_simp+
  have fields: "ag_client ex_adguard = ex_http" "ag_username ex_adguard = ''u''" "ag_password ex_adguard = ''p''"
    "hc_check ex_http m u = None" for m u by (simp_all add: ex_adguard_def ex_http_def)
  show ?thesis
    unfolding request_json_def Let_def base(2) fields assms using base(1) by (simp add: ex_answer_def)
qed

lemma ex_adguard_ops:
  "adguard_list_visible ex_adguard e = (Inr (map (visible_of_rewrite (ag_ref ex_adguard)) (env_world e)), e)"
  "adguard_create ex_adguard d e = (Inr None, e\<lparr>env_world := env_world e @ [rewrite_of_desired d]\<rparr>)"
proof -
  have "request_json ex_adguard ''GET'' ''/control/rewrite/list'' None e = (Inr (ex_rewrites_json (env_world e)), e)"
    by (rule ex_request) (simp add: ex_http_def)
  then show "adguard_list_visible ex_adguard e = (Inr (map (visible_of_rewrite (ag_ref ex_adguard)) (env_world e)), e)"
    by (simp add: adguard_list_visible_def ex_rewrites_json_def decode_rewrites_text decode_rewrites_encode)
  have "has_suffix ''http://dns/control/rewrite/add'' ''/add''" by code_simp
  then have "request_json ex_adguard ''POST'' ''/control/rewrite/add'' (Some (encode_rewrite r)) e =
      (Inr [], e\<lparr>env_world := env_world e @ [r]\<rparr>)" for r
    using ex_request [of "''POST''" "''/control/rewrite/add''" "Some (encode_rewrite r)" e "[]"] by (simp add: ex_http_def)
  then show "adguard_create ex_adguard d e = (Inr None, e\<lparr>env_world := env_world e @ [rewrite_of_desired d]\<rparr>)"
    by (simp add: adguard_create_def request_only_def)
qed

definition ex_adguard_port :: "rewrite_item list env output_port" where
  "ex_adguard_port = logging_output (timeout_output 1000 (adguard_output ex_adguard))"

definition ex_start_env :: "rewrite_item list env" where
  "ex_start_env = \<lparr>env_world = [\<lparr>rw_domain = ''tv.lan'', rw_answer = ''10.0.0.4''\<rparr>], env_clock = 0, env_deadline = None,
     env_canceled = False, env_log = []\<rparr>"

definition ex_first_plan :: reconcile_plan where
  "ex_first_plan = build_reconcile_plan ex_orders (ag_ref ex_adguard) [ex_published]
     (map (visible_of_rewrite (ag_ref ex_adguard)) (env_world ex_start_env)) empty_snapshot"

definition ex_first_apply :: "(snapshot \<times> bool \<times> go_error option) \<times> rewrite_item list env" where
  "ex_first_apply = apply_reconcile_plan ex_adguard_port empty_snapshot ex_first_plan zero_time ex_start_env"

theorem adguard_first_sync_settles_witness:
  "pl_creates ex_first_plan = [ex_published] \<and>
   pl_creates (build_reconcile_plan ex_orders (ag_ref ex_adguard) [ex_published]
     (map (visible_of_rewrite (ag_ref ex_adguard)) (env_world (snd ex_first_apply))) (fst (fst ex_first_apply))) = [] \<and>
   pl_ambiguities (build_reconcile_plan ex_orders (ag_ref ex_adguard) [ex_published]
     (map (visible_of_rewrite (ag_ref ex_adguard)) (env_world (snd ex_first_apply))) (fst (fst ex_first_apply))) = []"
proof -
  have creates: "pl_creates ex_first_plan = [ex_published]" and clear: "pl_ambiguities ex_first_plan = []" by code_simp+
  have ref: "out_provider ex_adguard_port = ag_ref ex_adguard" by (simp add: ex_adguard_port_def adguard_output_def)
  have list: "out_list_visible ex_adguard_port e = (Inr (map (visible_of_rewrite (ag_ref ex_adguard)) (env_world e)), e)" for e
    by (simp add: ex_adguard_port_def logging_output_def timeout_output_def adguard_output_def with_operation_timeout_def ex_adguard_ops)
  have create: "\<exists>e'. out_create ex_adguard_port d e = (Inr None, e')" for d e
    by (simp add: ex_adguard_port_def logging_output_def timeout_output_def adguard_output_def with_operation_timeout_def ex_adguard_ops logged_def)
  have rest: "pl_updates ex_first_plan = []" "pl_deletes ex_first_plan = []" by code_simp+
  have "snd (snd (fst ex_first_apply)) = None"
    unfolding ex_first_apply_def apply_reconcile_plan_def apply_calls_def creates rest
    using create [of ex_published ex_start_env] by (auto simp: apply_create_def Let_def split: prod.splits sum.splits)
  then have run: "\<exists>progressed. apply_reconcile_plan ex_adguard_port empty_snapshot ex_first_plan zero_time ex_start_env =
      ((fst (fst ex_first_apply), progressed, None), snd ex_first_apply)"
    unfolding ex_first_apply_def by (metis prod.collapse)
  have pass: "first_pass ex_adguard_port ex_orders zero_time [ex_published] empty_snapshot
      (map (visible_of_rewrite (ag_ref ex_adguard)) (env_world ex_start_env)) ex_start_env ex_first_plan
      (fst (fst ex_first_apply)) (snd ex_first_apply)"
    unfolding first_pass_def ref using run by (simp add: ex_first_plan_def owned_of_def empty_snapshot_def)
  have outside: "outside_rewrites (env_world :: rewrite_item list env \<Rightarrow> rewrite_item list)" by (simp add: outside_rewrites_def)
  have apart: "told_apart (ag_ref ex_adguard) [ex_published]" by code_simp
  show ?thesis
    using adguard_first_sync_settles [OF ex_server outside apart ex_adguard_port_def list pass list refl] creates clear
    by blast
qed

section \<open>A configuration\<close>

definition ex_parsers :: parsers where
  "ex_parsers = \<lparr>parse_duration = (\<lambda>s. if s = ''1s'' then Inr 1000000000 else if s = ''1m'' then Inr 60000000000
      else Inl (ErrText ''invalid duration'')), parse_addr_ok = (\<lambda>s. s = ''10.0.0.2'')\<rparr>"

definition ex_adguard_config :: output_config where
  "ex_adguard_config = \<lparr>oc_type = ''adguard'', oc_name = ''home'', oc_enabled = None, oc_url = ''http://dns'', oc_username = ''u'',
     oc_password = [], oc_password_ref = '' ENV: DNS_PASSWORD'', oc_zone_id = [], oc_api_key = [], oc_api_key_ref = []\<rparr>"

definition ex_cloudflare_config :: output_config where
  "ex_cloudflare_config = \<lparr>oc_type = ''cloudflare'', oc_name = ''main'', oc_enabled = Some False, oc_url = [], oc_username = [],
     oc_password = [], oc_password_ref = [], oc_zone_id = ''z1'', oc_api_key = [], oc_api_key_ref = ''ENV:MISSING''\<rparr>"

definition ex_config :: "output_config list \<Rightarrow> config" where
  "ex_config outs = \<lparr>cf_sources = [\<lparr>sc_type = ''docker'', sc_name = ''local'', sc_endpoint = ''unix:///var/run/docker.sock'',
       sc_host_ip = ''10.0.0.2'', sc_base_domain = ''lan''\<rparr>], cf_outputs = outs, cf_state_path = ex_path,
     cf_logging = \<lparr>lc_level = '' Info'', lc_format = ''json''\<rparr>, cf_operation_timeout = [],
     cf_retry = \<lparr>rc_initial_interval = ''1s'', rc_max_interval = ''1m'', rc_max_elapsed_time = ''1m''\<rparr>\<rparr>"

definition ex_variables :: "string \<Rightarrow> string option" where
  "ex_variables nm = (if nm = ''DNS_PASSWORD'' then Some ''secret'' else None)"

lemma ex_valid: "validate ex_parsers (ex_config [ex_adguard_config, ex_cloudflare_config]) = None"
  "validate ex_parsers (ex_config [ex_cloudflare_config]) = None"
  by code_simp+

lemma ex_resolves: "resolve_secrets (ex_config outs) (Some ex_variables) =
    Inr ((ex_config outs)\<lparr>cf_outputs := map (with_secrets ex_variables) outs\<rparr>)"
  if "list_all (\<lambda>out. \<not> dangling ex_variables out) outs"
proof -
  have "resolve_outputs ex_variables 0 outs = Inr (map (with_secrets ex_variables) outs)"
    unfolding resolve_outputs_Inr using that by (simp add: list_all_iff)
  then show ?thesis by (simp add: resolve_secrets_def ex_config_def)
qed

lemma ex_not_dangling: "list_all (\<lambda>out. \<not> dangling ex_variables out) [ex_adguard_config, ex_cloudflare_config]"
  "list_all (\<lambda>out. \<not> dangling ex_variables out) [ex_cloudflare_config]"
  by code_simp+

theorem secrets_resolved_witness:
  "list_all signs_in (map (with_secrets ex_variables) [ex_adguard_config, ex_cloudflare_config]) \<and>
   oc_password (with_secrets ex_variables ex_adguard_config) = ''secret''"
proof
  show "list_all signs_in (map (with_secrets ex_variables) [ex_adguard_config, ex_cloudflare_config])"
    using secrets_resolved [OF ex_valid(1), of ex_variables] ex_resolves [OF ex_not_dangling(1)] by (simp add: ex_config_def)
  show "oc_password (with_secrets ex_variables ex_adguard_config) = ''secret''" by code_simp
qed

section \<open>Starting\<close>

definition ex_libraries :: "nat libraries" where
  "ex_libraries = \<lparr>lb_range = sorted_order, lb_url_hostname = (\<lambda>s. None),
     lb_docker = (\<lambda>endpoint. Inr (\<lambda>e. (Inr [], e))),
     lb_http = \<lparr>hc_check = (\<lambda>m u. None), hc_do = (\<lambda>rq e. (Inl (ErrText ''refused''), e))\<rparr>,
     lb_cloudflare = (\<lambda>token. \<lparr>cc_zone_name = (\<lambda>z e. (Inr ''lan'', e)), cc_list = (\<lambda>z e. (([], None), e)),
       cc_new = (\<lambda>z b e. (Inr ''r1'', e)), cc_update = (\<lambda>z i b e. (Inr i, e)), cc_delete = (\<lambda>z i e. (Inr (), e))\<rparr>),
     lb_cell = (\<lambda>cfg. \<lparr>cell_get = (\<lambda>e. empty_cache), cell_put = (\<lambda>c e. e)\<rparr>), lb_parse_ip = (\<lambda>s. Some True)\<rparr>"

definition ex_setting :: "nat setting" where
  "ex_setting = \<lparr>st_parsers = ex_parsers, st_lookup_env = ex_variables,
     st_registry = the (new_default_factory_registry ex_libraries), st_calendar = (\<lambda>e. zero_time),
     st_orders = (\<lambda>e. ex_orders), st_wait = (\<lambda>d e. (True, e\<lparr>env_clock := env_clock e + d\<rparr>))\<rparr>"

lemma ex_registry:
  "new_default_factory_registry ex_libraries = Some (st_registry ex_setting)"
  "fr_sources (st_registry ex_setting) = fmupd ''docker'' (docker_factory ex_libraries) fmempty"
  "fr_outputs (st_registry ex_setting) =
     fmupd ''cloudflare'' (cloudflare_factory ex_libraries) (fmupd ''adguard'' (adguard_factory ex_libraries) fmempty)"
  using default_registry [of ex_libraries] by (auto simp: ex_setting_def)

lemma ex_strict: "strict_durations ex_parsers"
proof -
  have "trim_space ''1s'' = ''1s''" "trim_space ''1m'' = ''1m''" by code_simp+
  then show ?thesis by (auto simp: strict_durations_def ex_parsers_def split: if_splits)
qed

definition ex_deps :: runtime_deps where
  "ex_deps = (case new_runtime_deps ex_parsers (ex_config []) of Inr deps \<Rightarrow> deps)"

lemma ex_new_deps: "new_runtime_deps ex_parsers (ex_config outs) = Inr ex_deps"
proof -
  have level: "to_lower (trim_space '' Info'') = ''info''" by code_simp
  have "\<exists>deps. new_runtime_deps ex_parsers (ex_config []) = Inr deps"
    by (simp add: level new_runtime_deps_def parse_log_level_def parse_retry_policy_def parse_operation_timeout_def
        ex_config_def ex_parsers_def Let_def)
  then have "new_runtime_deps ex_parsers (ex_config []) = Inr ex_deps" by (auto simp: ex_deps_def)
  moreover have "ex_config outs = (ex_config [])\<lparr>cf_outputs := outs\<rparr>" by (simp add: ex_config_def)
  ultimately show ?thesis by (simp only: deps_of_resolved)
qed

lemma ex_new_store: "new_store ex_path (snd ex_saved) = (Inr ex_path, snd ex_saved)"
proof -
  have "path_exists (snd ex_saved) ex_path" using ex_stored
    by (auto simp: stored_def path_exists_def fmlookup_dom_iff split: option.splits)
  then have "os_stat ex_path (snd ex_saved) = (Inr (), snd ex_saved)"
    using ex_saved_fs by (simp add: os_stat_def syscall_def)
  moreover have "ex_path \<noteq> []" by (simp add: ex_path_def)
  ultimately show ?thesis by (simp add: new_store_def ex_load)
qed

lemma ex_starts:
  assumes "validate ex_parsers (ex_config outs) = None" "list_all (\<lambda>out. \<not> dangling ex_variables out) outs"
    and "list_all (\<lambda>out. oc_type out \<in> {''adguard'', ''cloudflare''}) outs"
  shows "\<exists>sources outputs. start_app ex_setting (ex_config outs) (snd ex_saved) =
      (Inr (new_app ex_setting ex_deps ex_path sources outputs), snd ex_saved) \<and>
    map src_list_desired sources = [\<lambda>e. (Inr [], e)] \<and> length outputs = length (filter is_enabled outs)"
proof -
  let ?resolved = "(ex_config outs)\<lparr>cf_outputs := map (with_secrets ex_variables) outs\<rparr>"
  let ?p = "\<lparr>dk_ref = \<lparr>pr_type = ''docker'', pr_name = ''local''\<rparr>, dk_endpoint = ''unix:///var/run/docker.sock'',
     dk_default_host = default_answer_target (\<lambda>s. None) (hd (cf_sources (ex_config outs))), dk_base_domain = normalize_name ''lan'',
     dk_container_list = (\<lambda>e. (Inr [], e))\<rparr> :: nat env docker_provider"
  have fields: "cf_sources ?resolved = cf_sources (ex_config outs)" "cf_state_path ?resolved = ex_path"
    "cf_outputs ?resolved = map (with_secrets ex_variables) outs" by (simp_all add: ex_config_def)
  have deps: "new_runtime_deps ex_parsers ?resolved = Inr ex_deps" unfolding deps_of_resolved by (rule ex_new_deps)
  have sources: "build_sources (st_registry ex_setting) ex_deps 0 (cf_sources (ex_config outs)) = Inr [docker_source sorted_order ?p]"
    by (simp add: ex_registry docker_factory_def docker_new_def ex_libraries_def ex_config_def)
  have outputs: "\<exists>outputs. build_outputs (st_registry ex_setting) ex_deps i (map (with_secrets ex_variables) os) = Inr outputs \<and>
      length outputs = length (filter is_enabled os)"
    if "list_all (\<lambda>out. oc_type out \<in> {''adguard'', ''cloudflare''}) os" for i os
    using that
  proof (induction os arbitrary: i)
    case (Cons out os)
    then obtain outputs where "build_outputs (st_registry ex_setting) ex_deps (Suc i) (map (with_secrets ex_variables) os) = Inr outputs"
      "length outputs = length (filter is_enabled os)" by fastforce
    then show ?case using Cons.prems
      by (auto simp: ex_registry adguard_factory_def cloudflare_factory_def)
  qed simp
  obtain outputs where outs: "build_outputs (st_registry ex_setting) ex_deps 0 (map (with_secrets ex_variables) outs) = Inr outputs"
    "length outputs = length (filter is_enabled outs)" using outputs [OF assms(3)] by blast
  have setting: "st_parsers ex_setting = ex_parsers" "st_lookup_env ex_setting = ex_variables" by (simp_all add: ex_setting_def)
  have "start_app ex_setting (ex_config outs) (snd ex_saved) =
      (Inr (new_app ex_setting ex_deps ex_path [docker_source sorted_order ?p] outputs), snd ex_saved)"
    unfolding start_app_def setting assms(1) ex_resolves [OF assms(2)] option.case sum.case deps fields ex_new_store
      build_providers_def sources outs by simp
  moreover have "src_list_desired (docker_source sorted_order ?p) = (\<lambda>e. (Inr [], e))"
    by (rule ext) (simp add: docker_source_def docker_list_desired_def)
  then have "map src_list_desired [docker_source sorted_order ?p] = [\<lambda>e. (Inr [], e)]" by (simp only: list.map)
  ultimately show ?thesis
    using outs(2) by (intro exI [of _ "[docker_source sorted_order ?p]"] exI [of _ outputs] conjI)
qed


theorem validated_config_starts_soundly_witness:
  "\<exists>a. fst (start_app ex_setting (ex_config [ex_adguard_config, ex_cloudflare_config]) (snd ex_saved)) = Inr a \<and>
     sound_app a \<and> map out_provider (app_outputs a) = [\<lparr>pr_type = ''adguard'', pr_name = ''home''\<rparr>] \<and>
     timed_providers ex_setting (ex_config [ex_adguard_config, ex_cloudflare_config]) (10 * 10 ^ 9) a"
proof -
  have types: "list_all (\<lambda>out. oc_type out \<in> {''adguard'', ''cloudflare''}) [ex_adguard_config, ex_cloudflare_config]" by code_simp
  obtain a where a: "start_app ex_setting (ex_config [ex_adguard_config, ex_cloudflare_config]) (snd ex_saved) = (Inr a, snd ex_saved)"
    using ex_starts [OF ex_valid(1) ex_not_dangling(1) types] by blast
  have strict: "strict_durations (st_parsers ex_setting)" using ex_strict by (simp add: ex_setting_def)
  have blank: "trim_space (cf_operation_timeout (ex_config outs)) = []" for outs by (simp add: ex_config_def)
  note ok = validated_config_starts_soundly [OF ex_registry(1) strict a]
  have "sound_app a" "timed_providers ex_setting (ex_config [ex_adguard_config, ex_cloudflare_config]) (10 * 10 ^ 9) a"
    using ok by (auto simp: configured_timeout_def blank)
  moreover have "map out_provider (app_outputs a) = [\<lparr>pr_type = ''adguard'', pr_name = ''home''\<rparr>]"
    using ok by (simp add: ex_config_def ex_adguard_config_def ex_cloudflare_config_def is_enabled_def output_ref_def)
  ultimately show ?thesis using a by simp
qed

text \<open>With its only output disabled the daemon passes over an empty list of containers.\<close>

theorem running_store_readable_witness:
  "\<exists>a h'. app_reaches ex_setting (ex_config [ex_cloudflare_config]) ex_host a h' \<and> reconcile a ex_host = Some (None, h') \<and>
     (\<exists>s'. stored ex_path (ho_fs h') = Some s' \<and> owned_of ex_output s' = owned_of ex_output ex_snapshot)"
proof -
  have types: "list_all (\<lambda>out. oc_type out \<in> {''adguard'', ''cloudflare''}) [ex_cloudflare_config]" by code_simp
  obtain sources outputs where start: "start_app ex_setting (ex_config [ex_cloudflare_config]) (snd ex_saved) =
      (Inr (new_app ex_setting ex_deps ex_path sources outputs), snd ex_saved)"
    and srcs: "map src_list_desired sources = [\<lambda>e. (Inr [], e)]" and outs: "outputs = []"
    using ex_starts [OF ex_valid(2) ex_not_dangling(2) types] by (auto simp: ex_cloudflare_config_def is_enabled_def)
  obtain src where src: "sources = [src]" "src_list_desired src = (\<lambda>e. (Inr [], e))" using srcs by (auto simp: map_eq_Cons_conv)
  let ?a = "new_app ex_setting ex_deps ex_path sources outputs"
  have fields: "app_store ?a = ex_path" "app_outputs ?a = []" "app_sources ?a = [timeout_source (rd_operation_timeout ex_deps) src]"
    by (simp_all add: new_app_def set_providers_def wrap_sources_def wrap_outputs_def outs src)
  have listing: "src_list_desired (timeout_source t src) e = (Inr [], e)" for t e
    by (simp add: timeout_source_def with_operation_timeout_def src(2) Let_def)
  have once: "reconcile_once ?a ex_host = (None, ex_host)"
    by (simp add: reconcile_once_def fields ex_host_def ex_load listing)
  have pass: "reconcile ?a ex_host = Some (None, ex_host)"
    by (simp add: reconcile_def reconcile_loop.simps [of ?a] reconcile_attempt_alt once)
  have host: "ho_fs ex_host = snd ex_saved" "ex_host\<lparr>ho_fs := snd ex_saved\<rparr> = ex_host" by (simp_all add: ex_host_def)
  have reach: "app_reaches ex_setting (ex_config [ex_cloudflare_config]) ex_host ?a ex_host"
    by (rule app_reaches.reconciled [where f = "snd ex_saved" and r = None], unfold host) (rule start pass)+
  have naming: "naming_registry (st_registry ex_setting)" by (rule default_registry_names [OF ex_registry(1)])
  have calendar: "valid_time (st_calendar ex_setting e)" for e by (simp add: ex_setting_def zero_time_valid)
  have path: "cf_state_path (ex_config [ex_cloudflare_config]) = ex_path" by (simp add: ex_config_def)
  have unconfigured: "ex_output \<notin> output_ref ` set (filter is_enabled (cf_outputs (ex_config [ex_cloudflare_config])))"
    by (simp add: ex_config_def ex_cloudflare_config_def is_enabled_def)
  have "start_app ex_setting (ex_config [ex_cloudflare_config]) (ho_fs ex_host) = (Inr ?a, snd ex_saved)" using start host by simp
  from running_store_readable [OF naming calendar this reach] unconfigured ex_stored
  have "\<exists>s'. stored ex_path (ho_fs ex_host) = Some s' \<and> owned_of ex_output s' = owned_of ex_output ex_snapshot"
    unfolding path by auto
  with reach pass show ?thesis by blast
qed

end
