(* ===== verification/Observations.thy ===== *)
theory Observations
  imports Provider_Witness
begin

text \<open>
  Concrete runs in which the program does something its documentation does not lead one to
  expect.
\<close>

section \<open>Labels\<close>

text \<open>
  The alias of a discovered port label is lower-cased, and the host override is then looked up
  under the lower-cased name: an override beside the port label, in the same spelling, is not
  found.
\<close>

definition shouting_container :: container_summary where
  "shouting_container = ex_container\<lparr>ct_labels := fmap_of_list [(''proxy.Web.port'', ''80''), (''proxy.Web.host'', ''10.0.0.9'')]\<rparr>"

lemma override_in_capitals_lost:
  "map d_answer (derive_desired_records sorted_order ex_docker_ref ''10.0.0.1'' ''lan'' shouting_container) = [''10.0.0.1'']"
  by code_simp

text \<open>
  A port label whose alias is a blank counts as a named port: nothing is published for it, and
  the wildcard label is not tried for the name of the container.
\<close>

definition blank_alias_container :: container_summary where
  "blank_alias_container = ex_container\<lparr>ct_labels := fmap_of_list [(''proxy. .port'', ''80''), (''proxy.*.port'', ''81'')]\<rparr>"

lemma blank_alias_hides_wildcard:
  "derive_desired_records sorted_order ex_docker_ref ''10.0.0.1'' ''lan'' blank_alias_container = [] \<and>
   map d_hostname (derive_desired_records sorted_order ex_docker_ref ''10.0.0.1'' ''lan''
     (blank_alias_container\<lparr>ct_labels := fmap_of_list [(''proxy.*.port'', ''81'')]\<rparr>)) = [''web.lan'']"
  by code_simp

section \<open>Plans\<close>

text \<open>
  Two containers that want the same hostname and answer get one record each. When the output
  shows both, the next pass calls the output ambiguous and fails.
\<close>

definition twins :: "desired_record list" where
  "twins = [ex_wanted ''c1'' ''web-1'' ''web.lan'' ''10.0.0.1'', ex_wanted ''c2'' ''web-2'' ''web.lan'' ''10.0.0.1'']"

lemma twins_created_twice:
  "map (\<lambda>d. (d_hostname d, d_answer d))
     (pl_creates (build_reconcile_plan ex_orders ex_output twins [] empty_snapshot)) =
   [(''web.lan'', ''10.0.0.1''), (''web.lan'', ''10.0.0.1'')] \<and>
   pl_ambiguities (build_reconcile_plan ex_orders ex_output twins
     [ex_shown ''web.lan'' ''10.0.0.1'' ''r1'', ex_shown ''web.lan'' ''10.0.0.1'' ''r2''] empty_snapshot) \<noteq> []"
  by code_simp

section \<open>Delays\<close>

text \<open>Doubling a delay of more than a century and a half wraps around to a negative delay.\<close>

lemma backoff_wraps: "next_backoff_delay (5 * 10 ^ 18) (9 * 10 ^ 18) < 0"
  by code_simp

end
