(* ===== verification/Spec2Isabelle.thy ===== *)
theory Spec2Isabelle
  imports Observations
begin

text \<open>
  docker-dns-sync: a verification development for the daemon under \<^verbatim>\<open>src/\<close>.

  THE PROGRAM. The daemon keeps DNS records in step with Docker containers. A source
  (\<^verbatim>\<open>internal/providers/docker\<close>) reads the labels of the running containers and derives desired
  records; an output (\<^verbatim>\<open>internal/providers/adguard\<close>, \<^verbatim>\<open>internal/providers/cloudflare\<close>) shows the
  records of a DNS server and creates, updates and deletes them; the runtime
  (\<^verbatim>\<open>internal/runtime\<close>) compares the two and changes only records whose ownership it can prove;
  what it owns is kept in a JSON file (\<^verbatim>\<open>internal/state\<close>). \<^verbatim>\<open>internal/config\<close> reads and
  validates the configuration and fills in secrets, \<^verbatim>\<open>cmd/docker-dns-sync\<close> starts the daemon.
  After the first reconciliation the daemon waits for hints from watches on its sources,
  coalesces them, reconciles again, and reconnects watches that broke.

  THE THEORIES, from the bottom up. Source paths are relative to \<^verbatim>\<open>src/internal\<close>.

  \<^verbatim>\<open>Sync_Prelude\<close>: Go's package \<^verbatim>\<open>strings\<close> as far as the code uses it, Go maps as finite maps
  whose iteration order is an argument, sorting, the collections of rules, and the interfaces
  \<^verbatim>\<open>field_normalizer\<close> (a normalization that two fields can be compared under), \<^verbatim>\<open>step_invariant\<close>
  (a step of the apply phase that keeps a predicate) and \<^verbatim>\<open>establishing_loop\<close> (a phase that
  establishes a fact per call).

  \<^verbatim>\<open>Contracts\<close>: the records of \<^verbatim>\<open>contracts/\<close> and \<^verbatim>\<open>state/model.go\<close>, the interfaces \<^verbatim>\<open>Output\<close> and
  \<^verbatim>\<open>Source\<close> as records of operations on an arbitrary world \<^verbatim>\<open>'w\<close> (\<^verbatim>\<open>output_port\<close>, \<^verbatim>\<open>source_port\<close>),
  and the error values of \<^verbatim>\<open>runtime/\<close>: \<^verbatim>\<open>go_error\<close> has one constructor per error struct,
  \<^verbatim>\<open>err_message\<close>, \<^verbatim>\<open>err_chain\<close> are Error and Unwrap, \<^verbatim>\<open>errors.Is\<close> and \<^verbatim>\<open>errors.As\<close> are searches of
  the chain.

  \<^verbatim>\<open>Record_Keys\<close>, \<^verbatim>\<open>Reconcile_Plan\<close>, \<^verbatim>\<open>Plan_Decision\<close>, \<^verbatim>\<open>Plan_Safety\<close>: \<^verbatim>\<open>runtime/reconcile_keys.go\<close>
  and \<^verbatim>\<open>reconcile_plan.go\<close>. \<^verbatim>\<open>build_reconcile_plan\<close> follows \<^verbatim>\<open>buildReconcilePlan\<close> loop by loop.
  \<^verbatim>\<open>Plan_Decision\<close> gives each lineage one entry of a decision table and proves the loops equal
  to it; \<^verbatim>\<open>Plan_Safety\<close> has what the plan promises, for each iteration order of the three map
  loops.

  \<^verbatim>\<open>Runtime_Env\<close>: the clock, the context and the log of mutations (\<^verbatim>\<open>env\<close>), the wrappers
  \<^verbatim>\<open>withOperationTimeout\<close>, \<^verbatim>\<open>timeoutOutput\<close>, \<^verbatim>\<open>loggingOutput\<close>, \<^verbatim>\<open>timeoutSource\<close> of
  \<^verbatim>\<open>runtime/app.go\<close>, and what a wrapped operation promises beside the operation it wraps
  (\<^verbatim>\<open>ends_within\<close>, \<^verbatim>\<open>limited_source\<close>, \<^verbatim>\<open>limited_output\<close>).

  \<^verbatim>\<open>Reconcile_Apply\<close>, \<^verbatim>\<open>Apply_Correct\<close>, \<^verbatim>\<open>Apply_Ownership\<close>: \<^verbatim>\<open>runtime/reconcile_apply.go\<close>.
  \<^verbatim>\<open>apply_reconcile_plan\<close> runs creates, updates and deletes, editing the map of owned records
  after each call and stopping at the first failure. The lemmas say which calls ran, what the
  snapshot looks like, and for which reasons a record may leave the books.

  \<^verbatim>\<open>File_Path\<close>, \<^verbatim>\<open>Atomic_File\<close>, \<^verbatim>\<open>Atomic_Correct\<close>: \<^verbatim>\<open>state/atomic_file.go\<close> over a model of a Unix
  file system (files with contents, mode and a flushed mark, directories, an oracle that lets
  any system call fail, and the trace of all intermediate states). The lemmas say what a
  reader, or the next start after a crash, can find at the path. \<^verbatim>\<open>fs_calls\<close> is the interface
  of a relation between file systems that the system calls keep; the save keeps each such
  relation, and its interpretations say what becomes of directories and of the oracle.

  \<^verbatim>\<open>Json_Text\<close>, \<^verbatim>\<open>Snapshot_Codec\<close>, \<^verbatim>\<open>State_Store\<close>, \<^verbatim>\<open>Store_Refine\<close>: \<^verbatim>\<open>state/store.go\<close> and the JSON
  text it reads and writes: the printer of \<^verbatim>\<open>MarshalIndent\<close> with its escapes, a parser of JSON,
  the struct tags of \<^verbatim>\<open>state/model.go\<close> and RFC 3339 times. The interface \<^verbatim>\<open>snapshot_store\<close> is
  the abstract store (a cell that holds at most one snapshot, load returns what was saved
  last); the file store is an interpretation of it, and the runtime's lemmas rest on the
  interpretation. \<^verbatim>\<open>Store_Refine\<close> extends it to whole histories of calls and, for a file system
  without faults, to loads that succeed (\<^verbatim>\<open>reliable_store\<close>).

  \<^verbatim>\<open>Reconcile_Run\<close>: \<^verbatim>\<open>runtime/reconcile.go\<close>, one pass over one output with the save of partial
  progress. \<^verbatim>\<open>App_Reconcile\<close>, \<^verbatim>\<open>App_Safety\<close>: \<^verbatim>\<open>reconcileOnce\<close>, the retry loop \<^verbatim>\<open>reconcile\<close> and
  \<^verbatim>\<open>nextBackoffDelay\<close> of \<^verbatim>\<open>runtime/app.go\<close>. The loop is a \<^verbatim>\<open>partial_function (option)\<close>, so that
  not returning is None; that it returns is proved.

  \<^verbatim>\<open>Steady_State\<close>, \<^verbatim>\<open>Steady_Correct\<close>: \<^verbatim>\<open>runSteadyState\<close> of \<^verbatim>\<open>runtime/app.go\<close>: handlers as
  functions, and the loop, the goroutines of the watches, the reconnect timers and the event
  channel as a labelled step relation, with invariants for each interleaving.

  \<^verbatim>\<open>Docker_Labels\<close>, \<^verbatim>\<open>Docker_Derive\<close>, \<^verbatim>\<open>Docker_Source\<close>: \<^verbatim>\<open>providers/docker/labels.go\<close> and
  \<^verbatim>\<open>source.go\<close>: the derivation of records from labels, the listing and the watch goroutine.
  \<^verbatim>\<open>wanted_records\<close> of \<^verbatim>\<open>Docker_Derive\<close> states the rules of the labels as a multiset of records,
  without loops and without the functions of the code that look for aliases, ports and hosts.

  \<^verbatim>\<open>Config_Check\<close>, \<^verbatim>\<open>Config_Secrets\<close>: \<^verbatim>\<open>config/validate.go\<close>, \<^verbatim>\<open>secrets.go\<close>, \<^verbatim>\<open>load.go\<close>, \<^verbatim>\<open>model.go\<close>.

  \<^verbatim>\<open>Adguard_Output\<close>, \<^verbatim>\<open>First_Sync\<close>: \<^verbatim>\<open>providers/adguard/output.go\<close> (and the stub of
  \<^verbatim>\<open>adguardstub/\<close>), and the end-to-end claim that a first synchronisation settles.

  \<^verbatim>\<open>Cloudflare_Output\<close>, \<^verbatim>\<open>Cloudflare_Correct\<close>, \<^verbatim>\<open>Cloudflare_Zone\<close>, \<^verbatim>\<open>Cloudflare_Pass\<close>:
  \<^verbatim>\<open>providers/cloudflare/output.go\<close>: operations, cache, recovery from duplicates,
  classification and redaction of errors; which record of a zone each operation can change,
  and what a whole pass with its plan leaves alone.

  \<^verbatim>\<open>Runtime_Deps\<close>, \<^verbatim>\<open>Startup\<close>, \<^verbatim>\<open>Startup_Correct\<close>: \<^verbatim>\<open>runtime/deps.go\<close>, \<^verbatim>\<open>runtime/factories.go\<close>,
  \<^verbatim>\<open>App.Run\<close>, and \<^verbatim>\<open>runWithContext\<close> of \<^verbatim>\<open>src/cmd/docker-dns-sync/main.go\<close>.

  \<^verbatim>\<open>Plan_Witness\<close>, \<^verbatim>\<open>Apply_Witness\<close>, \<^verbatim>\<open>App_Witness\<close>, \<^verbatim>\<open>Provider_Witness\<close>: concrete worlds (a
  server, a file system, containers, a zone, a configuration) on which the definitions are
  evaluated and the theorems applied.

  HOW STATE AND EFFECTS ARE MODELLED. Go's pointers to maps become values that are passed and
  returned. Effects on the outside (servers, the file system, the clock, the log) are a state
  of type \<^verbatim>\<open>env\<close> around a world \<^verbatim>\<open>'w\<close>, and \<^verbatim>\<open>host\<close> beside the file system; an operation of an
  output or a source is any function on it that returns an error or a value, so a theorem
  about the runtime holds for each implementation of the interfaces. Go errors are values of
  \<^verbatim>\<open>go_error\<close>, results are sums with the error on the left. Where Go ranges over a map the
  order of iteration is an argument, and the theorems hold for each order (one of them says
  that it does not show in a plan). \<^verbatim>\<open>time.Duration\<close> is an integer of 64 bits with the
  wrap-around written out (\<^verbatim>\<open>wrap64\<close>) in the doubling of the delays.

  BOUNDS AND FUEL. The theorem that the retry loop returns bounds delays and single waits by
  2^60 nanoseconds (36 years), so that sums of three of them stay below the 2^62 at which
  doubling would leave the range in which a doubled delay is exact. The JSON parser has fuel,
  twice the length of the text plus one: each nested call consumes a character or moves to a
  production of smaller rank, and the round trip of the state file shows that it suffices for
  each printed text. \<^verbatim>\<open>fresh_name\<close> tries 10000 names, as \<^verbatim>\<open>os.CreateTemp\<close> does. Timestamps are
  calendar fields with a year below 10000, as RFC 3339 needs.

  ARGUMENTS OF THE MODEL, code that is not in this repository: the Docker client, the HTTP
  client, the Cloudflare client, the TOML decoder, \<^verbatim>\<open>time.ParseDuration\<close>, \<^verbatim>\<open>url.Parse\<close>,
  \<^verbatim>\<open>net.ParseIP\<close>, \<^verbatim>\<open>netip.ParseAddr\<close>, \<^verbatim>\<open>os.LookupEnv\<close>, the parser of flags, and the clock. A
  theorem that relies on their documented behaviour names it as a hypothesis, and its witness
  instantiates it.

  NOT MODELLED. \<^verbatim>\<open>main\<close> and \<^verbatim>\<open>run\<close> (signals and the exit code); the text of log lines (only the
  lines for mutations are kept, as the log in \<^verbatim>\<open>host\<close>); the accessors of \<^verbatim>\<open>App\<close> and of the
  Docker provider, which return a field; the mutex of the Cloudflare provider (operations on
  one provider run one at a time in the runtime); the recovery from a panic inside the
  Cloudflare client's Error method; a failure while the body of an answer is read; letters and
  blanks outside ASCII (strings are lists of bytes, case mapping and trimming are those of
  ASCII, and JSON copies bytes from 128 up); times in the state file with an offset other than
  Z, which the program never writes; what happens while a handler of the supervision runs (a
  handler and the pass in it are one step; goroutines move between the steps).

  WHAT THE THEOREMS SHOW. The plan (\<^verbatim>\<open>Plan_Safety\<close>): it creates only where a hostname is free,
  updates and deletes only with proof of ownership, handles stale records on each branch, does
  not depend on the iteration order and calls nothing at the goal. The apply phase
  (\<^verbatim>\<open>Apply_Correct\<close>, \<^verbatim>\<open>Apply_Ownership\<close>): which calls run, that no owned record is forgotten
  without cause, that each logged mutation is on the books. The state file (\<^verbatim>\<open>Atomic_Correct\<close>,
  \<^verbatim>\<open>State_Store\<close>, \<^verbatim>\<open>Store_Refine\<close>): it is old or new at each moment, what is saved is loaded,
  and the store refines a cell. Passes and retries (\<^verbatim>\<open>Reconcile_Run\<close>, \<^verbatim>\<open>App_Reconcile\<close>,
  \<^verbatim>\<open>App_Safety\<close>): which failures stop, which are retried, that the loop returns and the store
  stays readable. Supervision (\<^verbatim>\<open>Steady_Correct\<close>): each source is carried by one watch or
  reconnect in each interleaving, no hint is forgotten, the loop ends for a cause. Sources
  (\<^verbatim>\<open>Docker_Derive\<close>, \<^verbatim>\<open>Docker_Source\<close>): derivation is exact, listing too, and which events give
  a hint. Outputs (\<^verbatim>\<open>Cloudflare_Correct\<close>, \<^verbatim>\<open>Cloudflare_Zone\<close>, \<^verbatim>\<open>Cloudflare_Pass\<close>, \<^verbatim>\<open>First_Sync\<close>):
  failures of the client are redacted and classified, mutations touch one record, a pass
  spares what is not owned, a first synchronisation settles. Timeouts (\<^verbatim>\<open>Runtime_Env\<close>,
  \<^verbatim>\<open>Startup_Correct\<close>): each call of a provider in a started daemon ends within the configured
  time. Configuration and start (\<^verbatim>\<open>Config_Secrets\<close>, \<^verbatim>\<open>Startup_Correct\<close>). \<^verbatim>\<open>Observations\<close> holds
  concrete runs in which code and documentation disagree.
\<close>

end
